(* ===== verification/Prelude.thy ===== *)
theory Prelude
  imports Main "HOL-Library.Sublist" "HOL-Library.List_Lexorder" "HOL-Library.Char_ord"
begin

text \<open>
  Shared vocabulary of the development: bytes and byte strings, the clock, 64-bit signed
  arithmetic as Go's \<open>int64\<close> and \<open>time.Duration\<close> have it, and the theorem collections the
  component theories fill.

  A Go \<open>string\<close> and a \<open>[]byte\<close> are both byte sequences, so both are \<open>string\<close> here (a list
  of 8-bit characters). A \<open>time.Time\<close> is the number of nanoseconds since Go's zero time
  (0001-01-01T00:00:00Z), so \<open>IsZero\<close> is equality with 0. A \<open>time.Duration\<close> is a number of
  nanoseconds.
\<close>

type_synonym bytes = string
type_synonym time = int
type_synonym duration = int

named_theorems reply_simps \<open>how the reply primitives act on the fields of a session\<close>
named_theorems cmd_defs \<open>the definitions of the SMTP command handlers\<close>
named_theorems store_defs \<open>the definitions of the queue operations\<close>

abbreviation CR :: char where "CR \<equiv> CHR 0x0D"
abbreviation LF :: char where "LF \<equiv> CHR 0x0A"
abbreviation NUL :: char where "NUL \<equiv> CHR 0x00"

definition crlf :: bytes where
  "crlf = [CR, LF]"

text \<open>One reply line: the text followed by the line end.\<close>

definition ln :: "bytes \<Rightarrow> bytes" where
  "ln s = s @ crlf"

lemma ln_inject [simp]: "ln s = ln t \<longleftrightarrow> s = t"
  by (simp add: ln_def)

section \<open>64-bit signed integers\<close>

text \<open>
  \<open>wrap64 x\<close> is the value an \<open>int64\<close> holds after an operation whose exact result is \<open>x\<close>:
  two's complement wrap-around into the range from \<open>- 2 ^ 63\<close> to \<open>2 ^ 63 - 1\<close>.
\<close>

definition wrap64 :: "int \<Rightarrow> int" where
  "wrap64 x = (x + 2 ^ 63) mod 2 ^ 64 - 2 ^ 63"

lemma wrap64_range: "- (2 ^ 63) \<le> wrap64 x \<and> wrap64 x < 2 ^ 63"
proof -
  have "0 \<le> (x + 2 ^ 63) mod 2 ^ 64" "(x + 2 ^ 63) mod 2 ^ 64 < (2 :: int) ^ 64"
    by simp_all
  then show ?thesis unfolding wrap64_def by simp
qed

lemma wrap64_id:
  assumes "- (2 ^ 63) \<le> x" and "x < 2 ^ 63"
  shows "wrap64 x = x"
proof -
  have "(x + 2 ^ 63) mod 2 ^ 64 = x + 2 ^ 63"
    by (rule mod_pos_pos_trivial) (use assms in simp_all)
  then show ?thesis by (simp add: wrap64_def)
qed

abbreviation second :: duration where "second \<equiv> 1000000000"
abbreviation minute :: duration where "minute \<equiv> 60000000000"

text \<open>\<open>time.Duration(n) * time.Second\<close>, an \<open>int64\<close> product.\<close>

definition dur_seconds :: "int \<Rightarrow> duration" where
  "dur_seconds n = wrap64 (n * second)"

lemma dur_seconds_exact: "0 \<le> n \<Longrightarrow> n \<le> 9223372036 \<Longrightarrow> dur_seconds n = n * second"
  unfolding dur_seconds_def by (rule wrap64_id) simp_all

section \<open>Lists and options\<close>

lemma takeWhile_append_stop: "\<forall>x\<in>set xs. P x \<Longrightarrow> \<not> P y \<Longrightarrow> takeWhile P (xs @ y # ys) = xs"
  by (induction xs) auto

lemma dropWhile_append_stop: "\<forall>x\<in>set xs. P x \<Longrightarrow> \<not> P y \<Longrightarrow> dropWhile P (xs @ y # ys) = y # ys"
  by (induction xs) auto

end
