(* ===== verification/Go_Strings.thy ===== *)
theory Go_Strings
  imports Prelude
begin

text \<open>
  The functions of Go's packages \<open>strings\<close>, \<open>bufio\<close>, \<open>net\<close>, \<open>strconv\<close> and \<open>encoding/hex\<close>
  that the relay calls, on byte strings.

  White space is Unicode's, as in \<open>unicode.IsSpace\<close>: a list of UTF-8 encodings. Each of them
  starts with a byte that never continues another encoding, so scanning byte by byte finds
  the runes Go's decoder finds. \<open>ToUpper\<close> is exact for every comparison of its result with
  ASCII text, which is all the relay does with it: U+0131 and U+017F are the only runes
  outside ASCII whose upper case is ASCII, and every other such rune keeps its bytes here.
  \<open>ToLower\<close> is exact on ASCII text.
\<close>

section \<open>White space\<close>

definition space_runes :: "bytes list" where
  "space_runes =
     [[CHR 0x20], [CHR 0x09], [CHR 0x0A], [CHR 0x0B], [CHR 0x0C], [CHR 0x0D],
      [CHR 0xC2, CHR 0x85], [CHR 0xC2, CHR 0xA0], [CHR 0xE1, CHR 0x9A, CHR 0x80]]
     @ map (\<lambda>b. [CHR 0xE2, CHR 0x80, b])
        [CHR 0x80, CHR 0x81, CHR 0x82, CHR 0x83, CHR 0x84, CHR 0x85, CHR 0x86, CHR 0x87,
         CHR 0x88, CHR 0x89, CHR 0x8A, CHR 0xA8, CHR 0xA9, CHR 0xAF]
     @ [[CHR 0xE2, CHR 0x81, CHR 0x9F], [CHR 0xE3, CHR 0x80, CHR 0x80]]"

text \<open>The length of the first of the strings \<open>ws\<close> that \<open>s\<close> starts with, 0 if there is none.\<close>

definition lead_len :: "bytes list \<Rightarrow> bytes \<Rightarrow> nat" where
  "lead_len ws s = (case find (\<lambda>w. prefix w s) ws of None \<Rightarrow> 0 | Some w \<Rightarrow> length w)"

lemma lead_len_le: "lead_len ws s \<le> length s"
  by (auto simp: lead_len_def find_Some_iff dest!: prefix_length_le split: option.splits)

function trim_with :: "bytes list \<Rightarrow> bytes \<Rightarrow> bytes" where
  "trim_with ws s = (if lead_len ws s = 0 then s else trim_with ws (drop (lead_len ws s) s))"
  by pat_completeness auto
termination
proof (relation "measure (\<lambda>(ws, s). length s)")
  fix ws and s :: bytes
  assume "lead_len ws s \<noteq> 0"
  then show "((ws, drop (lead_len ws s) s), ws, s) \<in> measure (\<lambda>(ws, s). length s)"
    using lead_len_le [of ws s] by simp
qed simp

declare trim_with.simps [simp del]

definition trim_left_space :: "bytes \<Rightarrow> bytes" where
  "trim_left_space s = trim_with space_runes s"

definition trim_right_space :: "bytes \<Rightarrow> bytes" where
  "trim_right_space s = rev (trim_with (map rev space_runes) (rev s))"

text \<open>\<open>strings.TrimSpace\<close>\<close>

definition trim_space :: "bytes \<Rightarrow> bytes" where
  "trim_space s = trim_right_space (trim_left_space s)"

lemma suffix_trim_with: "suffix (trim_with ws s) s"
proof (induction ws s rule: trim_with.induct)
  case (1 ws s)
  show ?case
  proof (cases "lead_len ws s = 0")
    case True
    then show ?thesis by (simp add: trim_with.simps [of ws s])
  next
    case False
    with 1 have "suffix (trim_with ws (drop (lead_len ws s) s)) (drop (lead_len ws s) s)"
      by simp
    with False show ?thesis
      by (simp add: trim_with.simps [of ws s] suffix_order.trans suffix_drop)
  qed
qed

lemma lead_len_trim_with [simp]: "lead_len ws (trim_with ws s) = 0"
proof (induction ws s rule: trim_with.induct)
  case (1 ws s)
  then show ?case by (cases "lead_len ws s = 0") (simp_all add: trim_with.simps [of ws s])
qed

lemma trim_with_fixed: "lead_len ws s = 0 \<Longrightarrow> trim_with ws s = s"
  by (simp add: trim_with.simps)

lemma length_trim_space: "length (trim_space s) \<le> length s"
proof -
  have "length (trim_with ws t) \<le> length t" for ws and t :: bytes
    using suffix_trim_with suffix_length_le by blast
  then show ?thesis
    unfolding trim_space_def trim_right_space_def trim_left_space_def
    by (metis length_rev order_trans)
qed

lemma set_trim_space: "set (trim_space s) \<subseteq> set s"
proof -
  have "set (trim_with ws t) \<subseteq> set t" for ws and t :: bytes
    using suffix_trim_with set_mono_suffix by blast
  then show ?thesis
    unfolding trim_space_def trim_right_space_def trim_left_space_def
    by (metis set_rev order_trans)
qed

text \<open>A byte that starts no white space rune and ends none.\<close>

definition solid :: "char \<Rightarrow> bool" where
  "solid c \<longleftrightarrow> c \<notin> hd ` set space_runes \<and> c \<notin> last ` set space_runes"

lemma space_runes_nonempty: "w \<in> set space_runes \<Longrightarrow> w \<noteq> []"
  by (auto simp: space_runes_def)

lemma lead_len_solid: "solid c \<Longrightarrow> lead_len space_runes (c # s) = 0"
proof -
  assume c: "solid c"
  have "\<not> prefix w (c # s)" if "w \<in> set space_runes" for w
    using c that space_runes_nonempty [OF that] by (cases w) (force simp: solid_def)+
  then have "find (\<lambda>w. prefix w (c # s)) space_runes = None"
    by (simp add: find_None_iff)
  then show ?thesis by (simp add: lead_len_def)
qed

lemma lead_len_solid_rev: "solid c \<Longrightarrow> lead_len (map rev space_runes) (c # s) = 0"
proof -
  assume c: "solid c"
  have "\<not> prefix w (c # s)" if "w \<in> set (map rev space_runes)" for w
  proof -
    from that obtain v where v: "v \<in> set space_runes" "w = rev v" by auto
    then have "w \<noteq> []" "hd w = last v"
      using space_runes_nonempty by (auto simp: hd_rev)
    then show ?thesis using c v by (cases w) (force simp: solid_def)+
  qed
  then have "find (\<lambda>w. prefix w (c # s)) (map rev space_runes) = None"
    by (simp only: find_None_iff) blast
  then show ?thesis by (simp add: lead_len_def)
qed

lemma lead_len_Nil [simp]: "lead_len ws [] = 0"
  using lead_len_le [of ws "[]"] by simp

text \<open>Text that starts and ends with solid bytes is what \<open>TrimSpace\<close> leaves alone.\<close>

lemma trim_space_solid:
  assumes "s = [] \<or> (solid (hd s) \<and> solid (last s))"
  shows "trim_space s = s"
proof (cases s)
  case Nil
  then show ?thesis
    by (simp add: trim_space_def trim_left_space_def trim_right_space_def trim_with_fixed)
next
  case (Cons c t)
  with assms have "solid c" and l: "solid (last s)" by auto
  then have left: "trim_left_space s = s"
    using Cons by (simp add: trim_left_space_def trim_with_fixed lead_len_solid)
  have "rev s = last s # rev (butlast s)"
    using Cons by (metis append_butlast_last_id list.distinct(1) rev.simps(2) rev_rev_ident rev_swap)
  then have "trim_with (map rev space_runes) (rev s) = rev s"
    using l by (metis lead_len_solid_rev trim_with_fixed)
  with left show ?thesis by (simp add: trim_space_def trim_right_space_def)
qed

text \<open>A line without its line end.\<close>

lemma lead_len_crlf_rev:
  "lead_len (map rev space_runes) (LF # s) = 1" "lead_len (map rev space_runes) (CR # s) = 1"
  by (simp_all add: lead_len_def space_runes_def)

lemma trim_space_line:
  assumes "s = [] \<or> (solid (hd s) \<and> solid (last s))"
  shows "trim_space (s @ crlf) = s"
proof (cases s)
  case Nil
  have "trim_space crlf = []" by code_simp
  with Nil show ?thesis by simp
next
  case (Cons c t)
  with assms have c: "solid c" and l: "solid (last s)" by auto
  have left: "trim_left_space (s @ crlf) = s @ crlf"
    using c Cons by (simp add: trim_left_space_def trim_with_fixed lead_len_solid)
  have r: "rev s = last s # rev (butlast s)"
    using Cons by (metis append_butlast_last_id list.distinct(1) rev_eq_Cons_iff rev_rev_ident)
  have "trim_with (map rev space_runes) (rev (s @ crlf)) = rev s"
    using l unfolding crlf_def
    by (simp add: trim_with.simps [of _ "LF # _"] trim_with.simps [of _ "CR # _"] lead_len_crlf_rev)
      (simp add: r trim_with_fixed lead_len_solid_rev)
  with left show ?thesis by (simp add: trim_space_def trim_right_space_def)
qed

section \<open>Letter case\<close>

definition up_char :: "char \<Rightarrow> char" where
  "up_char c = (let n = of_char c :: nat in if 97 \<le> n \<and> n \<le> 122 then char_of (n - 32) else c)"

definition low_char :: "char \<Rightarrow> char" where
  "low_char c = (let n = of_char c :: nat in if 65 \<le> n \<and> n \<le> 90 then char_of (n + 32) else c)"

text \<open>\<open>strings.ToUpper\<close>\<close>

fun to_upper :: "bytes \<Rightarrow> bytes" where
  "to_upper (a # b # s) =
     (if a = CHR 0xC4 \<and> b = CHR 0xB1 then CHR ''I'' # to_upper s
      else if a = CHR 0xC5 \<and> b = CHR 0xBF then CHR ''S'' # to_upper s
      else up_char a # to_upper (b # s))"
| "to_upper s = map up_char s"

text \<open>\<open>strings.ToLower\<close>\<close>

definition to_lower :: "bytes \<Rightarrow> bytes" where
  "to_lower s = map low_char s"

lemma length_to_upper: "length (to_upper s) \<le> length s"
  by (induction s rule: to_upper.induct) (auto intro: le_SucI)

lemma low_char_idem [simp]: "low_char (low_char c) = low_char c"
  by (auto simp: low_char_def Let_def)

lemma to_lower_idem [simp]: "to_lower (to_lower s) = to_lower s"
  by (simp add: to_lower_def)

lemma to_lower_Nil_iff [simp]: "to_lower s = [] \<longleftrightarrow> s = []"
  by (simp add: to_lower_def)

section \<open>Cutting and splitting\<close>

text \<open>\<open>strings.Trim\<close> and \<open>strings.TrimRight\<close> with an ASCII cut set.\<close>

definition trim_right_cut :: "char set \<Rightarrow> bytes \<Rightarrow> bytes" where
  "trim_right_cut cs s = rev (dropWhile (\<lambda>c. c \<in> cs) (rev s))"

definition trim_cut :: "char set \<Rightarrow> bytes \<Rightarrow> bytes" where
  "trim_cut cs s = trim_right_cut cs (dropWhile (\<lambda>c. c \<in> cs) s)"

text \<open>
  \<open>strings.Index\<close> for a one-byte pattern, \<open>None\<close> for \<open>-1\<close>, and
  \<open>strings.LastIndexByte\<close>.
\<close>

definition index_byte :: "char \<Rightarrow> bytes \<Rightarrow> nat option" where
  "index_byte c s = (if c \<in> set s then Some (length (takeWhile (\<lambda>x. x \<noteq> c) s)) else None)"

definition last_index_byte :: "char \<Rightarrow> bytes \<Rightarrow> nat option" where
  "last_index_byte c s = map_option (\<lambda>k. length s - 1 - k) (index_byte c (rev s))"

text \<open>\<open>strings.Split\<close> with a one-byte separator: always at least one segment.\<close>

fun split_byte :: "char \<Rightarrow> bytes \<Rightarrow> bytes list" where
  "split_byte c [] = [[]]"
| "split_byte c (x # s) =
     (if x = c then [] # split_byte c s
      else case split_byte c s of [] \<Rightarrow> [[x]] | seg # segs \<Rightarrow> (x # seg) # segs)"

text \<open>\<open>strings.SplitN\<close> with a one-byte separator and at most two parts.\<close>

definition split_two :: "char \<Rightarrow> bytes \<Rightarrow> bytes list" where
  "split_two c s =
     (case dropWhile (\<lambda>x. x \<noteq> c) s of
        [] \<Rightarrow> [s]
      | _ # rest \<Rightarrow> [takeWhile (\<lambda>x. x \<noteq> c) s, rest])"

text \<open>\<open>strings.Fields\<close>; \<open>cur\<close> is the field being read.\<close>

function fields_from :: "bytes \<Rightarrow> bytes \<Rightarrow> bytes list" where
  "fields_from cur [] = (if cur = [] then [] else [cur])"
| "fields_from cur (c # s) =
     (if lead_len space_runes (c # s) = 0 then fields_from (cur @ [c]) s
      else (if cur = [] then [] else [cur])
           @ fields_from [] (drop (lead_len space_runes (c # s)) (c # s)))"
  by pat_completeness auto
termination
  by (relation "measure (\<lambda>(cur, s). length s)") auto

declare fields_from.simps [simp del]

definition str_fields :: "bytes \<Rightarrow> bytes list" where
  "str_fields s = fields_from [] s"

lemma split_byte_nonempty [simp]: "split_byte c s \<noteq> []"
  by (cases s) (auto split: list.splits)

text \<open>Joining the segments with the separator gives the string back.\<close>

lemma split_byte_append:
  "c \<notin> set s \<Longrightarrow> split_byte c (s @ c # t) = s # split_byte c t"
  by (induction s) auto

lemma split_byte_none: "c \<notin> set s \<Longrightarrow> split_byte c s = [s]"
  by (induction s) auto

lemma split_two_append: "c \<notin> set s \<Longrightarrow> split_two c (s @ c # t) = [s, t]"
proof -
  assume "c \<notin> set s"
  then have *: "\<forall>x\<in>set s. x \<noteq> c" by blast
  show ?thesis
    using takeWhile_append_stop [OF *, of c t] dropWhile_append_stop [OF *, of c t]
    by (simp add: split_two_def)
qed

lemma split_two_none: "c \<notin> set s \<Longrightarrow> split_two c s = [s]"
proof -
  assume "c \<notin> set s"
  then have "dropWhile (\<lambda>x. x \<noteq> c) s = []" by (auto simp: dropWhile_eq_Nil_conv)
  then show ?thesis by (simp only: split_two_def list.case)
qed

lemma index_byte_append: "c \<notin> set s \<Longrightarrow> index_byte c (s @ c # t) = Some (length s)"
proof -
  assume "c \<notin> set s"
  then have *: "\<forall>x\<in>set s. x \<noteq> c" by blast
  show ?thesis using takeWhile_append_stop [OF *, of c t] by (simp add: index_byte_def)
qed

lemma index_byte_less: "index_byte c s = Some k \<Longrightarrow> k < length s \<and> s ! k = c"
proof -
  assume "index_byte c s = Some k"
  then have c: "c \<in> set s" and k: "k = length (takeWhile (\<lambda>x. x \<noteq> c) s)"
    by (simp_all add: index_byte_def split: if_splits)
  from c obtain u v where "s = u @ c # v" "c \<notin> set u" by (meson split_list_first)
  moreover from this have "takeWhile (\<lambda>x. x \<noteq> c) s = u"
    by (metis (mono_tags, lifting) takeWhile_append_stop)
  ultimately show ?thesis using k by simp
qed

lemma fields_from_nonempty: "f \<in> set (fields_from cur s) \<Longrightarrow> f \<noteq> []"
  by (induction cur s rule: fields_from.induct)
    (auto simp: fields_from.simps split: if_splits)

lemma fields_nonempty: "f \<in> set (str_fields s) \<Longrightarrow> f \<noteq> []"
  by (simp add: str_fields_def fields_from_nonempty)

lemma fields_from_solid:
  "\<forall>c\<in>set s. solid c \<Longrightarrow> fields_from cur s = (if cur @ s = [] then [] else [cur @ s])"
  by (induction s arbitrary: cur) (auto simp: fields_from.simps lead_len_solid)

lemma fields_solid: "\<forall>c\<in>set s. solid c \<Longrightarrow> s \<noteq> [] \<Longrightarrow> str_fields s = [s]"
  by (simp add: str_fields_def fields_from_solid)

lemma fields_from_solid_space:
  assumes "\<forall>c\<in>set s. solid c" and "cur @ s \<noteq> []"
  shows "fields_from cur (s @ CHR 0x20 # t) = (cur @ s) # fields_from [] t"
  using assms
proof (induction s arbitrary: cur)
  case Nil
  have "lead_len space_runes (CHR 0x20 # t) = 1"
    by (simp add: lead_len_def space_runes_def)
  with Nil show ?case by (simp add: fields_from.simps)
next
  case (Cons c s)
  then show ?case by (simp add: fields_from.simps lead_len_solid)
qed

lemma fields_solid_space:
  "\<forall>c\<in>set s. solid c \<Longrightarrow> s \<noteq> [] \<Longrightarrow> str_fields (s @ CHR 0x20 # t) = s # str_fields t"
  by (simp add: str_fields_def fields_from_solid_space)

section \<open>Reading lines\<close>

text \<open>
  \<open>bufio.Reader.ReadString('\<newline>')\<close> on the bytes that are still to come: the line with its line
  feed and the rest, or \<open>None\<close> when the stream ends (or times out) before a line feed.
\<close>

definition read_line :: "bytes \<Rightarrow> (bytes \<times> bytes) option" where
  "read_line s =
     (case dropWhile (\<lambda>c. c \<noteq> LF) s of
        [] \<Rightarrow> None
      | lf # rest \<Rightarrow> Some (takeWhile (\<lambda>c. c \<noteq> LF) s @ [lf], rest))"

lemma read_line_Some:
  assumes "read_line s = Some (l, rest)"
  shows "s = l @ rest" and "\<exists>t. l = t @ [LF] \<and> LF \<notin> set t" and "length rest < length s"
proof -
  from assms obtain lf where d: "dropWhile (\<lambda>c. c \<noteq> LF) s = lf # rest"
    and l: "l = takeWhile (\<lambda>c. c \<noteq> LF) s @ [lf]"
    by (auto simp: read_line_def split: list.splits)
  from d have lf: "lf = LF"
    by (simp only: dropWhile_eq_Cons_conv) simp
  have "(takeWhile (\<lambda>c. c \<noteq> LF) s @ [lf]) @ rest = s"
    using takeWhile_dropWhile_id [of "\<lambda>c. c \<noteq> LF" s] unfolding d by simp
  then show s: "s = l @ rest" by (simp only: l)
  show "\<exists>t. l = t @ [LF] \<and> LF \<notin> set t"
    using l lf by (auto dest: set_takeWhileD)
  show "length rest < length s"
    by (subst s) (simp add: l)
qed

lemma read_line_append: "LF \<notin> set t \<Longrightarrow> read_line (t @ LF # rest) = Some (t @ [LF], rest)"
proof -
  assume "LF \<notin> set t"
  then have *: "\<forall>c\<in>set t. c \<noteq> LF" by blast
  show ?thesis
    using takeWhile_append_stop [OF *, of LF rest] dropWhile_append_stop [OF *, of LF rest]
    by (simp add: read_line_def)
qed

lemma read_line_None: "read_line s = None \<longleftrightarrow> LF \<notin> set s"
proof (cases "dropWhile (\<lambda>c. c \<noteq> LF) s")
  case Nil
  then have "\<forall>x\<in>set s. x \<noteq> LF" by (simp only: dropWhile_eq_Nil_conv)
  then have "LF \<notin> set s" by blast
  then show ?thesis by (simp only: read_line_def Nil list.case) simp
next
  case (Cons c t)
  then have "dropWhile (\<lambda>c. c \<noteq> LF) s \<noteq> []" by simp
  then have "LF \<in> set s" by (simp only: dropWhile_eq_Nil_conv) blast
  with Cons show ?thesis by (simp add: read_line_def)
qed

section \<open>Host and port\<close>

text \<open>
  \<open>net.SplitHostPort\<close>, the host only: \<open>None\<close> for its error. \<open>j\<close> and \<open>k\<close> are the positions
  after which no opening and no closing bracket may stand.
\<close>

definition split_host_port :: "bytes \<Rightarrow> bytes option" where
  "split_host_port hp =
     (case last_index_byte (CHR '':'') hp of
        None \<Rightarrow> None
      | Some i \<Rightarrow>
          if hp ! 0 = CHR ''['' then
            (case index_byte (CHR '']'') hp of
               None \<Rightarrow> None
             | Some e \<Rightarrow>
                 if e + 1 \<noteq> i then None
                 else if CHR ''['' \<in> set (drop 1 hp) \<or> CHR '']'' \<in> set (drop (e + 1) hp) then None
                 else Some (take (e - 1) (drop 1 hp)))
          else if CHR '':'' \<in> set (take i hp) then None
          else if CHR ''['' \<in> set hp \<or> CHR '']'' \<in> set hp then None
          else Some (take i hp))"

section \<open>Numbers\<close>

definition is_digit :: "char \<Rightarrow> bool" where
  "is_digit c \<longleftrightarrow> CHR ''0'' \<le> c \<and> c \<le> CHR ''9''"

definition digit_val :: "char \<Rightarrow> nat" where
  "digit_val c = of_char c - 48"

definition digit_char :: "nat \<Rightarrow> char" where
  "digit_char d = char_of (48 + d)"

text \<open>\<open>strconv.Itoa\<close> and \<open>%d\<close>.\<close>

fun show_nat :: "nat \<Rightarrow> bytes" where
  "show_nat n = (if n < 10 then [digit_char n] else show_nat (n div 10) @ [digit_char (n mod 10)])"

declare show_nat.simps [simp del]

definition show_int :: "int \<Rightarrow> bytes" where
  "show_int i = (if i < 0 then CHR ''-'' # show_nat (nat (- i)) else show_nat (nat i))"

definition digits_val :: "bytes \<Rightarrow> nat" where
  "digits_val s = foldl (\<lambda>n c. 10 * n + digit_val c) 0 s"

text \<open>
  \<open>strconv.Atoi\<close> and \<open>strconv.ParseInt(v, 10, 64)\<close>: an optional sign and decimal digits, an
  error when there is none, when another byte occurs, or when the value leaves \<open>int64\<close>.
\<close>

definition parse_int :: "bytes \<Rightarrow> int option" where
  "parse_int s =
     (let neg = (s \<noteq> [] \<and> hd s = CHR ''-'');
          body = (if s \<noteq> [] \<and> (hd s = CHR ''-'' \<or> hd s = CHR ''+'') then tl s else s)
      in if body = [] \<or> \<not> list_all is_digit body then None
         else let v = (if neg then - int (digits_val body) else int (digits_val body))
              in if - (2 ^ 63) \<le> v \<and> v < 2 ^ 63 then Some v else None)"

lemma digit_val_char [simp]: "d < 10 \<Longrightarrow> digit_val (digit_char d) = d"
  by (simp add: digit_val_def digit_char_def)

lemma is_digit_char [simp]: "d < 10 \<Longrightarrow> is_digit (digit_char d)"
  by (simp add: is_digit_def digit_char_def less_eq_char_def)

lemma digits_val_snoc [simp]: "digits_val (s @ [c]) = 10 * digits_val s + digit_val c"
  by (simp add: digits_val_def)

lemma digits_val_show_nat [simp]: "digits_val (show_nat n) = n"
proof (induction n rule: show_nat.induct)
  case (1 n)
  then show ?case
    by (cases "n < 10") (simp_all add: show_nat.simps [of n], simp add: digits_val_def)
qed

lemma show_nat_digits: "list_all is_digit (show_nat n) \<and> show_nat n \<noteq> []"
proof (induction n rule: show_nat.induct)
  case (1 n)
  then show ?case by (cases "n < 10") (simp_all add: show_nat.simps [of n])
qed

lemma is_digit_not_sign: "is_digit c \<Longrightarrow> c \<noteq> CHR ''-'' \<and> c \<noteq> CHR ''+''"
  by (auto simp: is_digit_def less_eq_char_def)

text \<open>What \<open>Itoa\<close> writes, \<open>Atoi\<close> reads.\<close>

lemma parse_int_show_int:
  assumes "- (2 ^ 63) \<le> i" and "i < 2 ^ 63"
  shows "parse_int (show_int i) = Some i"
proof (cases "i < 0")
  case True
  with assms show ?thesis
    using show_nat_digits [of "nat (- i)"] by (simp add: parse_int_def show_int_def Let_def)
next
  case False
  have "hd (show_nat (nat i)) \<noteq> CHR ''-'' \<and> hd (show_nat (nat i)) \<noteq> CHR ''+''"
    using show_nat_digits [of "nat i"] is_digit_not_sign by (cases "show_nat (nat i)") auto
  with False assms show ?thesis
    using show_nat_digits [of "nat i"] by (simp add: parse_int_def show_int_def Let_def)
qed

section \<open>Hexadecimal\<close>

definition hex_digit :: "nat \<Rightarrow> char" where
  "hex_digit d = (if d < 10 then char_of (48 + d) else char_of (87 + d))"

text \<open>\<open>hex.EncodeToString\<close>\<close>

fun hex_encode :: "bytes \<Rightarrow> bytes" where
  "hex_encode [] = []"
| "hex_encode (c # s) = hex_digit (of_char c div 16) # hex_digit (of_char c mod 16) # hex_encode s"

lemma length_hex_encode [simp]: "length (hex_encode s) = 2 * length s"
  by (induction s) auto

lemma of_char_hex_digit:
  "d < 16 \<Longrightarrow> of_char (hex_digit d) = (if d < 10 then 48 + d else 87 + d)"
  by (simp add: hex_digit_def)

lemma hex_digit_inject: "a < 16 \<Longrightarrow> b < 16 \<Longrightarrow> hex_digit a = hex_digit b \<longleftrightarrow> a = b"
proof
  assume "a < 16" "b < 16" "hex_digit a = hex_digit b"
  then have "(if a < 10 then 48 + a else 87 + a) = (if b < 10 then 48 + b else 87 + b)"
    by (metis of_char_hex_digit)
  with \<open>a < 16\<close> \<open>b < 16\<close> show "a = b" by (simp split: if_splits)
qed simp

lemma of_char_div_16: "(of_char c :: nat) div 16 < 16"
proof -
  have "(of_char c :: nat) < 256" by simp
  then show ?thesis by linarith
qed

lemma hex_encode_inject: "hex_encode s = hex_encode t \<longleftrightarrow> s = t"
proof (induction s arbitrary: t)
  case Nil
  then show ?case by (cases t) auto
next
  case (Cons c s)
  show ?case
  proof (cases t)
    case (Cons d u)
    have "(of_char c :: nat) div 16 = of_char d div 16 \<and> (of_char c :: nat) mod 16 = of_char d mod 16
        \<longleftrightarrow> c = d"
      by (metis div_mult_mod_eq of_char_eq_iff)
    with Cons Cons.IH [of u] show ?thesis
      by (auto simp: hex_digit_inject of_char_div_16)
  qed simp
qed

end
