(* ===== verification/Config.thy ===== *)
theory Config
  imports Go_Strings
begin

text \<open>
  internal/config/config.go: the configuration record, the credential check, and \<open>Load\<close>,
  which reads the environment, applies defaults and validates every field.

  The process environment, after godotenv has filled it from a \<open>.env\<close> file, is a function
  \<open>getenv\<close> that gives the empty string for an unset variable, as \<open>os.Getenv\<close> does. The two
  decoders \<open>Load\<close> relies on are parameters: \<open>compile\<close> for \<open>regexp.Compile\<close> (\<open>None\<close> is its
  error, \<open>Some p\<close> a pattern given as its \<open>MatchString\<close>), and \<open>unmarshal\<close> for \<open>json.Unmarshal\<close>
  into a list of users.
\<close>

record auth_user =
  Username :: bytes
  Password :: bytes

datatype log_level = LevelDebug | LevelInfo | LevelWarn | LevelError

text \<open>The levels in the order of \<open>slog.Level\<close>.\<close>

definition level_num :: "log_level \<Rightarrow> int" where
  "level_num l = (case l of LevelDebug \<Rightarrow> -4 | LevelInfo \<Rightarrow> 0 | LevelWarn \<Rightarrow> 4 | LevelError \<Rightarrow> 8)"

lemma level_num_inject [simp]: "level_num a = level_num b \<longleftrightarrow> a = b"
  by (cases a; cases b) (simp_all add: level_num_def)

instantiation log_level :: linorder
begin

definition less_eq_log_level :: "log_level \<Rightarrow> log_level \<Rightarrow> bool" where
  "less_eq_log_level a b \<longleftrightarrow> level_num a \<le> level_num b"

definition less_log_level :: "log_level \<Rightarrow> log_level \<Rightarrow> bool" where
  "less_log_level a b \<longleftrightarrow> level_num a < level_num b"

instance
  by standard (auto simp: less_eq_log_level_def less_log_level_def)

end

record config =
  SMTPBindAddr465 :: bytes
  SMTPBindAddr587 :: bytes
  SMTPRequireTLS587 :: bool
  SMTPMaxConnections :: int
  SMTPMaxMessageBytes :: int
  SMTPMaxRecipients :: int
  SMTPMaxCommandsPerSession :: int
  SMTPReadTimeoutSeconds :: int
  SMTPWriteTimeoutSeconds :: int
  SMTPIdleTimeoutSeconds :: int
  SMTPAuthRateLimitPerMin :: int
  SMTPAuthLockoutSeconds :: int
  SMTPHostname :: bytes
  QueueDBPath :: bytes
  QueueMaxBacklog :: int
  WorkerPollIntervalSeconds :: int
  WorkerConcurrency :: int
  WorkerMaxAttempts :: int
  WorkerRetryBaseSeconds :: int
  WorkerRetryMaxSeconds :: int
  SendAsRefreshSeconds :: int
  ObsHTTPAddr :: bytes
  ReadinessAliasMaxStaleSeconds :: int
  ProcessingStuckTimeoutSeconds :: int
  AllowedSenderRegex :: bytes
  AllowedSenderPattern :: "bytes \<Rightarrow> bool"
  AuthUsers :: "auth_user list"
  TLSCertFile :: bytes
  TLSKeyFile :: bytes
  GmailClientID :: bytes
  GmailClientSecret :: bytes
  GmailRefreshToken :: bytes
  GmailOAuthRedirectURI :: bytes
  GmailMailbox :: bytes
  LogLevel :: log_level

section \<open>Credentials\<close>

text \<open>
  \<open>Config.ValidateCredentials\<close>; \<open>subtle.ConstantTimeCompare\<close> gives 1 exactly when the two byte
  strings are equal.
\<close>

fun validate_users :: "auth_user list \<Rightarrow> bytes \<Rightarrow> bytes \<Rightarrow> bool" where
  "validate_users [] username password = False"
| "validate_users (u # us) username password =
     (if Username u = username \<and> Password u = password then True
      else validate_users us username password)"

definition ValidateCredentials :: "config \<Rightarrow> bytes \<Rightarrow> bytes \<Rightarrow> bool" where
  "ValidateCredentials cfg username password = validate_users (AuthUsers cfg) username password"

lemma validate_users_iff:
  "validate_users us n p \<longleftrightarrow> (\<exists>u\<in>set us. Username u = n \<and> Password u = p)"
  by (induction us) auto

lemma ValidateCredentials_iff:
  "ValidateCredentials cfg n p \<longleftrightarrow> (\<exists>u\<in>set (AuthUsers cfg). Username u = n \<and> Password u = p)"
  by (simp add: ValidateCredentials_def validate_users_iff)

section \<open>Reading the environment\<close>

datatype config_error =
    MissingAuthUsers | InvalidAuthUsers | NoAuthUsers | EmptyCredential | DuplicateUsername
  | MissingSenderRegex | InvalidSenderRegex | MissingRequired bytes
  | BadSMTPLimits | BadSMTPTimeouts | BadAuthProtection | BadQueueConfig | BadWorkerConfig
  | BadRetryBounds | BadSendAsRefresh | BadObsAddr | BadAliasStale | BadStuckTimeout

type_synonym env = "bytes \<Rightarrow> bytes"

definition getOrDefault :: "env \<Rightarrow> bytes \<Rightarrow> bytes \<Rightarrow> bytes" where
  "getOrDefault getenv name fallback =
     (let v = trim_space (getenv name) in if v \<noteq> [] then v else fallback)"

text \<open>\<open>strconv.ParseBool\<close>\<close>

definition parse_bool :: "bytes \<Rightarrow> bool option" where
  "parse_bool v =
     (if v \<in> {''1'', ''t'', ''T'', ''TRUE'', ''true'', ''True''} then Some True
      else if v \<in> {''0'', ''f'', ''F'', ''FALSE'', ''false'', ''False''} then Some False
      else None)"

definition getBoolOrDefault :: "env \<Rightarrow> bytes \<Rightarrow> bool \<Rightarrow> bool" where
  "getBoolOrDefault getenv name fallback =
     (let v = trim_space (getenv name) in
      if v = [] then fallback
      else case parse_bool v of None \<Rightarrow> fallback | Some parsed \<Rightarrow> parsed)"

text \<open>\<open>getIntOrDefault\<close> and \<open>getInt64OrDefault\<close>: \<open>int\<close> is 64 bits wide on the supported targets.\<close>

definition getIntOrDefault :: "env \<Rightarrow> bytes \<Rightarrow> int \<Rightarrow> int" where
  "getIntOrDefault getenv name fallback =
     (let v = trim_space (getenv name) in
      if v = [] then fallback
      else case parse_int v of None \<Rightarrow> fallback | Some parsed \<Rightarrow> parsed)"

definition getInt64OrDefault :: "env \<Rightarrow> bytes \<Rightarrow> int \<Rightarrow> int" where
  "getInt64OrDefault getenv name fallback =
     (let v = trim_space (getenv name) in
      if v = [] then fallback
      else case parse_int v of None \<Rightarrow> fallback | Some parsed \<Rightarrow> parsed)"

definition parseLogLevel :: "bytes \<Rightarrow> log_level" where
  "parseLogLevel v =
     (let t = to_lower (trim_space v) in
      if t = ''debug'' then LevelDebug
      else if t = ''warn'' \<or> t = ''warning'' then LevelWarn
      else if t = ''error'' then LevelError
      else LevelInfo)"

text \<open>The loop of \<open>parseAuthUsersJSON\<close> over the decoded users, \<open>seen\<close> being its map's keys.\<close>

fun check_users :: "bytes list \<Rightarrow> auth_user list \<Rightarrow> config_error option" where
  "check_users seen [] = None"
| "check_users seen (u # us) =
     (if trim_space (Username u) = [] \<or> trim_space (Password u) = [] then Some EmptyCredential
      else if Username u \<in> set seen then Some DuplicateUsername
      else check_users (Username u # seen) us)"

definition parseAuthUsersJSON ::
  "(bytes \<Rightarrow> auth_user list option) \<Rightarrow> bytes \<Rightarrow> config_error + auth_user list" where
  "parseAuthUsersJSON unmarshal raw =
     (if trim_space raw = [] then Inl MissingAuthUsers
      else (case unmarshal raw of
              None \<Rightarrow> Inl InvalidAuthUsers
            | Some users \<Rightarrow>
                if users = [] then Inl NoAuthUsers
                else (case check_users [] users of
                        Some e \<Rightarrow> Inl e
                      | None \<Rightarrow> Inr users)))"

lemma check_users_None:
  "check_users seen us = None \<longleftrightarrow>
     (\<forall>u\<in>set us. trim_space (Username u) \<noteq> [] \<and> trim_space (Password u) \<noteq> [])
     \<and> distinct (map Username us) \<and> set (map Username us) \<inter> set seen = {}"
  by (induction us arbitrary: seen) auto

section \<open>Load\<close>

text \<open>The struct literal \<open>Load\<close> starts from; the pattern and the users are filled in later.\<close>

definition load_fields :: "env \<Rightarrow> config" where
  "load_fields getenv =
     \<lparr>SMTPBindAddr465 = getOrDefault getenv ''SMTP_BIND_ADDR_465'' '':465'',
      SMTPBindAddr587 = getOrDefault getenv ''SMTP_BIND_ADDR_587'' '':587'',
      SMTPRequireTLS587 = getBoolOrDefault getenv ''SMTP_REQUIRE_TLS_587'' True,
      SMTPMaxConnections = getIntOrDefault getenv ''SMTP_MAX_CONNECTIONS'' 200,
      SMTPMaxMessageBytes = getInt64OrDefault getenv ''SMTP_MAX_MESSAGE_BYTES'' (25 * 1024 * 1024),
      SMTPMaxRecipients = getIntOrDefault getenv ''SMTP_MAX_RECIPIENTS'' 100,
      SMTPMaxCommandsPerSession = getIntOrDefault getenv ''SMTP_MAX_COMMANDS_PER_SESSION'' 200,
      SMTPReadTimeoutSeconds = getIntOrDefault getenv ''SMTP_READ_TIMEOUT_SECONDS'' 30,
      SMTPWriteTimeoutSeconds = getIntOrDefault getenv ''SMTP_WRITE_TIMEOUT_SECONDS'' 30,
      SMTPIdleTimeoutSeconds = getIntOrDefault getenv ''SMTP_IDLE_TIMEOUT_SECONDS'' 120,
      SMTPAuthRateLimitPerMin = getIntOrDefault getenv ''SMTP_AUTH_RATE_LIMIT_PER_MIN'' 60,
      SMTPAuthLockoutSeconds = getIntOrDefault getenv ''SMTP_AUTH_LOCKOUT_SECONDS'' 300,
      SMTPHostname = getOrDefault getenv ''SMTP_HOSTNAME'' ''gmail-smtp-relay'',
      QueueDBPath = getOrDefault getenv ''QUEUE_DB_PATH'' ''./data/queue.db'',
      QueueMaxBacklog = getIntOrDefault getenv ''QUEUE_MAX_BACKLOG'' 10000,
      WorkerPollIntervalSeconds = getIntOrDefault getenv ''WORKER_POLL_INTERVAL_SECONDS'' 1,
      WorkerConcurrency = getIntOrDefault getenv ''WORKER_CONCURRENCY'' 4,
      WorkerMaxAttempts = getIntOrDefault getenv ''WORKER_MAX_ATTEMPTS'' 8,
      WorkerRetryBaseSeconds = getIntOrDefault getenv ''WORKER_RETRY_BASE_SECONDS'' 5,
      WorkerRetryMaxSeconds = getIntOrDefault getenv ''WORKER_RETRY_MAX_SECONDS'' 300,
      SendAsRefreshSeconds = getIntOrDefault getenv ''SENDAS_REFRESH_SECONDS'' 300,
      ObsHTTPAddr = getOrDefault getenv ''OBS_HTTP_ADDR'' ''127.0.0.1:8080'',
      ReadinessAliasMaxStaleSeconds = getIntOrDefault getenv ''READINESS_ALIAS_MAX_STALE_SECONDS'' 900,
      ProcessingStuckTimeoutSeconds = getIntOrDefault getenv ''PROCESSING_STUCK_TIMEOUT_SECONDS'' 900,
      AllowedSenderRegex = getenv ''ALLOWED_SENDER_REGEX'',
      AllowedSenderPattern = (\<lambda>_. False),
      AuthUsers = [],
      TLSCertFile = getenv ''TLS_CERT_FILE'',
      TLSKeyFile = getenv ''TLS_KEY_FILE'',
      GmailClientID = getenv ''GMAIL_CLIENT_ID'',
      GmailClientSecret = getenv ''GMAIL_CLIENT_SECRET'',
      GmailRefreshToken = getenv ''GMAIL_REFRESH_TOKEN'',
      GmailOAuthRedirectURI = getenv ''GMAIL_OAUTH_REDIRECT_URI'',
      GmailMailbox = getenv ''GMAIL_MAILBOX'',
      LogLevel = parseLogLevel (getOrDefault getenv ''LOG_LEVEL'' ''info'')\<rparr>"

text \<open>
  The map of required values. Go visits a map in an order it chooses at run time, so the
  order is a parameter of \<open>Load\<close>: it decides which missing variable the error names.
\<close>

definition required_values :: "config \<Rightarrow> (bytes \<times> bytes) list" where
  "required_values cfg =
     [(''GMAIL_CLIENT_ID'', GmailClientID cfg),
      (''GMAIL_CLIENT_SECRET'', GmailClientSecret cfg),
      (''GMAIL_REFRESH_TOKEN'', GmailRefreshToken cfg),
      (''GMAIL_MAILBOX'', GmailMailbox cfg),
      (''TLS_CERT_FILE'', TLSCertFile cfg),
      (''TLS_KEY_FILE'', TLSKeyFile cfg)]"

fun first_missing :: "(bytes \<times> bytes) list \<Rightarrow> bytes option" where
  "first_missing [] = None"
| "first_missing ((name, v) # rest) = (if trim_space v = [] then Some name else first_missing rest)"

text \<open>The chain of range checks at the end of \<open>Load\<close>.\<close>

definition validate_config :: "config \<Rightarrow> config_error option" where
  "validate_config cfg =
     (if SMTPMaxConnections cfg \<le> 0 \<or> SMTPMaxMessageBytes cfg \<le> 0 \<or> SMTPMaxRecipients cfg \<le> 0
         \<or> SMTPMaxCommandsPerSession cfg \<le> 0 then Some BadSMTPLimits
      else if SMTPReadTimeoutSeconds cfg \<le> 0 \<or> SMTPWriteTimeoutSeconds cfg \<le> 0
         \<or> SMTPIdleTimeoutSeconds cfg \<le> 0 then Some BadSMTPTimeouts
      else if SMTPAuthRateLimitPerMin cfg \<le> 0 \<or> SMTPAuthLockoutSeconds cfg \<le> 0
         then Some BadAuthProtection
      else if trim_space (QueueDBPath cfg) = [] \<or> QueueMaxBacklog cfg \<le> 0 then Some BadQueueConfig
      else if WorkerPollIntervalSeconds cfg \<le> 0 \<or> WorkerConcurrency cfg \<le> 0
         \<or> WorkerMaxAttempts cfg \<le> 0 \<or> WorkerRetryBaseSeconds cfg \<le> 0
         \<or> WorkerRetryMaxSeconds cfg \<le> 0 then Some BadWorkerConfig
      else if WorkerRetryMaxSeconds cfg < WorkerRetryBaseSeconds cfg then Some BadRetryBounds
      else if SendAsRefreshSeconds cfg \<le> 0 then Some BadSendAsRefresh
      else if trim_space (ObsHTTPAddr cfg) = [] then Some BadObsAddr
      else if ReadinessAliasMaxStaleSeconds cfg \<le> 0 then Some BadAliasStale
      else if ProcessingStuckTimeoutSeconds cfg \<le> 0 then Some BadStuckTimeout
      else None)"

definition Load ::
  "(bytes \<Rightarrow> auth_user list option) \<Rightarrow> (bytes \<Rightarrow> (bytes \<Rightarrow> bool) option)
   \<Rightarrow> ((bytes \<times> bytes) list \<Rightarrow> (bytes \<times> bytes) list) \<Rightarrow> env \<Rightarrow> config_error + config" where
  "Load unmarshal compile map_order getenv =
     (let cfg = load_fields getenv in
      (case parseAuthUsersJSON unmarshal (getenv ''SMTP_AUTH_USERS_JSON'') of
         Inl e \<Rightarrow> Inl e
       | Inr users \<Rightarrow>
           (let cfg = cfg\<lparr>AuthUsers := users\<rparr> in
            if AllowedSenderRegex cfg = [] then Inl MissingSenderRegex
            else (case compile (AllowedSenderRegex cfg) of
                    None \<Rightarrow> Inl InvalidSenderRegex
                  | Some re \<Rightarrow>
                      (let cfg = cfg\<lparr>AllowedSenderPattern := re\<rparr> in
                       (case first_missing (map_order (required_values cfg)) of
                          Some name \<Rightarrow> Inl (MissingRequired name)
                        | None \<Rightarrow>
                            (case validate_config cfg of
                               Some e \<Rightarrow> Inl e
                             | None \<Rightarrow> Inr cfg)))))))"

lemma first_missing_None: "first_missing ps = None \<longleftrightarrow> (\<forall>(n, v)\<in>set ps. trim_space v \<noteq> [])"
  by (induction ps rule: first_missing.induct) auto

section \<open>What a loaded configuration satisfies\<close>

definition limits_ok :: "config \<Rightarrow> bool" where
  "limits_ok cfg \<longleftrightarrow>
     0 < SMTPMaxConnections cfg \<and> 0 < SMTPMaxMessageBytes cfg \<and> 0 < SMTPMaxRecipients cfg
     \<and> 0 < SMTPMaxCommandsPerSession cfg \<and> 0 < SMTPReadTimeoutSeconds cfg
     \<and> 0 < SMTPWriteTimeoutSeconds cfg \<and> 0 < SMTPIdleTimeoutSeconds cfg
     \<and> 0 < SMTPAuthRateLimitPerMin cfg \<and> 0 < SMTPAuthLockoutSeconds cfg
     \<and> trim_space (QueueDBPath cfg) \<noteq> [] \<and> 0 < QueueMaxBacklog cfg
     \<and> 0 < WorkerPollIntervalSeconds cfg \<and> 0 < WorkerConcurrency cfg \<and> 0 < WorkerMaxAttempts cfg
     \<and> 0 < WorkerRetryBaseSeconds cfg \<and> WorkerRetryBaseSeconds cfg \<le> WorkerRetryMaxSeconds cfg
     \<and> 0 < SendAsRefreshSeconds cfg \<and> trim_space (ObsHTTPAddr cfg) \<noteq> []
     \<and> 0 < ReadinessAliasMaxStaleSeconds cfg \<and> 0 < ProcessingStuckTimeoutSeconds cfg"

definition users_ok :: "auth_user list \<Rightarrow> bool" where
  "users_ok us \<longleftrightarrow>
     us \<noteq> [] \<and> distinct (map Username us)
     \<and> (\<forall>u\<in>set us. trim_space (Username u) \<noteq> [] \<and> trim_space (Password u) \<noteq> [])"

definition required_ok :: "config \<Rightarrow> bool" where
  "required_ok cfg \<longleftrightarrow> (\<forall>(n, v)\<in>set (required_values cfg). trim_space v \<noteq> [])"

lemma validate_config_None: "validate_config cfg = None \<longleftrightarrow> limits_ok cfg"
  unfolding validate_config_def limits_ok_def by (simp add: not_less not_le)

lemma parseAuthUsersJSON_Inr:
  "parseAuthUsersJSON unmarshal raw = Inr us \<longleftrightarrow>
     trim_space raw \<noteq> [] \<and> unmarshal raw = Some us \<and> users_ok us"
  using check_users_None [of "[]" us]
  by (auto simp: parseAuthUsersJSON_def users_ok_def split: option.splits)

lemma users_ok_unique:
  assumes "users_ok us" and "u \<in> set us" and "v \<in> set us" and "Username u = Username v"
  shows "u = v"
  using assms by (auto simp: users_ok_def distinct_map dest: inj_onD)

end
