(* ===== verification/Auth_Limit.thy ===== *)
theory Auth_Limit
  imports Config "HOL-Library.AList"
begin

text \<open>
  The authentication throttle of internal/smtp/server.go: the map \<open>authState\<close> from keys
  (\<open>user:\<close> and a name, \<open>ip:\<close> and an address) to attempt counters, and the three operations
  on it. The mutex makes each of them atomic.
\<close>

record authControl =
  WindowStart :: time
  Attempts :: int
  LockedUntil :: time

type_synonym auth_state = "bytes \<rightharpoonup> authControl"

definition zero_control :: authControl where
  "zero_control = \<lparr>WindowStart = 0, Attempts = 0, LockedUntil = 0\<rparr>"

text \<open>
  \<open>authBlocked\<close>: whether the key is locked out at \<open>now\<close>, and for how many whole seconds,
  at least 1. (\<open>int(d.Seconds())\<close> drops the fraction of a second.)
\<close>

definition authBlocked :: "auth_state \<Rightarrow> bytes \<Rightarrow> time \<Rightarrow> bool \<times> int" where
  "authBlocked m key now =
     (case m key of
        None \<Rightarrow> (False, 0)
      | Some st \<Rightarrow>
          if now < LockedUntil st then
            (let wait = (LockedUntil st - now) div second in (True, if wait < 1 then 1 else wait))
          else (False, 0))"

definition recordAuthFailureKey :: "config \<Rightarrow> auth_state \<Rightarrow> bytes \<Rightarrow> time \<Rightarrow> auth_state" where
  "recordAuthFailureKey cfg m key now =
     (let st = (case m key of None \<Rightarrow> zero_control | Some st \<Rightarrow> st) in
      if now < LockedUntil st then m
      else
        let st = (if WindowStart st = 0 \<or> minute \<le> now - WindowStart st
                  then st\<lparr>WindowStart := now, Attempts := 0\<rparr> else st);
            st = st\<lparr>Attempts := Attempts st + 1\<rparr>;
            st = (if SMTPAuthRateLimitPerMin cfg \<le> Attempts st
                  then st\<lparr>LockedUntil := now + dur_seconds (SMTPAuthLockoutSeconds cfg), Attempts := 0\<rparr>
                  else st)
        in m(key \<mapsto> st))"

definition user_key :: "bytes \<Rightarrow> bytes" where
  "user_key u = ''user:'' @ u"

definition ip_key :: "bytes \<Rightarrow> bytes" where
  "ip_key ip = ''ip:'' @ ip"

definition recordAuthFailure :: "config \<Rightarrow> auth_state \<Rightarrow> bytes \<Rightarrow> bytes \<Rightarrow> time \<Rightarrow> auth_state" where
  "recordAuthFailure cfg m username ip now =
     (let m = recordAuthFailureKey cfg m (user_key username) now in
      if ip \<noteq> [] then recordAuthFailureKey cfg m (ip_key ip) now else m)"

definition clearAuthState :: "auth_state \<Rightarrow> bytes \<Rightarrow> auth_state" where
  "clearAuthState m key = m(key := None)"

section \<open>Keys\<close>

lemma user_key_inject [simp]: "user_key u = user_key v \<longleftrightarrow> u = v"
  by (simp add: user_key_def)

lemma ip_key_inject [simp]: "ip_key a = ip_key b \<longleftrightarrow> a = b"
  by (simp add: ip_key_def)

lemma user_key_neq_ip_key [simp]: "user_key u \<noteq> ip_key a" "ip_key a \<noteq> user_key u"
  by (simp_all add: user_key_def ip_key_def)

section \<open>The operations as a throttle\<close>

text \<open>A run of recorded failures, oldest first.\<close>

primrec failing :: "('m \<Rightarrow> 'k \<Rightarrow> time \<Rightarrow> 'm) \<Rightarrow> 'm \<Rightarrow> ('k \<times> time) list \<Rightarrow> 'm" where
  "failing fail m [] = m"
| "failing fail m (e # es) = failing fail (fail m (fst e) (snd e)) es"

text \<open>
  What a client of a throttle relies on: an operation on one key leaves every other key's
  verdict alone, a locked key stays locked whatever is recorded until its lock runs out, and
  clearing a key unlocks it.
\<close>

locale throttle =
  fixes blocked :: "'m \<Rightarrow> 'k \<Rightarrow> time \<Rightarrow> bool"
    and fail :: "'m \<Rightarrow> 'k \<Rightarrow> time \<Rightarrow> 'm"
    and clear :: "'m \<Rightarrow> 'k \<Rightarrow> 'm"
  assumes fail_other: "k \<noteq> k' \<Longrightarrow> blocked (fail m k now) k' t = blocked m k' t"
    and clear_other: "k \<noteq> k' \<Longrightarrow> blocked (clear m k) k' t = blocked m k' t"
    and clear_self: "\<not> blocked (clear m k) k t"
    and fail_blocked: "blocked m k now \<Longrightarrow> fail m k now = m"
    and blocked_until: "blocked m k t \<Longrightarrow> t' \<le> t \<Longrightarrow> blocked m k t'"
begin

lemma fails_other: "\<forall>e\<in>set es. fst e \<noteq> k \<Longrightarrow> blocked (failing fail m es) k t = blocked m k t"
  by (induction es arbitrary: m) (auto simp: fail_other)

text \<open>
  Failures recorded while a key is locked, on whatever keys, never unlock it early: a lock
  is a promise.
\<close>

lemma lock_holds:
  assumes "blocked m k t" and "\<forall>e\<in>set es. snd e \<le> t"
  shows "blocked (failing fail m es) k t"
  using assms
proof (induction es arbitrary: m)
  case (Cons e es)
  have "blocked (fail m (fst e) (snd e)) k t"
  proof (cases "fst e = k")
    case True
    with Cons.prems show ?thesis using fail_blocked blocked_until by fastforce
  next
    case False
    with Cons.prems show ?thesis by (simp add: fail_other)
  qed
  with Cons show ?case by simp
qed simp

end

lemma fst_authBlocked:
  "fst (authBlocked m k now) \<longleftrightarrow> (\<exists>st. m k = Some st \<and> now < LockedUntil st)"
  by (simp add: authBlocked_def Let_def split: option.splits)

lemma recordAuthFailureKey_other:
  "k \<noteq> k' \<Longrightarrow> recordAuthFailureKey cfg m k now k' = m k'"
  by (simp add: recordAuthFailureKey_def Let_def)

lemma recordAuthFailureKey_locked:
  "fst (authBlocked m k now) \<Longrightarrow> recordAuthFailureKey cfg m k now = m"
  by (auto simp: recordAuthFailureKey_def fst_authBlocked)

interpretation limiter: throttle
  "\<lambda>m k now. fst (authBlocked m k now)" "recordAuthFailureKey cfg" clearAuthState
  for cfg
  by unfold_locales
    (auto simp: fst_authBlocked recordAuthFailureKey_other recordAuthFailureKey_locked clearAuthState_def)

section \<open>Counting failures\<close>

text \<open>
  The state of a key during a run of failures: fewer attempts than the limit, no lock that
  outlives the lockout from the last failure.
\<close>

definition control_ok :: "config \<Rightarrow> time \<Rightarrow> authControl \<Rightarrow> bool" where
  "control_ok cfg now st \<longleftrightarrow>
     0 \<le> Attempts st \<and> Attempts st < SMTPAuthRateLimitPerMin cfg
     \<and> WindowStart st \<le> now \<and> LockedUntil st \<le> now + dur_seconds (SMTPAuthLockoutSeconds cfg)"

definition auth_ok :: "config \<Rightarrow> time \<Rightarrow> auth_state \<Rightarrow> bool" where
  "auth_ok cfg now m \<longleftrightarrow> (\<forall>k st. m k = Some st \<longrightarrow> control_ok cfg now st)"

lemma auth_ok_empty [simp]: "auth_ok cfg now Map.empty"
  by (simp add: auth_ok_def)

lemma auth_ok_later: "auth_ok cfg now m \<Longrightarrow> now \<le> later \<Longrightarrow> auth_ok cfg later m"
  by (fastforce simp: auth_ok_def control_ok_def)

lemma auth_ok_clear: "auth_ok cfg now m \<Longrightarrow> auth_ok cfg now (clearAuthState m k)"
  by (auto simp: auth_ok_def clearAuthState_def)

lemma auth_ok_record:
  assumes "0 < SMTPAuthRateLimitPerMin cfg" and "0 \<le> dur_seconds (SMTPAuthLockoutSeconds cfg)"
    and "0 \<le> now" and "auth_ok cfg now m"
  shows "auth_ok cfg now (recordAuthFailureKey cfg m k now)"
  using assms
  by (auto simp: auth_ok_def control_ok_def recordAuthFailureKey_def zero_control_def Let_def
      split: option.splits)

lemma auth_ok_recordAuthFailure:
  assumes "0 < SMTPAuthRateLimitPerMin cfg" and "0 \<le> dur_seconds (SMTPAuthLockoutSeconds cfg)"
    and "0 \<le> now" and "auth_ok cfg now m"
  shows "auth_ok cfg now (recordAuthFailure cfg m u ip now)"
  using assms by (simp add: recordAuthFailure_def Let_def auth_ok_record)

end
