(* ===== verification/Timestamps.thy ===== *)
theory Timestamps
  imports Go_Strings
begin

text \<open>
  The text form of times in the queue database: \<open>t.Format(time.RFC3339Nano)\<close> in UTC, and
  \<open>time.Parse\<close> on such text. The queue compares these texts as SQLite compares TEXT, byte by
  byte, so what the order of texts says about the order of times matters.

  A time is a number of nanoseconds since 0001-01-01T00:00:00Z; its date is that of the
  proleptic Gregorian calendar, as in Go.
\<close>

section \<open>Civil dates\<close>

definition leap :: "int \<Rightarrow> bool" where
  "leap y \<longleftrightarrow> y mod 4 = 0 \<and> (y mod 100 \<noteq> 0 \<or> y mod 400 = 0)"

definition year_len :: "int \<Rightarrow> int" where
  "year_len y = (if leap y then 366 else 365)"

definition month_len :: "int \<Rightarrow> int \<Rightarrow> int" where
  "month_len y m =
     (if m = 2 then (if leap y then 29 else 28)
      else if m = 4 \<or> m = 6 \<or> m = 9 \<or> m = 11 then 30 else 31)"

text \<open>
  Walk through consecutive units \<open>k\<close>, \<open>k + 1\<close>, ... of lengths \<open>L k\<close>, \<open>L (k + 1)\<close>, ... to the
  unit that holds day \<open>n\<close> (counted from 0), and the day inside it.
\<close>

function walk :: "(int \<Rightarrow> int) \<Rightarrow> int \<Rightarrow> int \<Rightarrow> int \<times> int" where
  "walk L k n = (if L k \<le> 0 \<or> n < L k then (k, n) else walk L (k + 1) (n - L k))"
  by pat_completeness auto
termination
  by (relation "measure (\<lambda>(L, k, n). nat n)") auto

declare walk.simps [simp del]

definition civil_year :: "int \<Rightarrow> int \<times> int" where
  "civil_year n = (let (k, d) = walk year_len 1 (n mod 146097) in (400 * (n div 146097) + k, d))"

definition civil :: "int \<Rightarrow> int \<times> int \<times> int" where
  "civil n = (let (y, d) = civil_year n; (m, r) = walk (month_len y) 1 d in (y, m, r + 1))"

text \<open>The total length of \<open>j\<close> units from \<open>k\<close>.\<close>

fun span :: "(int \<Rightarrow> int) \<Rightarrow> int \<Rightarrow> nat \<Rightarrow> int" where
  "span L k 0 = 0"
| "span L k (Suc j) = L k + span L (k + 1) j"

definition positive :: "(int \<Rightarrow> int) \<Rightarrow> bool" where
  "positive L \<longleftrightarrow> (\<forall>k. 0 < L k)"

lemma positive_year_len [simp]: "positive year_len"
  by (simp add: positive_def year_len_def)

lemma positive_month_len [simp]: "positive (month_len y)"
  by (simp add: positive_def month_len_def)

lemma walk_ge: "k \<le> fst (walk L k n)"
proof (induction L k n rule: walk.induct)
  case (1 L k n)
  then show ?case
    by (cases "L k \<le> 0 \<or> n < L k") (auto simp: walk.simps [of L k n])
qed

text \<open>A later day is in a later unit, or later in the same unit.\<close>

lemma walk_mono:
  assumes "positive L" and "n < n'"
  shows "fst (walk L k n) < fst (walk L k n')
    \<or> fst (walk L k n) = fst (walk L k n') \<and> snd (walk L k n) < snd (walk L k n')"
  using assms
proof (induction L k n' arbitrary: n rule: walk.induct)
  case (1 L k n')
  have pos: "\<not> L k \<le> 0" using "1.prems"(1) by (simp add: positive_def not_le)
  show ?case
  proof (cases "n' < L k")
    case True
    with "1.prems"(2) show ?thesis by (simp add: walk.simps [of L k])
  next
    case big: False
    show ?thesis
    proof (cases "n < L k")
      case True
      with big pos show ?thesis
        using walk_ge [of "k + 1" L "n' - L k"] by (simp add: walk.simps [of L k])
    next
      case False
      then have "n - L k < n' - L k" using "1.prems"(2) by simp
      then show ?thesis
        using "1.IH" [of "n - L k"] "1.prems"(1) pos big False
        by (simp add: walk.simps [of L k n] walk.simps [of L k n'])
    qed
  qed
qed

lemma walk_bounds:
  assumes "positive L" and "0 \<le> n" and "n < span L k j"
  shows "fst (walk L k n) < k + int j \<and> 0 \<le> snd (walk L k n)
    \<and> snd (walk L k n) < L (fst (walk L k n))"
  using assms
proof (induction j arbitrary: k n)
  case (Suc j)
  have pos: "\<not> L k \<le> 0" using Suc.prems(1) by (simp add: positive_def not_le)
  show ?case
  proof (cases "n < L k")
    case True
    with Suc.prems show ?thesis by (simp add: walk.simps [of L k])
  next
    case False
    with Suc.prems have "0 \<le> n - L k" "n - L k < span L (k + 1) j" by simp_all
    from Suc.IH [OF Suc.prems(1) this] show ?thesis
      using False pos by (simp add: walk.simps [of L k n])
  qed
qed simp

text \<open>The day is the length of the units before it plus the day inside its unit.\<close>

lemma span_walk:
  assumes "positive L"
  shows "span L k (nat (fst (walk L k n) - k)) + snd (walk L k n) = n"
  using assms
proof (induction L k n rule: walk.induct)
  case (1 L k n)
  have pos: "\<not> L k \<le> 0" using "1.prems"(1) by (simp add: positive_def not_le)
  show ?case
  proof (cases "n < L k")
    case True
    then show ?thesis by (simp add: walk.simps [of L k n])
  next
    case False
    have "nat (fst (walk L (k + 1) (n - L k)) - k)
        = Suc (nat (fst (walk L (k + 1) (n - L k)) - (k + 1)))"
      using walk_ge [of "k + 1" L "n - L k"] by simp
    with False pos 1 show ?thesis by (simp add: walk.simps [of L k n])
  qed
qed

lemma span_year_400: "span year_len 1 400 = 146097"
  by code_simp

lemma span_year_399: "span year_len 1 399 = 145731"
  by code_simp

lemma span_month_12: "span (month_len y) 1 12 = year_len y"
  by (simp add: eval_nat_numeral month_len_def year_len_def)

lemma year_len_cycle: "year_len (400 * q + k) = year_len k"
proof -
  have "(400 * q + k) mod 4 = k mod 4" "(400 * q + k) mod 100 = k mod 100"
    "(400 * q + k) mod 400 = k mod 400"
    using mod_mult_self1 [of k "100 * q" 4] mod_mult_self1 [of k "4 * q" 100]
      mod_mult_self1 [of k q 400]
    by (simp_all add: add.commute mult.commute)
  then show ?thesis by (simp only: year_len_def leap_def)
qed

text \<open>The ranges of a date's parts.\<close>

lemma civil_year_range:
  assumes "0 \<le> n" and "n < 3652059" and "civil_year n = (y, d)"
  shows "1 \<le> y \<and> y \<le> 9999 \<and> 0 \<le> d \<and> d < year_len y"
proof -
  obtain k r where w: "walk year_len 1 (n mod 146097) = (k, r)" by fastforce
  with assms(3) have y: "y = 400 * (n div 146097) + k" and d: "d = r"
    by (auto simp: civil_year_def)
  have m: "0 \<le> n mod 146097" "n mod 146097 < 146097" by simp_all
  then have k: "k < 401" "0 \<le> r" "r < year_len k"
    using walk_bounds [of year_len "n mod 146097" 1 400] w by (simp_all add: span_year_400)
  have "1 \<le> k" using walk_ge [of 1 year_len "n mod 146097"] w by simp
  have len: "year_len y = year_len k" by (simp add: y year_len_cycle)
  have "0 \<le> n div 146097" using assms(1) by simp
  moreover have "y \<le> 9999"
  proof (cases "n div 146097 \<le> 23")
    case True
    with k y show ?thesis by linarith
  next
    case False
    have "n div 146097 \<le> 24" using assms(2) by linarith
    with False have q: "n div 146097 = 24" by linarith
    have "146097 * (n div 146097) + n mod 146097 = n" by simp
    with q assms(2) have "n mod 146097 < 145731" by linarith
    then have "k < 400"
      using walk_bounds [of year_len "n mod 146097" 1 399] w m by (simp add: span_year_399)
    with q y show ?thesis by linarith
  qed
  ultimately show ?thesis using \<open>1 \<le> k\<close> k y d len by simp
qed

lemma civil_range:
  assumes "0 \<le> n" and "n < 3652059" and "civil n = (y, m, d)"
  shows "1 \<le> y \<and> y \<le> 9999 \<and> 1 \<le> m \<and> m \<le> 12 \<and> 1 \<le> d \<and> d \<le> month_len y m"
proof -
  obtain r where cy: "civil_year n = (y, r)" and w: "walk (month_len y) 1 r = (m, d - 1)"
    using assms(3) by (auto simp: civil_def split: prod.splits)
  from civil_year_range [OF assms(1,2) cy] have *: "1 \<le> y" "y \<le> 9999" "0 \<le> r" "r < year_len y"
    by simp_all
  then have "fst (walk (month_len y) 1 r) < 13 \<and> 0 \<le> snd (walk (month_len y) 1 r)
      \<and> snd (walk (month_len y) 1 r) < month_len y (fst (walk (month_len y) 1 r))"
    using walk_bounds [of "month_len y" r 1 12] by (simp add: span_month_12)
  moreover have "1 \<le> m" using walk_ge [of 1 "month_len y" r] w by simp
  ultimately show ?thesis using * w by simp
qed

lemma month_len_le: "month_len y m \<le> 31"
  by (simp add: month_len_def)

text \<open>Dates grow with the day, part by part.\<close>

lemma civil_year_mono:
  assumes "0 \<le> n" and "n < n'"
  shows "fst (civil_year n) < fst (civil_year n')
    \<or> fst (civil_year n) = fst (civil_year n') \<and> snd (civil_year n) < snd (civil_year n')"
proof -
  have "n div 146097 \<le> n' div 146097" using assms(2) by (simp add: zdiv_mono1)
  then consider "n div 146097 = n' div 146097" | "n div 146097 + 1 \<le> n' div 146097" by linarith
  then show ?thesis
  proof cases
    case 1
    then have "n mod 146097 < n' mod 146097"
      using assms(2) by (metis add_less_cancel_left mult_div_mod_eq)
    from walk_mono [OF positive_year_len this, of 1] 1 show ?thesis
      by (auto simp: civil_year_def split: prod.splits)
  next
    case 2
    have "fst (walk year_len 1 (n mod 146097)) < 401"
      using walk_bounds [of year_len "n mod 146097" 1 400] by (simp add: span_year_400)
    moreover have "1 \<le> fst (walk year_len 1 (n' mod 146097))" by (rule walk_ge)
    ultimately show ?thesis using 2 by (auto simp: civil_year_def split: prod.splits)
  qed
qed

lemma civil_mono:
  assumes "0 \<le> n" and "n < n'" and "civil n = (y, m, d)" and "civil n' = (y', m', d')"
  shows "y < y' \<or> y = y' \<and> (m < m' \<or> m = m' \<and> d < d')"
proof -
  obtain r where r: "civil_year n = (y, r)" "walk (month_len y) 1 r = (m, d - 1)"
    using assms(3) by (auto simp: civil_def split: prod.splits)
  obtain r' where r': "civil_year n' = (y', r')" "walk (month_len y') 1 r' = (m', d' - 1)"
    using assms(4) by (auto simp: civil_def split: prod.splits)
  from civil_year_mono [OF assms(1,2)] r r' have "y < y' \<or> y = y' \<and> r < r'" by simp
  moreover have "y = y' \<Longrightarrow> r < r' \<Longrightarrow> m < m' \<or> m = m' \<and> d < d'"
    using walk_mono [OF positive_month_len, of r r' y 1] r r' by auto
  ultimately show ?thesis by blast
qed

section \<open>RFC3339Nano text\<close>

text \<open>\<open>n\<close> in \<open>w\<close> decimal digits, with leading zeros.\<close>

fun pad :: "nat \<Rightarrow> int \<Rightarrow> bytes" where
  "pad 0 n = []"
| "pad (Suc w) n = pad w (n div 10) @ [digit_char (nat (n mod 10))]"

definition clock_text :: "int \<Rightarrow> bytes" where
  "clock_text s = pad 2 (s div 3600) @ '':'' @ pad 2 (s div 60 mod 60) @ '':'' @ pad 2 (s mod 60)"

definition date_text :: "int \<Rightarrow> bytes" where
  "date_text n = (let (y, m, d) = civil n in pad 4 y @ ''-'' @ pad 2 m @ ''-'' @ pad 2 d)"

text \<open>The text of a whole second, of fixed width.\<close>

definition second_text :: "int \<Rightarrow> bytes" where
  "second_text s = date_text (s div 86400) @ ''T'' @ clock_text (s mod 86400)"

text \<open>The fraction of a second, its trailing zeros dropped.\<close>

definition frac_text :: "int \<Rightarrow> bytes" where
  "frac_text ns =
     (if ns = 0 then []
      else CHR ''.'' # rev (dropWhile (\<lambda>c. c = CHR ''0'') (rev (pad 9 ns))))"

text \<open>\<open>t.UTC().Format(time.RFC3339Nano)\<close>\<close>

definition RFC3339Nano :: "time \<Rightarrow> bytes" where
  "RFC3339Nano t = second_text (t div second) @ frac_text (t mod second) @ ''Z''"

text \<open>The times of the years 1 to 9999, whose text has the fixed width.\<close>

definition valid_time :: "time \<Rightarrow> bool" where
  "valid_time t \<longleftrightarrow> 0 \<le> t \<and> t < 315537897600 * second"

section \<open>The order of the texts\<close>

lemma list_less_append_same [simp]:
  fixes xs :: "'a :: linorder list"
  shows "xs @ ys < xs @ zs \<longleftrightarrow> ys < zs"
  by (induction xs) auto

lemma list_less_append_same_length:
  fixes xs :: "'a :: linorder list"
  assumes "length xs = length ys" and "xs < ys"
  shows "xs @ us < ys @ vs"
  using assms by (induction xs ys rule: list_induct2) auto

lemma length_pad [simp]: "length (pad w n) = w"
  by (induction w arbitrary: n) auto

text \<open>Comparing two numbers is comparing quotients, then remainders.\<close>

lemma div_mod_less:
  fixes a b k :: int
  assumes "a < b" and "0 < k"
  shows "a div k < b div k \<or> a div k = b div k \<and> a mod k < b mod k"
proof -
  have "a div k \<le> b div k" using assms by (simp add: zdiv_mono1)
  moreover have "a mod k < b mod k" if "a div k = b div k"
    using that assms(1) by (metis add_less_cancel_left mult_div_mod_eq)
  ultimately show ?thesis by linarith
qed

lemma digit_char_less: "a < b \<Longrightarrow> b < 10 \<Longrightarrow> digit_char a < digit_char b"
  by (simp add: digit_char_def less_char_def)

lemma pad_mono: "0 \<le> a \<Longrightarrow> a < b \<Longrightarrow> b < 10 ^ w \<Longrightarrow> pad w a < pad w b"
proof (induction w arbitrary: a b)
  case (Suc w)
  have b: "b div 10 < 10 ^ w" using Suc.prems by (simp add: div_less_iff_less_mult mult.commute)
  have "a div 10 \<le> b div 10" using Suc.prems by (simp add: zdiv_mono1)
  then consider "a div 10 < b div 10" | "a div 10 = b div 10" by linarith
  then show ?case
  proof cases
    case 1
    with Suc.IH [of "a div 10" "b div 10"] Suc.prems b
    have "pad w (a div 10) < pad w (b div 10)" by simp
    then show ?thesis by (simp add: list_less_append_same_length)
  next
    case 2
    then have "a mod 10 < b mod 10" using Suc.prems by (metis add_less_cancel_left mult_div_mod_eq)
    then have "digit_char (nat (a mod 10)) < digit_char (nat (b mod 10))"
      by (intro digit_char_less) auto
    with 2 show ?thesis by simp
  qed
qed simp

lemma length_date_text [simp]: "length (date_text n) = 10"
  by (simp add: date_text_def split: prod.split)

lemma length_clock_text [simp]: "length (clock_text n) = 8"
  by (simp add: clock_text_def)

lemma length_second_text [simp]: "length (second_text s) = 19"
  by (simp add: second_text_def)

text \<open>Fields compared first to last: the first field that differs decides.\<close>

lemma field_less:
  assumes "length a = length b" and "a < b \<or> a = b \<and> r < (s :: bytes)"
  shows "a @ r < b @ s"
  using assms list_less_append_same_length by auto

lemma fields3_less:
  assumes "length a = length a'" and "length b = length b'"
    and "a < a' \<or> a = a' \<and> (b < b' \<or> b = b' \<and> c < (c' :: bytes))"
  shows "a @ s @ b @ s @ c < a' @ s @ b' @ s @ c'"
  using assms by (auto intro: list_less_append_same_length)

lemma date_text_mono:
  assumes "0 \<le> n" and "n < n'" and "n' < 3652059"
  shows "date_text n < date_text n'"
proof -
  obtain y m d where c: "civil n = (y, m, d)" by (metis prod_cases3)
  obtain y' m' d' where c': "civil n' = (y', m', d')" by (metis prod_cases3)
  have r: "1 \<le> y \<and> y \<le> 9999 \<and> 1 \<le> m \<and> m \<le> 12 \<and> 1 \<le> d \<and> d \<le> month_len y m"
    using civil_range [OF assms(1) _ c] assms by simp
  have r': "1 \<le> y' \<and> y' \<le> 9999 \<and> 1 \<le> m' \<and> m' \<le> 12 \<and> 1 \<le> d' \<and> d' \<le> month_len y' m'"
    using civil_range [OF _ assms(3) c'] assms by simp
  have "d' < 100" using r' month_len_le [of y' m'] by linarith
  then have "pad 4 y < pad 4 y' \<or> y = y' \<and> (pad 2 m < pad 2 m' \<or> m = m' \<and> pad 2 d < pad 2 d')"
    using civil_mono [OF assms(1,2) c c'] r r' by (auto intro!: pad_mono)
  then have "pad 4 y @ ''-'' @ pad 2 m @ ''-'' @ pad 2 d
      < pad 4 y' @ ''-'' @ pad 2 m' @ ''-'' @ pad 2 d'"
    by (intro fields3_less) auto
  then show ?thesis by (simp add: date_text_def c c')
qed

lemma clock_text_mono:
  assumes "0 \<le> s" and "s < s'" and "s' < 86400"
  shows "clock_text s < clock_text s'"
proof -
  have h: "t div 3600 = t div 60 div 60" for t :: int
    using zdiv_zmult2_eq [of 60 t 60] by simp
  have "s div 3600 < s' div 3600 \<or> s div 3600 = s' div 3600 \<and>
     (s div 60 mod 60 < s' div 60 mod 60 \<or> s div 60 mod 60 = s' div 60 mod 60 \<and> s mod 60 < s' mod 60)"
    using div_mod_less [of s s' 60] div_mod_less [of "s div 60" "s' div 60" 60] assms(2)
    unfolding h by (metis mult_div_mod_eq zero_less_numeral)
  moreover have "s div 3600 < s' div 3600 \<Longrightarrow> pad 2 (s div 3600) < pad 2 (s' div 3600)"
    by (rule pad_mono) (use assms in simp_all)
  moreover have "s div 60 mod 60 < s' div 60 mod 60
      \<Longrightarrow> pad 2 (s div 60 mod 60) < pad 2 (s' div 60 mod 60)"
    by (rule pad_mono) (simp_all add: order_less_trans [OF pos_mod_bound])
  moreover have "s mod 60 < s' mod 60 \<Longrightarrow> pad 2 (s mod 60) < pad 2 (s' mod 60)"
    by (rule pad_mono) (simp_all add: order_less_trans [OF pos_mod_bound])
  ultimately have "pad 2 (s div 3600) < pad 2 (s' div 3600)
      \<or> pad 2 (s div 3600) = pad 2 (s' div 3600) \<and>
     (pad 2 (s div 60 mod 60) < pad 2 (s' div 60 mod 60)
      \<or> pad 2 (s div 60 mod 60) = pad 2 (s' div 60 mod 60) \<and>
      pad 2 (s mod 60) < pad 2 (s' mod 60))"
    by metis
  then show ?thesis
    unfolding clock_text_def by (intro fields3_less length_pad [THEN trans] length_pad [symmetric])
qed

lemma second_text_mono:
  assumes "0 \<le> s" and "s < s'" and "s' < 315537897600"
  shows "second_text s < second_text s'"
proof -
  have "s div 86400 < s' div 86400 \<or> s div 86400 = s' div 86400 \<and> s mod 86400 < s' mod 86400"
    using assms(2) by (rule div_mod_less) simp
  moreover have "0 \<le> s div 86400" "s' div 86400 < 3652059" using assms by simp_all
  moreover have "s mod 86400 < s' mod 86400 \<Longrightarrow> clock_text (s mod 86400) < clock_text (s' mod 86400)"
    by (rule clock_text_mono) simp_all
  ultimately have "date_text (s div 86400) < date_text (s' div 86400)
      \<or> date_text (s div 86400) = date_text (s' div 86400)
        \<and> clock_text (s mod 86400) < clock_text (s' mod 86400)"
    using date_text_mono by metis
  then have "date_text (s div 86400) @ ''T'' @ clock_text (s mod 86400)
      < date_text (s' div 86400) @ ''T'' @ clock_text (s' mod 86400)"
    by (intro field_less) (simp_all only: length_date_text list_less_append_same)
  then show ?thesis by (simp only: second_text_def)
qed

lemma valid_time_second:
  "valid_time t \<Longrightarrow> 0 \<le> t div second \<and> t div second < 315537897600"
  by (auto simp: valid_time_def div_less_iff_less_mult pos_imp_zdiv_nonneg_iff)

text \<open>A time in an earlier second has a smaller text.\<close>

lemma RFC3339Nano_mono_seconds:
  assumes "valid_time t" and "valid_time t'" and "t div second < t' div second"
  shows "RFC3339Nano t < RFC3339Nano t'"
proof -
  have "0 \<le> t div second" "t' div second < 315537897600"
    using assms(1,2) valid_time_second by blast+
  then have "second_text (t div second) < second_text (t' div second)"
    using assms(3) by (intro second_text_mono)
  then show ?thesis
    unfolding RFC3339Nano_def by (intro list_less_append_same_length) simp_all
qed

lemma RFC3339Nano_le_seconds:
  assumes "valid_time t" and "valid_time t'" and "RFC3339Nano t \<le> RFC3339Nano t'"
  shows "t div second \<le> t' div second"
  using RFC3339Nano_mono_seconds [OF assms(2,1)] assms(3) by force

text \<open>
  Inside one second the order is not that of time: the text of the whole second ends in \<open>Z\<close>
  where every other text of that second has a dot, and the dot is the smaller byte.
\<close>

lemma RFC3339Nano_whole_second_greatest:
  assumes "0 < ns" and "ns < second"
  shows "RFC3339Nano (s * second + ns) < RFC3339Nano (s * second)"
proof -
  have "(s * second + ns) div second = s" "(s * second + ns) mod second = ns"
    using assms by simp_all
  then show ?thesis
    using assms by (simp add: RFC3339Nano_def frac_text_def less_char_def)
qed

section \<open>Parsing\<close>

text \<open>
  \<open>time.Parse(time.RFC3339Nano, s)\<close> on text with the zone \<open>Z\<close>, which is the only zone the
  relay writes; Go's numeric zones are an error here.
\<close>

definition num :: "bytes \<Rightarrow> int option" where
  "num s = (if s \<noteq> [] \<and> list_all is_digit s then Some (int (digits_val s)) else None)"

text \<open>Three numbers between separators: \<open>w\<close> digits, then two and two.\<close>

definition parse3 :: "char \<Rightarrow> nat \<Rightarrow> bytes \<Rightarrow> (int \<times> int \<times> int) option" where
  "parse3 sep w s =
     (if length s = w + 6 \<and> s ! w = sep \<and> s ! (w + 3) = sep
      then case (num (take w s), num (take 2 (drop (w + 1) s)), num (drop (w + 4) s)) of
             (Some a, Some b, Some c) \<Rightarrow> Some (a, b, c)
           | _ \<Rightarrow> None
      else None)"

definition parse_frac :: "bytes \<Rightarrow> int option" where
  "parse_frac s =
     (case s of
        [] \<Rightarrow> Some 0
      | c # ds \<Rightarrow>
          if c = CHR ''.'' \<and> ds \<noteq> [] \<and> list_all is_digit ds
          then num (take 9 (ds @ replicate 9 (CHR ''0''))) else None)"

definition days_of_civil :: "int \<Rightarrow> int \<Rightarrow> int \<Rightarrow> int" where
  "days_of_civil y m d =
     146097 * ((y - 1) div 400) + span year_len 1 (nat ((y - 1) mod 400))
     + span (month_len y) 1 (nat (m - 1)) + (d - 1)"

definition parse_RFC3339 :: "bytes \<Rightarrow> time option" where
  "parse_RFC3339 s =
     (if length s < 20 \<or> s ! 10 \<noteq> CHR ''T'' \<or> last s \<noteq> CHR ''Z'' then None
      else case (parse3 (CHR ''-'') 4 (take 10 s), parse3 (CHR '':'') 2 (take 8 (drop 11 s)),
                 parse_frac (butlast (drop 19 s))) of
             (Some (y, m, d), Some (h, mi, sec), Some ns) \<Rightarrow>
               if 1 \<le> m \<and> m \<le> 12 \<and> 1 \<le> d \<and> d \<le> month_len y m \<and> h < 24 \<and> mi < 60 \<and> sec < 60
               then Some ((days_of_civil y m d * 86400 + h * 3600 + mi * 60 + sec) * second + ns)
               else None
           | _ \<Rightarrow> None)"

lemma pad_digits [simp]: "list_all is_digit (pad w n)"
  by (induction w arbitrary: n) auto

lemma digits_val_pad: "0 \<le> n \<Longrightarrow> n < 10 ^ w \<Longrightarrow> int (digits_val (pad w n)) = n"
proof (induction w arbitrary: n)
  case (Suc w)
  have "n div 10 < 10 ^ w" using Suc.prems by (simp add: div_less_iff_less_mult mult.commute)
  then have "int (digits_val (pad w (n div 10))) = n div 10" using Suc by simp
  then show ?case using Suc.prems by simp
qed (simp add: digits_val_def)

lemma num_pad: "0 < w \<Longrightarrow> 0 \<le> n \<Longrightarrow> n < 10 ^ w \<Longrightarrow> num (pad w n) = Some n"
proof -
  assume *: "0 < w" "0 \<le> n" "n < 10 ^ w"
  then have "pad w n \<noteq> []" by (metis length_pad list.size(3) less_irrefl_nat)
  with * show ?thesis by (simp add: num_def digits_val_pad)
qed

lemma parse3_fields:
  assumes "0 < w" and "0 \<le> a" and "a < 10 ^ w" and "0 \<le> b" and "b < 100" and "0 \<le> c" and "c < 100"
  shows "parse3 sep w (pad w a @ [sep] @ pad 2 b @ [sep] @ pad 2 c) = Some (a, b, c)"
  using assms by (simp add: parse3_def nth_append num_pad)

lemma dropWhile_eq_replicate:
  "rev (dropWhile (\<lambda>c. c = z) (rev xs)) @ replicate (length (takeWhile (\<lambda>c. c = z) (rev xs))) z = xs"
proof -
  have "takeWhile (\<lambda>c. c = z) ys = replicate (length (takeWhile (\<lambda>c. c = z) ys)) z" for ys
    by (induction ys) auto
  then show ?thesis
    by (metis rev_append rev_replicate rev_rev_ident takeWhile_dropWhile_id)
qed

lemma digits_val_zeros: "digits_val (replicate k (CHR ''0'')) = 0"
proof (induction k)
  case (Suc k)
  have "replicate (Suc k) (CHR ''0'') = replicate k (CHR ''0'') @ [CHR ''0'']"
    by (simp add: replicate_append_same)
  then show ?case using Suc by (simp only: digits_val_snoc) (simp add: digit_val_def)
qed (simp add: digits_val_def)

lemma parse_frac_text:
  assumes "0 \<le> ns" and "ns < second"
  shows "parse_frac (frac_text ns) = Some ns"
proof (cases "ns = 0")
  case False
  define ds where "ds = rev (dropWhile (\<lambda>c. c = CHR ''0'') (rev (pad 9 ns)))"
  define k where "k = length (takeWhile (\<lambda>c. c = CHR ''0'') (rev (pad 9 ns)))"
  have p: "ds @ replicate k (CHR ''0'') = pad 9 ns"
    unfolding ds_def k_def by (rule dropWhile_eq_replicate)
  then have len: "length ds + k = 9" by (metis length_append length_pad length_replicate)
  have digits: "list_all is_digit ds" using pad_digits [of 9 ns] unfolding p [symmetric] by simp
  have "ds \<noteq> []"
  proof
    assume "ds = []"
    with p len have "pad 9 ns = replicate 9 (CHR ''0'')" by simp
    then have "int (digits_val (pad 9 ns)) = 0" by (simp only: digits_val_zeros of_nat_0)
    with False assms show False by (simp add: digits_val_pad)
  qed
  moreover have "take 9 (ds @ replicate 9 (CHR ''0'')) = pad 9 ns"
    using len by (simp flip: p add: min_def)
  ultimately show ?thesis
    using digits False assms num_pad [of 9 ns]
    by (simp add: parse_frac_def frac_text_def flip: ds_def)
qed (simp add: parse_frac_def frac_text_def)

lemma div_mod_unique:
  fixes j b q :: int
  assumes "0 \<le> j" and "j < b"
  shows "(b * q + j) div b = q" and "(b * q + j) mod b = j"
  using assms by simp_all

lemma days_of_civil_civil:
  assumes "civil n = (y, m, d)"
  shows "days_of_civil y m d = n"
proof -
  obtain r where cy: "civil_year n = (y, r)" and w: "walk (month_len y) 1 r = (m, d - 1)"
    using assms by (auto simp: civil_def split: prod.splits)
  obtain k where k: "walk year_len 1 (n mod 146097) = (k, r)" and y: "y = 400 * (n div 146097) + k"
    using cy by (auto simp: civil_year_def split: prod.splits)
  have "k < 401" using walk_bounds [of year_len "n mod 146097" 1 400] k by (simp add: span_year_400)
  moreover have "1 \<le> k" using walk_ge [of 1 year_len "n mod 146097"] k by simp
  ultimately have j: "0 \<le> k - 1" "k - 1 < 400" by simp_all
  have "y - 1 = 400 * (n div 146097) + (k - 1)" using y by simp
  then have ym: "(y - 1) div 400 = n div 146097" "(y - 1) mod 400 = k - 1"
    by (simp_all only: div_mod_unique [OF j])
  have years: "span year_len 1 (nat (k - 1)) + r = n mod 146097"
    using span_walk [of year_len 1 "n mod 146097"] k by simp
  have months: "span (month_len y) 1 (nat (m - 1)) + (d - 1) = r"
    using span_walk [of "month_len y" 1 r] w by simp
  have "days_of_civil y m d = 146097 * (n div 146097) + n mod 146097"
    by (simp only: days_of_civil_def ym add.assoc months years)
  then show ?thesis by simp
qed

lemma parse3_date_text:
  assumes "0 \<le> n" and "n < 3652059" and "civil n = (y, m, d)"
  shows "parse3 (CHR ''-'') 4 (date_text n) = Some (y, m, d)"
proof -
  have "1 \<le> y \<and> y \<le> 9999 \<and> 1 \<le> m \<and> m \<le> 12 \<and> 1 \<le> d \<and> d \<le> month_len y m"
    using civil_range [OF assms] by simp
  with month_len_le [of y m] show ?thesis
    using parse3_fields [of 4 y m d "CHR ''-''"] by (simp add: date_text_def assms(3))
qed

lemma parse3_clock_text:
  assumes "0 \<le> s" and "s < 86400"
  shows "parse3 (CHR '':'') 2 (clock_text s) = Some (s div 3600, s div 60 mod 60, s mod 60)"
proof -
  have "s div 60 mod 60 < 60" "s mod 60 < 60" by simp_all
  then have small: "s div 60 mod 60 < 100" "s mod 60 < 100" by linarith+
  have h: "0 \<le> s div 3600" "s div 3600 < 10 ^ 2"
    using assms by (simp_all add: div_less_iff_less_mult pos_imp_zdiv_nonneg_iff)
  show ?thesis
    unfolding clock_text_def
    by (rule parse3_fields [OF _ h _ small(1) _ small(2)]) simp_all
qed

lemma clock_recompose: "s div 3600 * 3600 + s div 60 mod 60 * 60 + s mod 60 = (s :: int)"
proof -
  have "s div 3600 = s div 60 div 60" using zdiv_zmult2_eq [of 60 s 60] by simp
  moreover have "s div 60 div 60 * 60 + s div 60 mod 60 = s div 60" "s div 60 * 60 + s mod 60 = s"
    by simp_all
  ultimately show ?thesis by linarith
qed

lemma parse_RFC3339_format:
  assumes "valid_time t"
  shows "parse_RFC3339 (RFC3339Nano t) = Some t"
proof -
  define s ns where "s = t div second" and "ns = t mod second"
  define n sod where "n = s div 86400" and "sod = s mod 86400"
  obtain y m d where c: "civil n = (y, m, d)" by (metis prod_cases3)
  have s: "0 \<le> s" "s < 315537897600" using valid_time_second [OF assms] by (simp_all add: s_def)
  then have n: "0 \<le> n" "n < 3652059" by (simp_all add: n_def div_less_iff_less_mult pos_imp_zdiv_nonneg_iff)
  have sod: "0 \<le> sod" "sod < 86400" by (simp_all add: sod_def)
  have ns: "0 \<le> ns" "ns < second" by (simp_all add: ns_def)
  have shape: "RFC3339Nano t = date_text n @ ''T'' @ clock_text sod @ frac_text ns @ ''Z''"
    by (simp add: RFC3339Nano_def second_text_def s_def ns_def n_def sod_def)
  have hours: "sod div 3600 < 24" "sod div 60 mod 60 < 60" "sod mod 60 < 60"
    using sod by (simp_all add: div_less_iff_less_mult)
  have "(n * 86400 + sod div 3600 * 3600 + sod div 60 mod 60 * 60 + sod mod 60) * second + ns = t"
  proof -
    have "n * 86400 + sod div 3600 * 3600 + sod div 60 mod 60 * 60 + sod mod 60 = n * 86400 + sod"
      using clock_recompose [of sod] by linarith
    also have "\<dots> = s" by (simp add: n_def sod_def)
    finally show ?thesis by (simp add: s_def ns_def)
  qed
  then show ?thesis
    using civil_range [OF n c] hours
    by (simp add: parse_RFC3339_def shape nth_append butlast_append parse3_date_text [OF n c]
        parse3_clock_text [OF sod] parse_frac_text [OF ns] days_of_civil_civil [OF c])
qed

end
