(* ===== verification/Json_Strings.thy ===== *)
theory Json_Strings
  imports Go_Strings
begin

text \<open>
  The column \<open>recipients_json\<close>: \<open>json.Marshal\<close> on a \<open>[]string\<close>, and \<open>json.Unmarshal\<close> on the
  texts \<open>Marshal\<close> writes (any other text is an error here). Bytes outside ASCII are copied, as
  Go copies valid UTF-8; Go's replacement of invalid UTF-8 and its escapes for U+2028 and
  U+2029 are outside the model.
\<close>

section \<open>Encoding\<close>

definition short_escape :: "char \<Rightarrow> char option" where
  "short_escape c =
     (if c = CHR 0x22 then Some (CHR 0x22) else if c = CHR 0x5C then Some (CHR 0x5C)
      else if c = CHR 0x08 then Some (CHR ''b'') else if c = CHR 0x0C then Some (CHR ''f'')
      else if c = CHR 0x0A then Some (CHR ''n'') else if c = CHR 0x0D then Some (CHR ''r'')
      else if c = CHR 0x09 then Some (CHR ''t'') else None)"

text \<open>One byte of a JSON string; \<open><\<close>, \<open>>\<close> and \<open>&\<close> are escaped, as \<open>Marshal\<close> does by default.\<close>

definition json_char :: "char \<Rightarrow> bytes" where
  "json_char c =
     (case short_escape c of
        Some e \<Rightarrow> [CHR 0x5C, e]
      | None \<Rightarrow>
          if of_char c < (32 :: nat) \<or> c = CHR ''<'' \<or> c = CHR ''>'' \<or> c = CHR ''&''
          then [CHR 0x5C, CHR ''u'', CHR ''0'', CHR ''0'',
                hex_digit (of_char c div 16), hex_digit (of_char c mod 16)]
          else [c])"

definition json_string :: "bytes \<Rightarrow> bytes" where
  "json_string s = CHR 0x22 # concat (map json_char s) @ [CHR 0x22]"

fun json_tail :: "bytes list \<Rightarrow> bytes" where
  "json_tail [] = '']''"
| "json_tail (s # ss) = '','' @ json_string s @ json_tail ss"

text \<open>A nil slice is \<open>null\<close>.\<close>

fun json_marshal :: "bytes list \<Rightarrow> bytes" where
  "json_marshal [] = ''null''"
| "json_marshal (s # ss) = ''['' @ json_string s @ json_tail ss"

section \<open>Decoding\<close>

definition short_unescape :: "char \<Rightarrow> char option" where
  "short_unescape e =
     (if e = CHR 0x22 \<or> e = CHR 0x5C \<or> e = CHR ''/'' then Some e
      else if e = CHR ''b'' then Some (CHR 0x08) else if e = CHR ''f'' then Some (CHR 0x0C)
      else if e = CHR ''n'' then Some (CHR 0x0A) else if e = CHR ''r'' then Some (CHR 0x0D)
      else if e = CHR ''t'' then Some (CHR 0x09) else None)"

definition hex_val :: "char \<Rightarrow> nat option" where
  "hex_val c =
     (let n = of_char c :: nat in
      if 48 \<le> n \<and> n \<le> 57 then Some (n - 48)
      else if 97 \<le> n \<and> n \<le> 102 then Some (n - 87)
      else if 65 \<le> n \<and> n \<le> 70 then Some (n - 55) else None)"

definition hex4 :: "char \<Rightarrow> char \<Rightarrow> char \<Rightarrow> char \<Rightarrow> char option" where
  "hex4 a b h l =
     (case (hex_val a, hex_val b, hex_val h, hex_val l) of
        (Some p, Some q, Some x, Some y) \<Rightarrow>
          if p = 0 \<and> q = 0 \<and> x < 8 then Some (char_of (16 * x + y)) else None
      | _ \<Rightarrow> None)"

text \<open>The next byte of a JSON string's contents, and the rest.\<close>

definition next_char :: "bytes \<Rightarrow> (char \<times> bytes) option" where
  "next_char s =
     (case s of
        [] \<Rightarrow> None
      | c # t \<Rightarrow>
          if c = CHR 0x5C then
            (case t of
               [] \<Rightarrow> None
             | e # t' \<Rightarrow>
                 (case short_unescape e of
                    Some x \<Rightarrow> Some (x, t')
                  | None \<Rightarrow>
                      if e = CHR ''u'' \<and> 4 \<le> length t'
                      then map_option (\<lambda>x. (x, drop 4 t')) (hex4 (t' ! 0) (t' ! 1) (t' ! 2) (t' ! 3))
                      else None))
          else if of_char c < (32 :: nat) then None
          else Some (c, t))"

lemma next_char_shorter: "next_char s = Some (x, t) \<Longrightarrow> length t < length s"
  by (auto simp: next_char_def split: list.splits if_splits option.splits)

definition put :: "char \<Rightarrow> (bytes \<times> bytes) option \<Rightarrow> (bytes \<times> bytes) option" where
  "put c r = map_option (\<lambda>(s, rest). (c # s, rest)) r"

text \<open>The contents of a JSON string up to its closing quote, and what follows the quote.\<close>

function unquote :: "bytes \<Rightarrow> (bytes \<times> bytes) option" where
  "unquote s =
     (if s \<noteq> [] \<and> hd s = CHR 0x22 then Some ([], tl s)
      else case next_char s of None \<Rightarrow> None | Some (x, t) \<Rightarrow> put x (unquote t))"
  by pat_completeness auto
termination
  by (relation "measure length") (auto dest: next_char_shorter)

declare unquote.simps [simp del]

lemma unquote_shorter: "unquote s = Some (t, rest) \<Longrightarrow> length rest < length s"
proof (induction s arbitrary: t rest rule: unquote.induct)
  case (1 s)
  show ?case
  proof (cases "s \<noteq> [] \<and> hd s = CHR 0x22")
    case True
    with "1.prems" show ?thesis by (auto simp: unquote.simps [of s])
  next
    case False
    with "1.prems" obtain x u v where n: "next_char s = Some (x, u)" and "unquote u = Some (v, rest)"
      by (auto simp: unquote.simps [of s] put_def split: option.splits)
    then have "length rest < length u" using "1.IH" False by blast
    with next_char_shorter [OF n] show ?thesis by simp
  qed
qed

text \<open>The elements after the first: a closing bracket, or a comma and one more string.\<close>

function unmarshal_tail :: "bytes \<Rightarrow> bytes list option" where
  "unmarshal_tail s =
     (if s = '']'' then Some []
      else case s of
             a # b # t \<Rightarrow>
               if a = CHR '','' \<and> b = CHR 0x22 then
                 (case unquote t of
                    None \<Rightarrow> None
                  | Some (x, rest) \<Rightarrow> map_option ((#) x) (unmarshal_tail rest))
               else None
           | _ \<Rightarrow> None)"
  by pat_completeness auto
termination
  by (relation "measure length") (auto dest: unquote_shorter)

declare unmarshal_tail.simps [simp del]

definition json_unmarshal :: "bytes \<Rightarrow> bytes list option" where
  "json_unmarshal s =
     (if s = ''null'' \<or> s = ''[]'' then Some []
      else case s of
             a # b # t \<Rightarrow>
               if a = CHR ''['' \<and> b = CHR 0x22 then
                 (case unquote t of
                    None \<Rightarrow> None
                  | Some (x, rest) \<Rightarrow> map_option ((#) x) (unmarshal_tail rest))
               else None
           | _ \<Rightarrow> None)"

section \<open>Round trip\<close>

lemma hex_val_digit [simp]:
  assumes "d < 16"
  shows "hex_val (hex_digit d) = Some d"
proof (cases "d < 10")
  case True
  then show ?thesis by (simp add: hex_val_def hex_digit_def)
next
  case False
  with assms have "97 \<le> 87 + d" "87 + d \<le> 102" "\<not> 87 + d \<le> 57" by linarith+
  then show ?thesis using False assms by (simp add: hex_val_def hex_digit_def Let_def)
qed

lemma short_unescape_escape: "short_escape c = Some e \<Longrightarrow> short_unescape e = Some c"
  by (auto simp: short_escape_def short_unescape_def split: if_splits)

lemma short_escape_None:
  "short_escape c = None \<Longrightarrow> c \<noteq> CHR 0x22 \<and> c \<noteq> CHR 0x5C"
  by (auto simp: short_escape_def split: if_splits)

lemma hex4_byte:
  assumes "(of_char c :: nat) < 128"
  shows "hex4 (CHR ''0'') (CHR ''0'') (hex_digit (of_char c div 16)) (hex_digit (of_char c mod 16)) = Some c"
proof -
  have z: "hex_val (CHR ''0'') = Some 0" by (simp add: hex_val_def)
  have "(of_char c :: nat) div 16 < 8" "(of_char c :: nat) div 16 < 16" "(of_char c :: nat) mod 16 < 16"
    using assms by simp_all
  moreover have "16 * (of_char c div 16) + of_char c mod 16 = (of_char c :: nat)" by simp
  ultimately show ?thesis by (simp only: hex4_def z hex_val_digit option.case prod.case) simp
qed

lemma next_json_char: "next_char (json_char c @ s) = Some (c, s)"
proof (cases "short_escape c")
  case (Some e)
  then show ?thesis by (simp add: json_char_def next_char_def short_unescape_escape)
next
  case None
  show ?thesis
  proof (cases "of_char c < (32 :: nat) \<or> c = CHR ''<'' \<or> c = CHR ''>'' \<or> c = CHR ''&''")
    case True
    then have "(of_char c :: nat) < 128" by auto
    moreover have "short_unescape (CHR ''u'') = None" by (simp add: short_unescape_def)
    ultimately show ?thesis using None True hex4_byte [of c] by (simp add: json_char_def next_char_def)
  next
    case False
    with None show ?thesis using short_escape_None [OF None] by (simp add: json_char_def next_char_def)
  qed
qed

lemma json_char_no_quote: "json_char c @ s \<noteq> [] \<and> hd (json_char c @ s) \<noteq> CHR 0x22"
  by (auto simp: json_char_def dest: short_escape_None split: option.splits)

lemma unquote_json_char: "unquote (json_char c @ s) = put c (unquote s)"
  using json_char_no_quote [of c s]
  by (subst unquote.simps) (simp add: next_json_char)

lemma unquote_chars: "unquote (concat (map json_char s) @ CHR 0x22 # rest) = Some (s, rest)"
proof (induction s)
  case Nil
  then show ?case by (simp add: unquote.simps)
next
  case (Cons c s)
  then show ?case by (simp add: unquote_json_char) (simp add: put_def)
qed

lemma unmarshal_tail_json: "unmarshal_tail (json_tail ss) = Some ss"
proof (induction ss)
  case Nil
  then show ?case by (simp add: unmarshal_tail.simps)
next
  case (Cons s ss)
  have "json_tail (s # ss) = CHR '','' # CHR 0x22 # concat (map json_char s) @ CHR 0x22 # json_tail ss"
    by (simp add: json_string_def)
  with Cons show ?case
    by (simp add: unmarshal_tail.simps [of "_ # _"] unquote_chars del: json_tail.simps)
qed

lemma json_unmarshal_marshal: "json_unmarshal (json_marshal ss) = Some ss"
proof (cases ss)
  case Nil
  then show ?thesis by (simp add: json_unmarshal_def)
next
  case (Cons s ts)
  have "json_marshal (s # ts) = CHR ''['' # CHR 0x22 # concat (map json_char s) @ CHR 0x22 # json_tail ts"
    by (simp add: json_string_def)
  with Cons show ?thesis
    by (simp add: json_unmarshal_def unquote_chars unmarshal_tail_json del: json_marshal.simps)
qed

end
