(* ===== verification/Store.thy ===== *)
theory Store
  imports Timestamps Json_Strings
begin

text \<open>
  internal/queue: the message and statistics types and the \<open>Store\<close> interface (store.go), and
  its SQLite implementation (sqlite.go), statement by statement, over the table
  \<open>outbound_queue\<close>.

  The table is the list of its rows in insertion order. Every call into the database may
  fail; \<open>faults\<close> says, call by call, whether it does, and calls succeed once the list is
  used up. A failed statement changes nothing, and a transaction that does not commit is
  rolled back.
\<close>

section \<open>Types\<close>

record message =
  ID :: bytes
  MailFrom :: bytes
  Recipients :: "bytes list"
  Data :: bytes
  MsgAttempts :: int
  CreatedAt :: time
  UpdatedAt :: time

record queue_stats =
  PendingCount :: int
  ProcessingCount :: int
  SentCount :: int
  FailedCount :: int
  StatsBacklog :: int
  OldestPendingAge :: duration
  OldestPendingSince :: time

datatype status = Pending | Processing | Sent | Failed

record row =
  row_id :: bytes
  mail_from :: bytes
  recipients_json :: bytes
  rfc822 :: bytes
  status :: status
  attempts :: int
  next_attempt_at :: bytes
  last_error :: bytes
  created_at :: bytes
  updated_at :: bytes

record db =
  rows :: "row list"
  faults :: "bool list"

datatype store_error =
    MissingID | MissingMailFrom | MissingRecipients | MissingData
  | DBError | CorruptRecipients | CorruptTime

text \<open>The interface \<open>Store\<close>, over any type \<open>'q\<close> of queue states.\<close>

record 'q store_ops =
  op_Enqueue :: "time \<Rightarrow> message \<Rightarrow> 'q \<Rightarrow> store_error option \<times> 'q"
  op_BacklogCount :: "'q \<Rightarrow> (store_error + int) \<times> 'q"
  op_Stats :: "time \<Rightarrow> 'q \<Rightarrow> (store_error + queue_stats) \<times> 'q"
  op_ClaimNextPending :: "time \<Rightarrow> 'q \<Rightarrow> (store_error + message option) \<times> 'q"
  op_MarkSent :: "bytes \<Rightarrow> time \<Rightarrow> 'q \<Rightarrow> store_error option \<times> 'q"
  op_MarkRetry :: "bytes \<Rightarrow> time \<Rightarrow> bytes \<Rightarrow> time \<Rightarrow> 'q \<Rightarrow> store_error option \<times> 'q"
  op_MarkFailed :: "bytes \<Rightarrow> bytes \<Rightarrow> time \<Rightarrow> 'q \<Rightarrow> store_error option \<times> 'q"
  op_RecoverStuckProcessing :: "time \<Rightarrow> time \<Rightarrow> 'q \<Rightarrow> (store_error + int) \<times> 'q"

section \<open>Database calls\<close>

text \<open>One call: whether it succeeds, and the database without the flag it used up.\<close>

definition db_call :: "db \<Rightarrow> bool \<times> db" where
  "db_call d = (case faults d of [] \<Rightarrow> (True, d) | f # fs \<Rightarrow> (\<not> f, d\<lparr>faults := fs\<rparr>))"

text \<open>\<open>UPDATE outbound_queue SET f WHERE p\<close>, and the number of rows affected.\<close>

definition update_where :: "(row \<Rightarrow> bool) \<Rightarrow> (row \<Rightarrow> row) \<Rightarrow> row list \<Rightarrow> row list" where
  "update_where p f rs = map (\<lambda>r. if p r then f r else r) rs"

definition count_where :: "(row \<Rightarrow> bool) \<Rightarrow> row list \<Rightarrow> int" where
  "count_where p rs = int (length (filter p rs))"

definition exec_update :: "(row \<Rightarrow> bool) \<Rightarrow> (row \<Rightarrow> row) \<Rightarrow> db \<Rightarrow> (store_error + int) \<times> db" where
  "exec_update p f d =
     (case db_call d of
        (False, d) \<Rightarrow> (Inl DBError, d)
      | (True, d) \<Rightarrow> (Inr (count_where p (rows d)), d\<lparr>rows := update_where p f (rows d)\<rparr>))"

section \<open>The operations\<close>

definition Enqueue :: "time \<Rightarrow> message \<Rightarrow> db \<Rightarrow> store_error option \<times> db" where
  "Enqueue now msg d =
     (if ID msg = [] then (Some MissingID, d)
      else if MailFrom msg = [] then (Some MissingMailFrom, d)
      else if Recipients msg = [] then (Some MissingRecipients, d)
      else if Data msg = [] then (Some MissingData, d)
      else
        let msg = (if CreatedAt msg = 0 then msg\<lparr>CreatedAt := now\<rparr> else msg);
            msg = (if UpdatedAt msg = 0 then msg\<lparr>UpdatedAt := CreatedAt msg\<rparr> else msg);
            recipientsJSON = json_marshal (Recipients msg)
        in case db_call d of
             (False, d) \<Rightarrow> (Some DBError, d)
           | (True, d) \<Rightarrow>
               if ID msg \<in> set (map row_id (rows d)) then (Some DBError, d)
               else (None, d\<lparr>rows := rows d @
                  [\<lparr>row_id = ID msg, mail_from = MailFrom msg, recipients_json = recipientsJSON,
                    rfc822 = Data msg, status = Pending, attempts = 0,
                    next_attempt_at = RFC3339Nano (CreatedAt msg), last_error = [],
                    created_at = RFC3339Nano (CreatedAt msg),
                    updated_at = RFC3339Nano (UpdatedAt msg)\<rparr>]\<rparr>))"

definition in_backlog :: "row \<Rightarrow> bool" where
  "in_backlog r \<longleftrightarrow> status r = Pending \<or> status r = Processing"

definition BacklogCount :: "db \<Rightarrow> (store_error + int) \<times> db" where
  "BacklogCount d =
     (case db_call d of
        (False, d) \<Rightarrow> (Inl DBError, d)
      | (True, d) \<Rightarrow> (Inr (count_where in_backlog (rows d)), d))"

text \<open>\<open>ORDER BY created_at ASC LIMIT 1\<close>: of rows with equal texts, the first in the table.\<close>

fun oldest :: "row list \<Rightarrow> row option" where
  "oldest [] = None"
| "oldest (r # rs) =
     (case oldest rs of
        None \<Rightarrow> Some r
      | Some q \<Rightarrow> if created_at r \<le> created_at q then Some r else Some q)"

definition row_stats :: "row list \<Rightarrow> queue_stats" where
  "row_stats rs =
     (let pending = count_where (\<lambda>r. status r = Pending) rs;
          processing = count_where (\<lambda>r. status r = Processing) rs
      in \<lparr>PendingCount = pending, ProcessingCount = processing,
          SentCount = count_where (\<lambda>r. status r = Sent) rs,
          FailedCount = count_where (\<lambda>r. status r = Failed) rs,
          StatsBacklog = pending + processing,
          OldestPendingAge = 0, OldestPendingSince = 0\<rparr>)"

text \<open>\<open>Stats\<close>: the counts, then the creation time of the oldest pending row.\<close>

definition Stats :: "time \<Rightarrow> db \<Rightarrow> (store_error + queue_stats) \<times> db" where
  "Stats now d =
     (case db_call d of
        (False, d) \<Rightarrow> (Inl DBError, d)
      | (True, d) \<Rightarrow>
     (let st = row_stats (rows d) in
      (case db_call d of
         (False, d) \<Rightarrow> (Inl DBError, d)
       | (True, d) \<Rightarrow>
           (case oldest (filter (\<lambda>r. status r = Pending) (rows d)) of
              None \<Rightarrow> (Inr st, d)
            | Some r \<Rightarrow>
                if created_at r = [] then (Inr st, d)
                else (case parse_RFC3339 (created_at r) of
                        None \<Rightarrow> (Inl CorruptTime, d)
                      | Some ts \<Rightarrow>
                          (Inr (st\<lparr>OldestPendingSince := ts,
                                   OldestPendingAge := (if ts < now then now - ts else 0)\<rparr>), d))))))"

text \<open>The SELECT of a claim.\<close>

definition due :: "time \<Rightarrow> row \<Rightarrow> bool" where
  "due now r \<longleftrightarrow> status r = Pending \<and> next_attempt_at r \<le> RFC3339Nano now"

definition next_due :: "time \<Rightarrow> row list \<Rightarrow> row option" where
  "next_due now rs = oldest (filter (due now) rs)"

text \<open>Reading a row into a message: the recipients and the two times are decoded.\<close>

definition scan_row :: "row \<Rightarrow> store_error + message" where
  "scan_row r =
     (case json_unmarshal (recipients_json r) of
        None \<Rightarrow> Inl CorruptRecipients
      | Some rcpts \<Rightarrow>
          (case parse_RFC3339 (created_at r) of
             None \<Rightarrow> Inl CorruptTime
           | Some created \<Rightarrow>
               (case parse_RFC3339 (updated_at r) of
                  None \<Rightarrow> Inl CorruptTime
                | Some updated \<Rightarrow>
                    Inr \<lparr>ID = row_id r, MailFrom = mail_from r, Recipients = rcpts, Data = rfc822 r,
                         MsgAttempts = attempts r, CreatedAt = created, UpdatedAt = updated\<rparr>)))"

text \<open>
  \<open>ClaimNextPending\<close>: begin, select, decode, update, commit. Every return before the commit
  rolls back, so it leaves the rows as they were.
\<close>

definition ClaimNextPending :: "time \<Rightarrow> db \<Rightarrow> (store_error + message option) \<times> db" where
  "ClaimNextPending now d =
     (case db_call d of
        (False, d) \<Rightarrow> (Inl DBError, d)
      | (True, d) \<Rightarrow>
     (case db_call d of
        (False, d) \<Rightarrow> (Inl DBError, d)
      | (True, d) \<Rightarrow>
     (case next_due now (rows d) of
        None \<Rightarrow> (Inr None, d)
      | Some r \<Rightarrow>
     (case scan_row r of
        Inl e \<Rightarrow> (Inl e, d)
      | Inr msg \<Rightarrow>
     (case exec_update (\<lambda>q. row_id q = ID msg \<and> status q = Pending)
             (\<lambda>q. q\<lparr>status := Processing, attempts := attempts q + 1, updated_at := RFC3339Nano now\<rparr>) d of
        (Inl e, d) \<Rightarrow> (Inl e, d)
      | (Inr affected, tx) \<Rightarrow>
          if affected \<noteq> 1 then (Inr None, d\<lparr>faults := faults tx\<rparr>)
          else
            (case db_call tx of
               (False, tx) \<Rightarrow> (Inl DBError, d\<lparr>faults := faults tx\<rparr>)
             | (True, tx) \<Rightarrow>
                 (Inr (Some (msg\<lparr>MsgAttempts := MsgAttempts msg + 1, UpdatedAt := now\<rparr>)), tx)))))))"

definition stale_error :: bytes where
  "stale_error = ''recovered after stale processing timeout''"

definition RecoverStuckProcessing :: "time \<Rightarrow> time \<Rightarrow> db \<Rightarrow> (store_error + int) \<times> db" where
  "RecoverStuckProcessing olderThan now d =
     exec_update (\<lambda>r. status r = Processing \<and> updated_at r < RFC3339Nano olderThan)
       (\<lambda>r. r\<lparr>status := Pending, next_attempt_at := RFC3339Nano now,
              updated_at := RFC3339Nano now, last_error := stale_error\<rparr>) d"

text \<open>The error of an \<open>ExecContext\<close> whose result is not used.\<close>

definition exec_error :: "(store_error + int) \<times> db \<Rightarrow> store_error option \<times> db" where
  "exec_error res = (case res of (Inl e, d) \<Rightarrow> (Some e, d) | (Inr _, d) \<Rightarrow> (None, d))"

definition truncateErr :: "bytes \<Rightarrow> bytes" where
  "truncateErr v = (if length v \<le> 1024 then v else take 1024 v)"

definition MarkSent :: "bytes \<Rightarrow> time \<Rightarrow> db \<Rightarrow> store_error option \<times> db" where
  "MarkSent mid now d =
     exec_error (exec_update (\<lambda>r. row_id r = mid)
       (\<lambda>r. r\<lparr>status := Sent, updated_at := RFC3339Nano now, last_error := []\<rparr>) d)"

definition MarkRetry :: "bytes \<Rightarrow> time \<Rightarrow> bytes \<Rightarrow> time \<Rightarrow> db \<Rightarrow> store_error option \<times> db" where
  "MarkRetry mid nextAttempt lastErr now d =
     exec_error (exec_update (\<lambda>r. row_id r = mid)
       (\<lambda>r. r\<lparr>status := Pending, next_attempt_at := RFC3339Nano nextAttempt,
              last_error := truncateErr lastErr, updated_at := RFC3339Nano now\<rparr>) d)"

definition MarkFailed :: "bytes \<Rightarrow> bytes \<Rightarrow> time \<Rightarrow> db \<Rightarrow> store_error option \<times> db" where
  "MarkFailed mid lastErr now d =
     exec_error (exec_update (\<lambda>r. row_id r = mid)
       (\<lambda>r. r\<lparr>status := Failed, last_error := truncateErr lastErr, updated_at := RFC3339Nano now\<rparr>) d)"

text \<open>\<open>*SQLiteStore\<close> as a \<open>Store\<close>.\<close>

definition sqlite_ops :: "db store_ops" where
  "sqlite_ops =
     \<lparr>op_Enqueue = Enqueue, op_BacklogCount = BacklogCount, op_Stats = Stats,
      op_ClaimNextPending = ClaimNextPending, op_MarkSent = MarkSent, op_MarkRetry = MarkRetry,
      op_MarkFailed = MarkFailed, op_RecoverStuckProcessing = RecoverStuckProcessing\<rparr>"

section \<open>Opening the database\<close>

definition lower_contains :: "bytes \<Rightarrow> bytes \<Rightarrow> bool" where
  "lower_contains v pat = sublist pat (to_lower v)"

text \<open>\<open>isDuplicateColumnErr\<close>, on the text of the error (\<open>None\<close> for a nil error).\<close>

definition isDuplicateColumnErr :: "bytes option \<Rightarrow> bool" where
  "isDuplicateColumnErr err =
     (case err of None \<Rightarrow> False | Some v \<Rightarrow> lower_contains v ''duplicate column name'')"

datatype open_error = CreateDirectory | OpenQueue | ConfigurePragmas | CreateSchema | MigrateSchema

text \<open>
  The two UPDATEs that end \<open>NewSQLiteStore\<close>: rows from before the columns existed get their
  creation time. Their errors are ignored.
\<close>

definition fill_next_attempt :: "row \<Rightarrow> row" where
  "fill_next_attempt r = (if next_attempt_at r = [] then r\<lparr>next_attempt_at := created_at r\<rparr> else r)"

definition fill_updated :: "row \<Rightarrow> row" where
  "fill_updated r = (if updated_at r = [] then r\<lparr>updated_at := created_at r\<rparr> else r)"

fun run_alters :: "bytes option list \<Rightarrow> bool" where
  "run_alters [] = True"
| "run_alters (err # errs) =
     (if err \<noteq> None \<and> \<not> isDuplicateColumnErr err then False else run_alters errs)"

text \<open>
  \<open>NewSQLiteStore\<close>: the outcomes of the directory, of \<open>sql.Open\<close>, of the two scripts and of the
  four ALTERs are given; the table is what an earlier run left, with the new columns.
\<close>

definition NewSQLiteStore ::
  "bool \<Rightarrow> bool \<Rightarrow> bool \<Rightarrow> bool \<Rightarrow> bytes option list \<Rightarrow> db \<Rightarrow> open_error + db" where
  "NewSQLiteStore mkdir_ok open_ok pragmas_ok schema_ok alters d =
     (if \<not> mkdir_ok then Inl CreateDirectory
      else if \<not> open_ok then Inl OpenQueue
      else if \<not> pragmas_ok then Inl ConfigurePragmas
      else if \<not> schema_ok then Inl CreateSchema
      else if \<not> run_alters alters then Inl MigrateSchema
      else
        let d = snd (exec_update (\<lambda>r. next_attempt_at r = []) fill_next_attempt d);
            d = snd (exec_update (\<lambda>r. updated_at r = []) fill_updated d)
        in Inr d)"

end
