(* ===== verification/Queue_Spec.thy ===== *)
theory Queue_Spec
  imports Store
begin

text \<open>
  What the queue promises its clients, apart from how SQLite keeps it: a finite map from
  message ids to entries, each with the envelope and the body it was enqueued with, a status
  and a count of delivery attempts. The locale \<open>queue_store\<close> states the effect of every
  operation of the \<open>Store\<close> interface on that map, failures included.
\<close>

section \<open>The abstract queue\<close>

record entry =
  e_from :: bytes
  e_rcpts :: "bytes list"
  e_data :: bytes
  e_status :: status
  e_attempts :: int

type_synonym queue_view = "bytes \<rightharpoonup> entry"

definition new_entry :: "message \<Rightarrow> entry" where
  "new_entry m =
     \<lparr>e_from = MailFrom m, e_rcpts = Recipients m, e_data = Data m, e_status = Pending, e_attempts = 0\<rparr>"

text \<open>A message \<open>Enqueue\<close> does not refuse.\<close>

definition complete :: "message \<Rightarrow> bool" where
  "complete m \<longleftrightarrow> ID m \<noteq> [] \<and> MailFrom m \<noteq> [] \<and> Recipients m \<noteq> [] \<and> Data m \<noteq> []"

definition valid_msg :: "message \<Rightarrow> bool" where
  "valid_msg m \<longleftrightarrow> valid_time (CreatedAt m) \<and> valid_time (UpdatedAt m)"

definition waiting :: "queue_view \<Rightarrow> bytes set" where
  "waiting v = {i. \<exists>e. v i = Some e \<and> (e_status e = Pending \<or> e_status e = Processing)}"

definition backlog_size :: "queue_view \<Rightarrow> int" where
  "backlog_size v = int (card (waiting v))"

definition set_status :: "bytes \<Rightarrow> status \<Rightarrow> queue_view \<Rightarrow> queue_view" where
  "set_status i s v = v(i := map_option (\<lambda>e. e\<lparr>e_status := s\<rparr>) (v i))"

definition claimed :: "entry \<Rightarrow> entry" where
  "claimed e = e\<lparr>e_status := Processing, e_attempts := e_attempts e + 1\<rparr>"

text \<open>The message a claim returns for the entry it took.\<close>

definition carries :: "message \<Rightarrow> entry \<Rightarrow> bool" where
  "carries m e \<longleftrightarrow>
     MailFrom m = e_from e \<and> Recipients m = e_rcpts e \<and> Data m = e_data e
     \<and> MsgAttempts m = e_attempts e + 1"

definition release :: "bytes set \<Rightarrow> queue_view \<Rightarrow> queue_view" where
  "release S v = (\<lambda>i. if i \<in> S then map_option (\<lambda>e. e\<lparr>e_status := Pending\<rparr>) (v i) else v i)"

section \<open>The interface\<close>

locale queue_store =
  fixes ops :: "'q store_ops"
    and view :: "'q \<Rightarrow> queue_view"
    and inv :: "'q \<Rightarrow> bool"
  assumes finite_view: "inv q \<Longrightarrow> finite (dom (view q))"
    and enqueue_law: "inv q \<Longrightarrow> valid_time now \<Longrightarrow> valid_msg m \<Longrightarrow> op_Enqueue ops now m q = (r, q') \<Longrightarrow>
      inv q' \<and> (case r of
        None \<Rightarrow> view q (ID m) = None \<and> complete m \<and> view q' = (view q)(ID m \<mapsto> new_entry m)
      | Some e \<Rightarrow> view q' = view q)"
    and backlog_law: "inv q \<Longrightarrow> op_BacklogCount ops q = (cnt, q') \<Longrightarrow>
      inv q' \<and> view q' = view q \<and> (\<forall>n. cnt = Inr n \<longrightarrow> n = backlog_size (view q))"
    and claim_law: "inv q \<Longrightarrow> valid_time now \<Longrightarrow> op_ClaimNextPending ops now q = (taken, q') \<Longrightarrow>
      inv q' \<and> (case taken of
        Inr (Some m) \<Rightarrow> (\<exists>e. view q (ID m) = Some e \<and> e_status e = Pending \<and> carries m e
          \<and> view q' = (view q)(ID m \<mapsto> claimed e))
      | _ \<Rightarrow> view q' = view q)"
    and mark_sent_law: "inv q \<Longrightarrow> valid_time now \<Longrightarrow> op_MarkSent ops i now q = (r, q') \<Longrightarrow>
      inv q' \<and> view q' = (if r = None then set_status i Sent (view q) else view q)"
    and mark_retry_law: "inv q \<Longrightarrow> valid_time now \<Longrightarrow> valid_time t \<Longrightarrow>
      op_MarkRetry ops i t err now q = (r, q') \<Longrightarrow>
      inv q' \<and> view q' = (if r = None then set_status i Pending (view q) else view q)"
    and mark_failed_law: "inv q \<Longrightarrow> valid_time now \<Longrightarrow> op_MarkFailed ops i err now q = (r, q') \<Longrightarrow>
      inv q' \<and> view q' = (if r = None then set_status i Failed (view q) else view q)"
    and recover_law: "inv q \<Longrightarrow> valid_time now \<Longrightarrow>
      op_RecoverStuckProcessing ops old now q = (cnt, q') \<Longrightarrow>
      inv q' \<and> (\<exists>S. (\<forall>i\<in>S. \<exists>e. view q i = Some e \<and> e_status e = Processing)
        \<and> view q' = release S (view q) \<and> (\<forall>n. cnt = Inr n \<longrightarrow> n = int (card S)))"
begin

lemma finite_waiting: "inv q \<Longrightarrow> finite (waiting (view q))"
  by (rule finite_subset [OF _ finite_view]) (auto simp: waiting_def)

text \<open>An accepted message adds one to the backlog; a refused one changes nothing.\<close>

lemma enqueue_backlog:
  assumes "inv q" and "valid_time now" and "valid_msg m" and "op_Enqueue ops now m q = (r, q')"
  shows "backlog_size (view q') = (if r = None then backlog_size (view q) + 1 else backlog_size (view q))"
proof (cases r)
  case None
  with enqueue_law [OF assms] have new: "view q (ID m) = None"
    and v: "view q' = (view q)(ID m \<mapsto> new_entry m)" by simp_all
  have "waiting (view q') = insert (ID m) (waiting (view q))"
    by (auto simp: v waiting_def new_entry_def)
  moreover have "ID m \<notin> waiting (view q)" using new by (simp add: waiting_def)
  ultimately show ?thesis using None finite_waiting [OF assms(1)] by (simp add: backlog_size_def)
next
  case (Some e)
  with enqueue_law [OF assms] show ?thesis by simp
qed

text \<open>A claim moves an entry inside the backlog.\<close>

lemma claim_backlog:
  assumes "inv q" and "valid_time now" and "op_ClaimNextPending ops now q = (r, q')"
  shows "backlog_size (view q') = backlog_size (view q)"
proof -
  have "waiting (view q') = waiting (view q)"
    using claim_law [OF assms] by (auto simp: waiting_def claimed_def split: sum.splits option.splits if_splits)
  then show ?thesis by (simp add: backlog_size_def)
qed

text \<open>A recovered row goes back to the front of the same backlog.\<close>

lemma recover_backlog:
  assumes "inv q" and "valid_time now" and "op_RecoverStuckProcessing ops old now q = (r, q')"
  shows "backlog_size (view q') = backlog_size (view q)"
proof -
  from recover_law [OF assms] obtain S where
    S: "\<forall>i\<in>S. \<exists>e. view q i = Some e \<and> e_status e = Processing" and v: "view q' = release S (view q)"
    by blast
  have "waiting (view q') = waiting (view q)"
    using S by (force simp: v waiting_def release_def)
  then show ?thesis by (simp add: backlog_size_def)
qed

end

end
