(* ===== verification/Base64.thy ===== *)
theory Base64
  imports Go_Strings
begin

text \<open>
  Go's package \<open>encoding/base64\<close> as the relay uses it: \<open>StdEncoding.DecodeString\<close> on the AUTH
  payloads (internal/smtp/server.go) and \<open>RawURLEncoding.EncodeToString\<close> on the message
  handed to the Gmail API (internal/gmail/sender.go). The padded standard encoder, which
  clients run, and the raw URL decoder, which Google runs, are here as references.
\<close>

section \<open>Alphabets\<close>

definition b64_char :: "bool \<Rightarrow> nat \<Rightarrow> char" where
  "b64_char url n =
     (if n < 26 then char_of (65 + n) else if n < 52 then char_of (71 + n)
      else if n < 62 then char_of (n - 4)
      else if n = 62 then (if url then CHR ''-'' else CHR ''+'')
      else (if url then CHR ''_'' else CHR ''/''))"

definition b64_val :: "bool \<Rightarrow> char \<Rightarrow> nat option" where
  "b64_val url c =
     (let n = of_char c :: nat in
      if 65 \<le> n \<and> n \<le> 90 then Some (n - 65)
      else if 97 \<le> n \<and> n \<le> 122 then Some (n - 71)
      else if 48 \<le> n \<and> n \<le> 57 then Some (n + 4)
      else if c = (if url then CHR ''-'' else CHR ''+'') then Some 62
      else if c = (if url then CHR ''_'' else CHR ''/'') then Some 63
      else None)"

lemma b64_val_char [simp]:
  assumes "n < 64"
  shows "b64_val url (b64_char url n) = Some n"
proof -
  consider "n < 26" | "26 \<le> n" "n < 52" | "52 \<le> n" "n < 62" | "n = 62" | "n = 63"
    using assms by linarith
  then show ?thesis by cases (simp_all add: b64_val_def b64_char_def Let_def, arith)
qed

lemma b64_val_Some_plain: "b64_val url c = Some n \<Longrightarrow> c \<noteq> CHR ''='' \<and> c \<noteq> CR \<and> c \<noteq> LF"
  by (auto simp: b64_val_def Let_def split: if_splits)

lemma b64_char_plain [simp]:
  assumes "n < 64"
  shows "b64_char url n \<noteq> CHR ''=''" "b64_char url n \<noteq> CR" "b64_char url n \<noteq> LF"
  using b64_val_Some_plain [OF b64_val_char [OF assms]] by blast+

section \<open>Encoding\<close>

definition enc1 :: "bool \<Rightarrow> char \<Rightarrow> bytes" where
  "enc1 url a = (let x = of_char a :: nat in [b64_char url (x div 4), b64_char url (x mod 4 * 16)])"

definition enc2 :: "bool \<Rightarrow> char \<Rightarrow> char \<Rightarrow> bytes" where
  "enc2 url a b =
     (let x = of_char a :: nat; y = of_char b in
      [b64_char url (x div 4), b64_char url (x mod 4 * 16 + y div 16), b64_char url (y mod 16 * 4)])"

definition enc3 :: "bool \<Rightarrow> char \<Rightarrow> char \<Rightarrow> char \<Rightarrow> bytes" where
  "enc3 url a b c =
     (let x = of_char a :: nat; y = of_char b; z = of_char c in
      [b64_char url (x div 4), b64_char url (x mod 4 * 16 + y div 16),
       b64_char url (y mod 16 * 4 + z div 64), b64_char url (z mod 64)])"

text \<open>\<open>RawURLEncoding.EncodeToString\<close>: the URL alphabet without padding.\<close>

fun raw_url_encode :: "bytes \<Rightarrow> bytes" where
  "raw_url_encode [] = []"
| "raw_url_encode [a] = enc1 True a"
| "raw_url_encode [a, b] = enc2 True a b"
| "raw_url_encode (a # b # c # s) = enc3 True a b c @ raw_url_encode s"

fun std_encode :: "bytes \<Rightarrow> bytes" where
  "std_encode [] = []"
| "std_encode [a] = enc1 False a @ ''==''"
| "std_encode [a, b] = enc2 False a b @ ''=''"
| "std_encode (a # b # c # s) = enc3 False a b c @ std_encode s"

section \<open>Decoding\<close>

definition dec1 :: "nat \<Rightarrow> nat \<Rightarrow> char" where
  "dec1 x y = char_of (x * 4 + y div 16)"

definition dec2 :: "nat \<Rightarrow> nat \<Rightarrow> char" where
  "dec2 y z = char_of (y mod 16 * 16 + z div 4)"

definition dec3 :: "nat \<Rightarrow> nat \<Rightarrow> char" where
  "dec3 z w = char_of (z mod 4 * 64 + w)"

text \<open>
  Four characters at a time. The low bits a padded group leaves over are not checked, as
  Go's non-strict decoder does not check them; padding ends the input.
\<close>

fun decode_quads :: "bytes \<Rightarrow> bytes option" where
  "decode_quads [] = Some []"
| "decode_quads (a # b # c # d # s) =
     (case (b64_val False a, b64_val False b) of
        (Some x, Some y) \<Rightarrow>
          if c = CHR ''='' then (if d = CHR ''='' \<and> s = [] then Some [dec1 x y] else None)
          else (case b64_val False c of
                  None \<Rightarrow> None
                | Some z \<Rightarrow>
                    if d = CHR ''='' then (if s = [] then Some [dec1 x y, dec2 y z] else None)
                    else (case b64_val False d of
                            None \<Rightarrow> None
                          | Some w \<Rightarrow>
                              map_option (\<lambda>r. dec1 x y # dec2 y z # dec3 z w # r) (decode_quads s)))
      | _ \<Rightarrow> None)"
| "decode_quads _ = None"

text \<open>\<open>StdEncoding.DecodeString\<close>: line breaks anywhere in the text are skipped.\<close>

definition std_decode :: "bytes \<Rightarrow> bytes option" where
  "std_decode s = decode_quads (filter (\<lambda>c. c \<noteq> CR \<and> c \<noteq> LF) s)"

fun raw_url_decode :: "bytes \<Rightarrow> bytes option" where
  "raw_url_decode [] = Some []"
| "raw_url_decode [a, b] =
     (case (b64_val True a, b64_val True b) of
        (Some x, Some y) \<Rightarrow> Some [dec1 x y] | _ \<Rightarrow> None)"
| "raw_url_decode [a, b, c] =
     (case (b64_val True a, b64_val True b, b64_val True c) of
        (Some x, Some y, Some z) \<Rightarrow> Some [dec1 x y, dec2 y z] | _ \<Rightarrow> None)"
| "raw_url_decode (a # b # c # d # s) =
     (case (b64_val True a, b64_val True b, b64_val True c, b64_val True d) of
        (Some x, Some y, Some z, Some w) \<Rightarrow>
          map_option (\<lambda>r. dec1 x y # dec2 y z # dec3 z w # r) (raw_url_decode s)
      | _ \<Rightarrow> None)"
| "raw_url_decode _ = None"

section \<open>Round trips\<close>

text \<open>The arithmetic of a group, on bytes as numbers.\<close>

lemma sextet_arith:
  fixes x y :: nat
  assumes "y < 256"
  shows "(x mod 4 * 16 + y div 16) div 16 = x mod 4"
    and "(x mod 4 * 16 + y div 16) mod 16 = y div 16"
    and "(x mod 16 * 4 + y div 64) div 4 = x mod 16"
    and "(x mod 16 * 4 + y div 64) mod 4 = y div 64"
    and "x mod 4 * 16 + y div 16 < 64"
    and "x mod 16 * 4 + y div 64 < 64"
    and "y div 4 < 64"
    and "y div 16 mod 16 = y div 16"
    and "y div 64 mod 4 = y div 64"
proof -
  have 1: "y div 16 < 16" and 2: "y div 64 < 4" and "y div 4 < 64"
    using assms by simp_all
  have 3: "x mod 4 < 4" and 4: "x mod 16 < 16" by simp_all
  show "(x mod 4 * 16 + y div 16) div 16 = x mod 4" using 1 by simp
  show "(x mod 4 * 16 + y div 16) mod 16 = y div 16" using 1 by simp
  show "(x mod 16 * 4 + y div 64) div 4 = x mod 16" using 2 by simp
  show "(x mod 16 * 4 + y div 64) mod 4 = y div 64" using 2 by simp
  show "x mod 4 * 16 + y div 16 < 64" using 1 3 by linarith
  show "x mod 16 * 4 + y div 64 < 64" using 2 4 by linarith
  show "y div 4 < 64" by fact
  show "y div 16 mod 16 = y div 16" using 1 by simp
  show "y div 64 mod 4 = y div 64" using 2 by simp
qed

lemma byte_bound: "(of_char c :: nat) < 256"
  by simp

lemmas byte_arith [simp] = sextet_arith [OF byte_bound]

lemma byte_mod_bounds [simp]: "(x :: nat) mod 4 * 16 < 64" "(x :: nat) mod 16 * 4 < 64"
proof -
  have "x mod 4 < 4" "x mod 16 < 16" by simp_all
  then show "x mod 4 * 16 < 64" "x mod 16 * 4 < 64" by linarith+
qed

lemma dec1_enc [simp]:
  "dec1 (of_char a div 4) (of_char a mod 4 * 16 + of_char b div 16) = a"
  "dec1 (of_char a div 4) (of_char a mod 4 * 16) = a"
  by (simp_all add: dec1_def div_mult_mod_eq)

lemma dec2_enc [simp]:
  "dec2 (of_char a mod 4 * 16 + of_char b div 16) (of_char b mod 16 * 4 + of_char c div 64) = b"
  "dec2 (of_char a mod 4 * 16 + of_char b div 16) (of_char b mod 16 * 4) = b"
  by (simp_all add: dec2_def div_mult_mod_eq)

lemma dec3_enc [simp]:
  "dec3 (of_char b mod 16 * 4 + of_char c div 64) (of_char c mod 64) = c"
  by (simp add: dec3_def div_mult_mod_eq)

lemmas enc_defs = enc1_def enc2_def enc3_def Let_def

lemma decode_quads_std_encode: "decode_quads (std_encode s) = Some s"
  by (induction s rule: std_encode.induct) (simp_all add: enc_defs)

lemma raw_url_decode_encode: "raw_url_decode (raw_url_encode s) = Some s"
  by (induction s rule: raw_url_encode.induct) (simp_all add: enc_defs)

lemma std_encode_no_breaks: "filter (\<lambda>c. c \<noteq> CR \<and> c \<noteq> LF) (std_encode s) = std_encode s"
  by (induction s rule: std_encode.induct) (simp_all add: enc_defs)

lemma std_decode_encode: "std_decode (std_encode s) = Some s"
  by (simp add: std_decode_def std_encode_no_breaks decode_quads_std_encode)

end
