(* ===== verification/Gmail_Sender.thy ===== *)
theory Gmail_Sender
  imports Base64
begin

text \<open>
  internal/gmail/sender.go: error kinds and their classification, the send-as alias cache,
  and the sender the worker delivers through.

  Calls to Google are parameters: the response of \<open>SendAs.List\<close> is an error or the listed
  addresses, that of \<open>Messages.Send\<close> an error or nothing. \<open>parse\<close> is \<open>mail.ParseAddress\<close>,
  reduced to the address it returns (\<open>None\<close> for its error).
\<close>

section \<open>Errors\<close>

datatype error_kind = Transient | Permanent

text \<open>
  Go errors as the code tells them apart: a plain error, an answer of the Google API with its
  HTTP status code, an error wrapped with a text prefix, and a \<open>SendError\<close>.
\<close>

datatype go_error =
    PlainError bytes
  | APIError int bytes
  | Wrapped bytes go_error
  | SendError error_kind "go_error option"

text \<open>\<open>err.Error()\<close>\<close>

fun error_text :: "go_error \<Rightarrow> bytes" where
  "error_text (PlainError msg) = msg"
| "error_text (APIError code msg) = msg"
| "error_text (Wrapped pre e) = pre @ error_text e"
| "error_text (SendError k None) = ''send error''"
| "error_text (SendError k (Some e)) = error_text e"

text \<open>\<open>errors.As\<close> for \<open>*SendError\<close> and for \<open>*googleapi.Error\<close>: the first in the chain.\<close>

fun as_send_error :: "go_error \<Rightarrow> error_kind option" where
  "as_send_error (SendError k e) = Some k"
| "as_send_error (Wrapped pre e) = as_send_error e"
| "as_send_error _ = None"

fun as_api_error :: "go_error \<Rightarrow> int option" where
  "as_api_error (APIError code msg) = Some code"
| "as_api_error (Wrapped pre e) = as_api_error e"
| "as_api_error (SendError k (Some e)) = as_api_error e"
| "as_api_error _ = None"

definition IsTransient :: "go_error \<Rightarrow> bool" where
  "IsTransient err =
     (case as_send_error err of None \<Rightarrow> False | Some kind \<Rightarrow> kind = Transient)"

definition classifyGoogleErr :: "go_error \<Rightarrow> go_error" where
  "classifyGoogleErr err =
     (case as_api_error err of
        Some code \<Rightarrow>
          if code = 429 \<or> code = 500 \<or> code = 502 \<or> code = 503 \<or> code = 504
          then SendError Transient (Some err) else SendError Permanent (Some err)
      | None \<Rightarrow> SendError Transient (Some err))"

lemma IsTransient_classify:
  "IsTransient (classifyGoogleErr e) \<longleftrightarrow>
     (as_api_error e = None \<or> as_api_error e \<in> Some ` {429, 500, 502, 503, 504})"
  by (auto simp: classifyGoogleErr_def IsTransient_def split: option.splits)

section \<open>The alias cache\<close>

record api_sender =
  mailbox :: bytes
  refreshInterval :: duration
  allowedSend :: "bytes set"
  lastRefresh :: time
  lastErr :: bytes

definition canonicalAddr :: "(bytes \<Rightarrow> bytes option) \<Rightarrow> bytes \<Rightarrow> bytes" where
  "canonicalAddr parse v =
     (let v = trim_space v in
      if v = [] then []
      else case parse v of
             Some addr \<Rightarrow> trim_space addr
           | None \<Rightarrow> trim_cut {CHR ''<'', CHR ''>''} v)"

text \<open>The key an address has in the cache.\<close>

definition alias_key :: "(bytes \<Rightarrow> bytes option) \<Rightarrow> bytes \<Rightarrow> bytes" where
  "alias_key parse v = to_lower (canonicalAddr parse v)"

definition setAliasError :: "go_error \<Rightarrow> api_sender \<Rightarrow> api_sender" where
  "setAliasError err s = s\<lparr>lastErr := error_text err\<rparr>"

text \<open>The loop over the entries of the response.\<close>

fun add_aliases :: "(bytes \<Rightarrow> bytes option) \<Rightarrow> bytes list \<Rightarrow> bytes set \<Rightarrow> bytes set" where
  "add_aliases parse [] allowed = allowed"
| "add_aliases parse (entry # entries) allowed =
     (let addr = canonicalAddr parse entry in
      if addr = [] then add_aliases parse entries allowed
      else add_aliases parse entries (insert (to_lower addr) allowed))"

definition refreshAliases ::
  "(bytes \<Rightarrow> bytes option) \<Rightarrow> time \<Rightarrow> go_error + bytes list \<Rightarrow> api_sender
   \<Rightarrow> go_error option \<times> api_sender" where
  "refreshAliases parse now resp s =
     (case resp of
        Inl err \<Rightarrow> (Some err, setAliasError err s)
      | Inr entries \<Rightarrow>
          (let allowed = add_aliases parse entries {to_lower (canonicalAddr parse (mailbox s))} in
           if allowed = {} then
             (let err = PlainError ''gmail send-as list is empty'' in (Some err, setAliasError err s))
           else (None, s\<lparr>allowedSend := allowed, lastRefresh := now, lastErr := []\<rparr>)))"

text \<open>\<open>now\<close> is the reading of \<open>time.Since\<close>, \<open>t_ref\<close> that of the refresh.\<close>

definition IsAllowedSender ::
  "(bytes \<Rightarrow> bytes option) \<Rightarrow> time \<Rightarrow> time \<Rightarrow> go_error + bytes list \<Rightarrow> bytes \<Rightarrow> api_sender
   \<Rightarrow> (go_error + bool) \<times> api_sender" where
  "IsAllowedSender parse now t_ref resp mailFrom s =
     (let addr = canonicalAddr parse mailFrom in
      if addr = [] then (Inr False, s)
      else if to_lower addr \<in> allowedSend s then (Inr True, s)
      else if refreshInterval s < now - lastRefresh s then
        (case refreshAliases parse t_ref resp s of
           (Some err, s) \<Rightarrow> (Inl err, s)
         | (None, s) \<Rightarrow> (Inr (to_lower addr \<in> allowedSend s), s))
      else (Inr False, s))"

definition AliasStatus :: "api_sender \<Rightarrow> int \<times> time \<times> bytes" where
  "AliasStatus s = (int (card (allowedSend s)), lastRefresh s, lastErr s)"

text \<open>One tick of \<open>RunAliasRefresh\<close>: the error is dropped.\<close>

definition alias_tick ::
  "(bytes \<Rightarrow> bytes option) \<Rightarrow> time \<Rightarrow> go_error + bytes list \<Rightarrow> api_sender \<Rightarrow> api_sender" where
  "alias_tick parse now resp s = snd (refreshAliases parse now resp s)"

record gmail_config =
  ClientID :: bytes
  ClientSecret :: bytes
  RefreshToken :: bytes
  Mailbox :: bytes

text \<open>
  \<open>NewAPISender\<close>: \<open>service\<close> is the outcome of \<open>gmail.NewService\<close>, \<open>resp\<close> the answer to the first
  alias refresh.
\<close>

definition NewAPISender ::
  "(bytes \<Rightarrow> bytes option) \<Rightarrow> time \<Rightarrow> go_error option \<Rightarrow> go_error + bytes list
   \<Rightarrow> gmail_config \<Rightarrow> duration \<Rightarrow> go_error + api_sender" where
  "NewAPISender parse now service resp cfg interval =
     (if trim_space (ClientID cfg) = [] \<or> trim_space (ClientSecret cfg) = []
         \<or> trim_space (RefreshToken cfg) = [] \<or> trim_space (Mailbox cfg) = []
      then Inl (PlainError ''gmail sender config is incomplete'')
      else if interval \<le> 0 then Inl (PlainError ''gmail alias refresh interval must be positive'')
      else case service of
             Some err \<Rightarrow> Inl (Wrapped ''create gmail service: '' err)
           | None \<Rightarrow>
               (case refreshAliases parse now resp
                       \<lparr>mailbox = Mailbox cfg, refreshInterval = interval, allowedSend = {},
                        lastRefresh = 0, lastErr = []\<rparr> of
                  (Some err, s) \<Rightarrow> Inl (Wrapped ''initial send-as refresh failed: '' err)
                | (None, s) \<Rightarrow> Inr s))"

section \<open>Sending\<close>

text \<open>
  \<open>Send\<close>: the error, if any, the new cache, and what was handed to the Gmail API, if
  anything was. The text of the policy error quotes the address without Go's escapes.
\<close>

definition Send ::
  "(bytes \<Rightarrow> bytes option) \<Rightarrow> time \<Rightarrow> time \<Rightarrow> go_error + bytes list \<Rightarrow> go_error option
   \<Rightarrow> bytes \<Rightarrow> bytes list \<Rightarrow> bytes \<Rightarrow> api_sender
   \<Rightarrow> go_error option \<times> bytes option \<times> api_sender" where
  "Send parse now t_ref resp outcome mailFrom recipients rfc822 s =
     (if recipients = [] then
        (Some (SendError Permanent (Some (PlainError ''message has no recipients''))), None, s)
      else
        (case IsAllowedSender parse now t_ref resp mailFrom s of
           (Inl err, s) \<Rightarrow>
             (Some (SendError Transient (Some (Wrapped ''send-as validation unavailable: '' err))), None, s)
         | (Inr allowed, s) \<Rightarrow>
             if \<not> allowed then
               (Some (SendError Permanent (Some (PlainError
                  (''mail from '' @ [CHR 0x22] @ mailFrom @ [CHR 0x22] @ '' is not allowed by send-as policy'')))),
                None, s)
             else
               (let raw = raw_url_encode rfc822 in
                case outcome of
                  Some err \<Rightarrow> (Some (classifyGoogleErr err), Some raw, s)
                | None \<Rightarrow> (None, Some raw, s))))"

section \<open>Lemmas\<close>

lemma add_aliases_eq:
  "add_aliases parse es A =
     A \<union> alias_key parse ` {e \<in> set es. canonicalAddr parse e \<noteq> []}"
  by (induction es arbitrary: A) (auto simp: alias_key_def Let_def)

text \<open>The mailbox is always in the list, so the empty-list error never occurs.\<close>

lemma refreshAliases_eq:
  "refreshAliases parse now resp s =
     (case resp of
        Inl err \<Rightarrow> (Some err, s\<lparr>lastErr := error_text err\<rparr>)
      | Inr es \<Rightarrow>
          (None, s\<lparr>allowedSend := insert (alias_key parse (mailbox s))
                     (alias_key parse ` {e \<in> set es. canonicalAddr parse e \<noteq> []}),
                   lastRefresh := now, lastErr := []\<rparr>))"
  by (auto simp: refreshAliases_def add_aliases_eq setAliasError_def alias_key_def Let_def
      split: sum.splits)

text \<open>An answer is always the cache's answer, after the refresh if one was due.\<close>

lemma IsAllowedSender_answer:
  "IsAllowedSender parse now t_ref resp from s = (Inr b, s') \<Longrightarrow>
     b \<longleftrightarrow> canonicalAddr parse from \<noteq> [] \<and> alias_key parse from \<in> allowedSend s'"
  by (auto simp: IsAllowedSender_def Let_def alias_key_def split: if_splits prod.splits option.splits)

lemma IsAllowedSender_error:
  "IsAllowedSender parse now t_ref resp from s = (Inl err, s') \<Longrightarrow>
     resp = Inl err \<and> allowedSend s' = allowedSend s \<and> lastRefresh s' = lastRefresh s
     \<and> refreshInterval s < now - lastRefresh s"
  by (auto simp: IsAllowedSender_def Let_def refreshAliases_eq split: if_splits prod.splits option.splits sum.splits)

section \<open>The cache over time\<close>

text \<open>What happens to the cache after its creation: a tick of \<open>RunAliasRefresh\<close> or an alias check,
  each with its clock readings and the answer Google would give to a listing.\<close>

datatype alias_event =
    AliasTick time "go_error + bytes list"
  | AliasCheck time time "go_error + bytes list" bytes

fun alias_answer :: "alias_event \<Rightarrow> go_error + bytes list" where
  "alias_answer (AliasTick now resp) = resp"
| "alias_answer (AliasCheck now t_ref resp from) = resp"

fun run_alias :: "(bytes \<Rightarrow> bytes option) \<Rightarrow> alias_event list \<Rightarrow> api_sender \<Rightarrow> api_sender" where
  "run_alias parse [] s = s"
| "run_alias parse (AliasTick now resp # evs) s = run_alias parse evs (alias_tick parse now resp s)"
| "run_alias parse (AliasCheck now t_ref resp from # evs) s =
     run_alias parse evs (snd (IsAllowedSender parse now t_ref resp from s))"

text \<open>The keys of the addresses in a listing, with that of the mailbox.\<close>

definition listed :: "(bytes \<Rightarrow> bytes option) \<Rightarrow> bytes \<Rightarrow> bytes list \<Rightarrow> bytes set" where
  "listed parse mb es = insert (alias_key parse mb) (alias_key parse ` {e \<in> set es. canonicalAddr parse e \<noteq> []})"

text \<open>The cache is always one of the listings Google gave, and the mailbox is never forgotten.\<close>

definition cache_from ::
  "(bytes \<Rightarrow> bytes option) \<Rightarrow> bytes \<Rightarrow> (go_error + bytes list) set \<Rightarrow> api_sender \<Rightarrow> bool" where
  "cache_from parse mb answers s \<longleftrightarrow>
     mailbox s = mb \<and> (\<exists>es. Inr es \<in> answers \<and> allowedSend s = listed parse mb es)"

lemma cache_from_mono: "cache_from parse mb A s \<Longrightarrow> A \<subseteq> B \<Longrightarrow> cache_from parse mb B s"
  by (auto simp: cache_from_def)

lemma cache_from_refresh:
  assumes "cache_from parse mb A s" and "refreshAliases parse now resp s = (e, s')"
  shows "cache_from parse mb (insert resp A) s'"
  using assms by (auto simp: cache_from_def refreshAliases_eq listed_def split: sum.splits)

lemma cache_from_check:
  assumes "cache_from parse mb A s" and "IsAllowedSender parse now t_ref resp mfrom s = (b, s')"
  shows "cache_from parse mb (insert resp A) s'"
proof -
  have k: "cache_from parse mb (insert resp A) s" using assms(1) by (rule cache_from_mono) auto
  show ?thesis
    using assms(2) k cache_from_refresh [OF assms(1)]
    by (auto simp: IsAllowedSender_def Let_def split: if_splits prod.splits option.splits)
qed

lemma cache_from_new:
  assumes "NewAPISender parse now sv resp gc interval = Inr s"
  shows "cache_from parse (Mailbox gc) {resp} s"
  using assms
  by (auto simp: NewAPISender_def refreshAliases_eq cache_from_def listed_def
      split: if_splits option.splits sum.splits)

lemma cache_from_run:
  assumes "cache_from parse mb A s"
  shows "cache_from parse mb (A \<union> alias_answer ` set evs) (run_alias parse evs s)"
  using assms
proof (induction evs arbitrary: s A)
  case (Cons ev evs)
  obtain s' where s': "run_alias parse (ev # evs) s = run_alias parse evs s'"
    and c: "cache_from parse mb (insert (alias_answer ev) A) s'"
  proof (cases ev)
    case (AliasTick now resp)
    obtain e t where r: "refreshAliases parse now resp s = (e, t)" by fastforce
    show ?thesis
      by (rule that [of t]) (use AliasTick r cache_from_refresh [OF Cons.prems r] in \<open>simp_all add: alias_tick_def\<close>)
  next
    case (AliasCheck now t_ref resp mfrom)
    obtain b t where r: "IsAllowedSender parse now t_ref resp mfrom s = (b, t)" by fastforce
    show ?thesis
      by (rule that [of t]) (use AliasCheck r cache_from_check [OF Cons.prems r] in simp_all)
  qed
  show ?case unfolding s' using Cons.IH [OF c] by simp
qed simp

end
