(* ===== verification/Smtp_Session.thy ===== *)
theory Smtp_Session
  imports Auth_Limit Queue_Spec Gmail_Sender
begin

text \<open>
  The SMTP session of internal/smtp/server.go: the connection's reader and writer, the
  address and command parsers, the reading of message data, one definition per command, the
  command dispatcher \<open>handleCommand\<close> and the connection loop \<open>handleConn\<close>.

  A connection is the bytes the peer will send in the clear (\<open>rd\<close>), the bytes it will send
  inside TLS once a handshake succeeds (\<open>tls_rd\<close>), and the outcomes of the flushes to come
  (\<open>flush_oks\<close>, all successful once the list is used up; a failed writer stays failed). What
  the code asks of the outside world during one command is a \<open>cmd_env\<close>.
\<close>

section \<open>State\<close>

record session =
  remote :: "bytes option"
  isTLS :: bool
  greeted :: bool
  authed :: bool
  authFailures :: int
  mailFrom :: bytes
  rcptTo :: "bytes list"
  rd :: bytes
  tls_rd :: bytes
  flush_oks :: "bool list"
  wbuf :: "bytes list"
  out :: "bytes list"

datatype conn_error = WriteError | ReadError | HandshakeError | QuitEOF | SlicePanic

text \<open>The parts of \<open>Server\<close> a command reads and writes.\<close>

record ('q, 'a) server =
  authState :: auth_state
  queue :: 'q
  aliases :: 'a

text \<open>
  What the server was built with: the store and the alias authorizer (\<open>None\<close> for a nil
  interface), and \<open>mail.ParseAddress\<close>.
\<close>

record ('q, 'a) deps =
  store :: "'q store_ops"
  aliasAuth :: "('a \<Rightarrow> bytes \<Rightarrow> (go_error + bool) \<times> 'a) option"
  parse_addr :: "bytes \<Rightarrow> bytes option"

text \<open>
  One command's view of the clock (one reading per call of \<open>time.Now\<close>), of the random source
  (\<open>None\<close> when it fails) and of the TLS handshake.
\<close>

record cmd_env =
  t_ip :: time
  t_user :: time
  t_fail :: time
  t_id :: time
  t_msg :: time
  t_enq :: time
  rnd :: "bytes option"
  handshake_ok :: bool

section \<open>Reading and writing\<close>

definition sess_write :: "bytes \<Rightarrow> session \<Rightarrow> session" where
  "sess_write msg s = s\<lparr>wbuf := wbuf s @ [msg]\<rparr>"

definition flush_error :: "session \<Rightarrow> conn_error option" where
  "flush_error s = (case flush_oks s of False # _ \<Rightarrow> Some WriteError | _ \<Rightarrow> None)"

definition flushed :: "session \<Rightarrow> session" where
  "flushed s =
     (case flush_oks s of
        False # _ \<Rightarrow> s
      | oks \<Rightarrow> s\<lparr>flush_oks := tl oks, out := out s @ wbuf s, wbuf := []\<rparr>)"

text \<open>\<open>session.write\<close> and then \<open>flush\<close>, the error being that of the flush.\<close>

definition reply_error :: "bytes \<Rightarrow> session \<Rightarrow> conn_error option" where
  "reply_error msg s = flush_error (sess_write msg s)"

definition replied :: "bytes \<Rightarrow> session \<Rightarrow> session" where
  "replied msg s = flushed (sess_write msg s)"

definition read_string :: "session \<Rightarrow> bytes option \<times> session" where
  "read_string s =
     (case read_line (rd s) of
        None \<Rightarrow> (None, s\<lparr>rd := []\<rparr>)
      | Some (l, rest) \<Rightarrow> (Some l, s\<lparr>rd := rest\<rparr>))"

definition resetEnvelope :: "session \<Rightarrow> session" where
  "resetEnvelope s = s\<lparr>mailFrom := [], rcptTo := []\<rparr>"

text \<open>\<open>remoteIP\<close>\<close>

definition remoteIP :: "session \<Rightarrow> bytes" where
  "remoteIP s =
     (case remote s of
        None \<Rightarrow> []
      | Some addr \<Rightarrow> (case split_host_port addr of None \<Rightarrow> addr | Some host \<Rightarrow> host))"

lemma sess_write_fields [simp]:
  "remote (sess_write m s) = remote s" "isTLS (sess_write m s) = isTLS s" "greeted (sess_write m s) = greeted s"
  "authed (sess_write m s) = authed s" "authFailures (sess_write m s) = authFailures s"
  "mailFrom (sess_write m s) = mailFrom s" "rcptTo (sess_write m s) = rcptTo s" "rd (sess_write m s) = rd s"
  "tls_rd (sess_write m s) = tls_rd s" "flush_oks (sess_write m s) = flush_oks s" "out (sess_write m s) = out s"
  "wbuf (sess_write m s) = wbuf s @ [m]"
  by (simp_all add: sess_write_def)

lemma flushed_fields [simp]:
  "remote (flushed s) = remote s" "isTLS (flushed s) = isTLS s" "greeted (flushed s) = greeted s"
  "authed (flushed s) = authed s" "authFailures (flushed s) = authFailures s"
  "mailFrom (flushed s) = mailFrom s" "rcptTo (flushed s) = rcptTo s" "rd (flushed s) = rd s"
  "tls_rd (flushed s) = tls_rd s"
  by (simp_all add: flushed_def split: list.split bool.split)

lemma replied_fields [simp]:
  "remote (replied m s) = remote s" "isTLS (replied m s) = isTLS s" "greeted (replied m s) = greeted s"
  "authed (replied m s) = authed s" "authFailures (replied m s) = authFailures s"
  "mailFrom (replied m s) = mailFrom s" "rcptTo (replied m s) = rcptTo s" "rd (replied m s) = rd s"
  "tls_rd (replied m s) = tls_rd s"
  by (simp_all add: replied_def)

lemma resetEnvelope_fields [simp]:
  "remote (resetEnvelope s) = remote s" "isTLS (resetEnvelope s) = isTLS s"
  "greeted (resetEnvelope s) = greeted s" "authed (resetEnvelope s) = authed s"
  "authFailures (resetEnvelope s) = authFailures s" "mailFrom (resetEnvelope s) = []"
  "rcptTo (resetEnvelope s) = []" "rd (resetEnvelope s) = rd s" "tls_rd (resetEnvelope s) = tls_rd s"
  "flush_oks (resetEnvelope s) = flush_oks s" "out (resetEnvelope s) = out s"
  "wbuf (resetEnvelope s) = wbuf s"
  by (simp_all add: resetEnvelope_def)

lemma read_string_fields:
  assumes "read_string s = (l, s')"
  shows "s' = s\<lparr>rd := rd s'\<rparr>"
  using assms by (auto simp: read_string_def split: option.splits)

section \<open>Parsing commands and addresses\<close>

definition splitCommand :: "bytes \<Rightarrow> bytes \<times> bytes" where
  "splitCommand line =
     (let parts = split_two (CHR '' '') line;
          verb = to_upper (trim_space (hd parts))
      in if length parts = 1 then (verb, []) else (verb, trim_space (parts ! 1)))"

text \<open>\<open>extractAddress\<close>: \<open>None\<close> is the panic of a slice that starts past the end.\<close>

definition extractAddress :: "bytes \<Rightarrow> nat \<Rightarrow> bytes option" where
  "extractAddress args prefixLen =
     (if length args < prefixLen then None
      else
        let s = trim_space (drop prefixLen args);
            fallback = (case str_fields s of
                          [] \<Rightarrow> []
                        | part # _ \<Rightarrow> trim_cut {CHR ''<'', CHR ''>''} part)
        in if s = [] then Some []
           else if s ! 0 = CHR ''<'' then
             (case index_byte (CHR ''>'') s of
                Some e \<Rightarrow> Some (take (e - 1) (drop 1 s))
              | None \<Rightarrow> Some fallback)
           else Some fallback)"

definition isValidAddress :: "(bytes \<Rightarrow> bytes option) \<Rightarrow> bytes \<Rightarrow> bool" where
  "isValidAddress parse addr = (if addr = [] then False else parse addr \<noteq> None)"

section \<open>Reading message data\<close>

definition minInt64 :: "int \<Rightarrow> int \<Rightarrow> int" where
  "minInt64 a b = (if a < b then a else b)"

definition is_dot :: "bytes \<Rightarrow> bool" where
  "is_dot line \<longleftrightarrow> trim_right_cut {CR, LF} line = ''.''"

text \<open>The inner loop of \<open>consumeData\<close>: skip to the end of an oversized message.\<close>

function skip_data :: "bytes \<Rightarrow> bytes option" where
  "skip_data inp =
     (case read_line inp of
        None \<Rightarrow> None
      | Some (line, rest) \<Rightarrow> if is_dot line then Some rest else skip_data rest)"
  by pat_completeness auto
termination
  by (relation "measure length") (auto dest: read_line_Some(3))

declare skip_data.simps [simp del]

definition unstuff :: "bytes \<Rightarrow> bytes" where
  "unstuff line = (if prefix ''..'' line then drop 1 line else line)"

text \<open>
  The outer loop, over the bytes still to come: \<open>None\<close> is a read error, otherwise the payload
  (empty for the nil of an oversized message), the size, and the bytes after the message.
\<close>

function consume_loop :: "int \<Rightarrow> bytes \<Rightarrow> int \<Rightarrow> bytes \<Rightarrow> (bytes \<times> int \<times> bytes) option" where
  "consume_loop maxBytes buf tot inp =
     (case read_line inp of
        None \<Rightarrow> None
      | Some (line, rest) \<Rightarrow>
          if is_dot line then Some (buf, tot, rest)
          else
            (let line = unstuff line;
                 tot = tot + int (length line)
             in if tot \<le> maxBytes then consume_loop maxBytes (buf @ line) tot rest
                else map_option (\<lambda>rest. ([], tot, rest)) (skip_data rest)))"
  by pat_completeness auto
termination
  by (relation "measure (\<lambda>(maxBytes, buf, tot, inp). length inp)") (auto dest: read_line_Some(3))

declare consume_loop.simps [simp del]

definition consumeData :: "int \<Rightarrow> session \<Rightarrow> (bytes \<times> int) option \<times> session" where
  "consumeData maxBytes s =
     (case consume_loop maxBytes [] 0 (rd s) of
        None \<Rightarrow> (None, s\<lparr>rd := []\<rparr>)
      | Some (payload, sz, rest) \<Rightarrow> (Some (payload, sz), s\<lparr>rd := rest\<rparr>))"

text \<open>\<open>UnixNano\<close>: nanoseconds since 1970, 719162 days after the zero time.\<close>

definition unix_nano :: "time \<Rightarrow> int" where
  "unix_nano t = t - 719162 * 86400 * second"

definition newMessageID :: "cmd_env \<Rightarrow> bytes" where
  "newMessageID env =
     (case rnd env of
        None \<Rightarrow> ''msg-'' @ show_int (unix_nano (t_id env))
      | Some b \<Rightarrow> hex_encode b)"

section \<open>The end mark and the lines of a message\<close>

lemma is_dot_iff: "is_dot l \<longleftrightarrow> (\<exists>w. l = CHR ''.'' # w \<and> set w \<subseteq> {CR, LF})"
proof
  assume "is_dot l"
  then have "dropWhile (\<lambda>c. c \<in> {CR, LF}) (rev l) = ''.''"
    by (simp add: is_dot_def trim_right_cut_def rev_swap)
  moreover have "takeWhile (\<lambda>c. c \<in> {CR, LF}) (rev l) @ dropWhile (\<lambda>c. c \<in> {CR, LF}) (rev l) = rev l"
    by (rule takeWhile_dropWhile_id)
  ultimately have "rev l = takeWhile (\<lambda>c. c \<in> {CR, LF}) (rev l) @ ''.''" by simp
  then have "l = CHR ''.'' # rev (takeWhile (\<lambda>c. c \<in> {CR, LF}) (rev l))"
    by (simp add: rev_swap)
  moreover have "set (takeWhile (\<lambda>c. c \<in> {CR, LF}) (rev l)) \<subseteq> {CR, LF}"
    using set_takeWhileD by fast
  ultimately show "\<exists>w. l = CHR ''.'' # w \<and> set w \<subseteq> {CR, LF}" by (metis set_rev)
next
  assume "\<exists>w. l = CHR ''.'' # w \<and> set w \<subseteq> {CR, LF}"
  then obtain w where l: "l = CHR ''.'' # w" and w: "\<forall>c\<in>set (rev w). c \<in> {CR, LF}" by auto
  have "dropWhile (\<lambda>c. c \<in> {CR, LF}) (rev w @ ''.'') = ''.''"
    by (rule dropWhile_append_stop [OF w]) simp
  then show "is_dot l" by (simp add: is_dot_def trim_right_cut_def l)
qed

text \<open>A line of a message: text without a line feed, then a line feed.\<close>

definition is_line :: "bytes \<Rightarrow> bool" where
  "is_line l \<longleftrightarrow> l \<noteq> [] \<and> last l = LF \<and> LF \<notin> set (butlast l)"

lemma is_line_iff: "is_line l \<longleftrightarrow> (\<exists>t. l = t @ [LF] \<and> LF \<notin> set t)"
proof
  assume "is_line l"
  then show "\<exists>t. l = t @ [LF] \<and> LF \<notin> set t"
    by (metis append_butlast_last_id is_line_def)
qed (auto simp: is_line_def)

lemma read_line_is_line: "is_line l \<Longrightarrow> read_line (l @ rest) = Some (l, rest)"
  by (auto simp: is_line_iff read_line_append)

lemma read_line_gives_line: "read_line s = Some (l, rest) \<Longrightarrow> is_line l"
  using read_line_Some(2) by (simp add: is_line_iff)

text \<open>Dot stuffing as RFC 5321 section 4.5.2 asks of the client.\<close>

definition stuff :: "bytes \<Rightarrow> bytes" where
  "stuff l = (if prefix ''.'' l then CHR ''.'' # l else l)"

lemma unstuff_stuff [simp]: "unstuff (stuff l) = l"
  by (cases l) (auto simp: stuff_def unstuff_def)

lemma is_line_stuff [simp]: "is_line l \<Longrightarrow> is_line (stuff l)"
  by (auto simp: is_line_def stuff_def)

lemma stuff_not_dot [simp]: "is_line l \<Longrightarrow> \<not> is_dot (stuff l)"
  by (cases l) (auto simp: is_dot_iff stuff_def is_line_def)

definition end_of_data :: bytes where
  "end_of_data = ''.'' @ crlf"

lemma end_of_data_line [simp]: "is_line end_of_data" "is_dot end_of_data"
  by (auto simp: end_of_data_def is_line_def is_dot_iff crlf_def)

text \<open>What a client sends for a message of these lines, with the end mark \<open>e\<close>.\<close>

definition wire :: "bytes list \<Rightarrow> bytes \<Rightarrow> bytes" where
  "wire ls e = concat (map stuff ls) @ e"

lemma wire_Nil [simp]: "wire [] e = e"
  by (simp add: wire_def)

lemma wire_Cons [simp]: "wire (l # ls) e = stuff l @ wire ls e"
  by (simp add: wire_def)

lemma skip_data_wire:
  assumes "\<forall>l\<in>set ls. is_line l" and "is_line e" and "is_dot e"
  shows "skip_data (wire ls e @ rest) = Some rest"
  using assms(1)
proof (induction ls)
  case Nil
  with assms show ?case by (simp add: skip_data.simps [of "e @ _"] read_line_is_line)
next
  case (Cons l ls)
  then show ?case by (simp add: skip_data.simps [of "stuff l @ _"] read_line_is_line)
qed

text \<open>A message within the limit arrives as it was, and the stream stands right after it.\<close>

lemma consume_loop_wire:
  assumes "\<forall>l\<in>set ls. is_line l" and "is_line e" and "is_dot e" and "t + int (length (concat ls)) \<le> n"
  shows "consume_loop n buf t (wire ls e @ rest)
    = Some (buf @ concat ls, t + int (length (concat ls)), rest)"
  using assms(1,4)
proof (induction ls arbitrary: buf t)
  case Nil
  with assms(2,3) show ?case
    by (simp add: consume_loop.simps [of _ _ _ "e @ _"] read_line_is_line)
next
  case (Cons l ls)
  then have "t + int (length l) \<le> n" by simp
  with Cons show ?case
    by (simp add: consume_loop.simps [of _ _ _ "stuff l @ _"] read_line_is_line)
qed

text \<open>A message over the limit is dropped, its size is reported as too large, and the stream
  still stands right after it.\<close>

lemma consume_loop_oversized:
  assumes "\<forall>l\<in>set ls. is_line l" and "is_line e" and "is_dot e"
    and "t \<le> n" and "n < t + int (length (concat ls))"
  shows "\<exists>sz. n < sz \<and> consume_loop n buf t (wire ls e @ rest) = Some ([], sz, rest)"
  using assms(1,4,5)
proof (induction ls arbitrary: buf t)
  case (Cons l ls)
  show ?case
  proof (cases "t + int (length l) \<le> n")
    case True
    with Cons show ?thesis
      by (simp add: consume_loop.simps [of _ _ _ "stuff l @ _"] read_line_is_line)
  next
    case False
    with Cons.prems skip_data_wire [OF _ assms(2,3), of ls rest] show ?thesis
      by (simp add: consume_loop.simps [of _ _ _ "stuff l @ _"] read_line_is_line)
  qed
qed simp

text \<open>On any input: a payload is as long as its size says and within the limit.\<close>

lemma consume_loop_size:
  assumes "consume_loop n buf t inp = Some (p, sz, rest)" and "int (length buf) = t" and "t \<le> n"
  shows "sz \<le> n \<and> int (length p) = sz \<or> n < sz \<and> p = []"
  using assms
proof (induction n buf t inp rule: consume_loop.induct)
  case (1 n buf t inp)
  from "1.prems"(1) obtain l more where r: "read_line inp = Some (l, more)"
    by (auto simp: consume_loop.simps [of _ _ _ inp] split: option.splits)
  show ?case
  proof (cases "is_dot l")
    case True
    with "1.prems" r show ?thesis by (simp add: consume_loop.simps [of _ _ _ inp])
  next
    case False
    show ?thesis
    proof (cases "t + int (length (unstuff l)) \<le> n")
      case True
      with "1.prems" r False "1.IH" [OF r refl False refl refl True] show ?thesis
        by (simp add: consume_loop.simps [of _ _ _ inp] Let_def)
    next
      case big: False
      with "1.prems" r False show ?thesis
        by (auto simp: consume_loop.simps [of _ _ _ inp])
    qed
  qed
qed

lemma consumeData_size:
  assumes "consumeData n s = (Some (p, sz), s')" and "0 \<le> n"
  shows "sz \<le> n \<and> int (length p) = sz \<or> n < sz \<and> p = []"
  using assms consume_loop_size [of n "[]" 0 "rd s" p sz]
  by (auto simp: consumeData_def split: option.splits)

lemma consumeData_fields:
  assumes "consumeData n s = (r, s')"
  shows "s' = s\<lparr>rd := rd s'\<rparr>"
  using assms by (auto simp: consumeData_def split: option.splits)

section \<open>Slices stay in range\<close>

lemma prefix_upper_length: "prefix p (to_upper args) \<Longrightarrow> length p \<le> length args"
  using prefix_length_le length_to_upper order_trans by blast

lemma extractAddress_Some:
  "n \<le> length args \<Longrightarrow> \<exists>a. extractAddress args n = Some a"
  by (auto simp: extractAddress_def Let_def split: option.splits)

text \<open>An address in angle brackets is taken as it stands, whatever follows it.\<close>

lemma extractAddress_bracket:
  assumes "length pre = n" and "CHR ''>'' \<notin> set a" and "params = [] \<or> solid (last params)"
  shows "extractAddress (pre @ CHR ''<'' # a @ CHR ''>'' # params) n = Some a"
proof -
  let ?s = "CHR ''<'' # a @ CHR ''>'' # params"
  have "solid (CHR ''<'')" "solid (CHR ''>'')" by (simp_all add: solid_def space_runes_def)
  then have t: "trim_space ?s = ?s"
    using assms(3) by (intro trim_space_solid) auto
  have "index_byte (CHR ''>'') ?s = Some (length (CHR ''<'' # a))"
    using index_byte_append [of "CHR ''>''" "CHR ''<'' # a" params] assms(2) by simp
  then show ?thesis
    using assms(1) by (simp add: extractAddress_def t)
qed

text \<open>A verb, a space and arguments.\<close>

lemma splitCommand_args:
  assumes "CHR '' '' \<notin> set v" and "v = [] \<or> solid (hd v) \<and> solid (last v)"
    and "a = [] \<or> solid (hd a) \<and> solid (last a)"
  shows "splitCommand (v @ CHR '' '' # a) = (to_upper v, a)"
  using assms by (simp add: splitCommand_def split_two_append trim_space_solid)

lemma splitCommand_verb:
  assumes "CHR '' '' \<notin> set v" and "v = [] \<or> solid (hd v) \<and> solid (last v)"
  shows "splitCommand v = (to_upper v, [])"
  using assms by (simp add: splitCommand_def split_two_none trim_space_solid)

end
