(* ===== verification/Smtp_Commands.thy ===== *)
theory Smtp_Commands
  imports Smtp_Session
begin

text \<open>
  The commands of internal/smtp/server.go, one definition per branch of \<open>handleCommand\<close> and of
  \<open>handleAuth\<close>, the dispatcher, and the connection loop. A command returns the error that makes
  the loop close the connection, if any, and the new session and server.
\<close>

section \<open>Greetings\<close>

definition ehlo_lines :: "config \<Rightarrow> bool \<Rightarrow> bytes list" where
  "ehlo_lines cfg tls =
     [ln (''250-'' @ SMTPHostname cfg)]
     @ (if \<not> tls then [ln ''250-STARTTLS''] else [])
     @ [ln (''250-SIZE '' @ show_int (SMTPMaxMessageBytes cfg)), ln ''250-8BITMIME'', ln ''250-PIPELINING'']
     @ (if tls then [ln ''250-AUTH PLAIN LOGIN''] else [])
     @ [ln ''250 HELP'']"

definition write_all :: "bytes list \<Rightarrow> session \<Rightarrow> session" where
  "write_all ms s = s\<lparr>wbuf := wbuf s @ ms\<rparr>"

definition cmd_ehlo :: "config \<Rightarrow> session \<Rightarrow> ('q, 'a) server \<Rightarrow> conn_error option \<times> session \<times> ('q, 'a) server" where
  [cmd_defs]: "cmd_ehlo cfg s w =
     (let s = resetEnvelope (s\<lparr>greeted := True\<rparr>);
          s = write_all (ehlo_lines cfg (isTLS s)) s
      in (flush_error s, flushed s, w))"

definition cmd_helo :: "config \<Rightarrow> session \<Rightarrow> ('q, 'a) server \<Rightarrow> conn_error option \<times> session \<times> ('q, 'a) server" where
  [cmd_defs]: "cmd_helo cfg s w =
     (let s = resetEnvelope (s\<lparr>greeted := True\<rparr>);
          msg = ln (''250 '' @ SMTPHostname cfg)
      in (reply_error msg s, replied msg s, w))"

text \<open>A reply that ends its command.\<close>

definition answer :: "bytes \<Rightarrow> session \<Rightarrow> ('q, 'a) server \<Rightarrow> conn_error option \<times> session \<times> ('q, 'a) server" where
  [cmd_defs]: "answer msg s w = (reply_error (ln msg) s, replied (ln msg) s, w)"

section \<open>STARTTLS\<close>

text \<open>
  After the handshake the session reads what the peer sends inside TLS; the bytes the old
  reader still holds are dropped with it. The new writer starts with an empty buffer.
\<close>

definition cmd_starttls :: "cmd_env \<Rightarrow> session \<Rightarrow> ('q, 'a) server \<Rightarrow> conn_error option \<times> session \<times> ('q, 'a) server" where
  [cmd_defs]: "cmd_starttls env s w =
     (if isTLS s then answer ''454 tls already active'' s w
      else
        (let msg = ln ''220 ready to start tls'';
             s' = replied msg s
         in case reply_error msg s of
              Some e \<Rightarrow> (Some e, s', w)
            | None \<Rightarrow>
                if \<not> handshake_ok env then (Some HandshakeError, s', w)
                else (None, resetEnvelope (s'\<lparr>rd := tls_rd s', tls_rd := [], wbuf := [], isTLS := True,
                                              greeted := False, authed := False\<rparr>), w)))"

section \<open>AUTH\<close>

definition blocked_text :: "int \<Rightarrow> bytes" where
  "blocked_text wait =
     ''454 authentication temporarily blocked, retry in '' @ show_int wait @ '' seconds''"

text \<open>The end of both mechanisms, once the user name and the password are known.\<close>

definition auth_check ::
  "config \<Rightarrow> cmd_env \<Rightarrow> bytes \<Rightarrow> bytes \<Rightarrow> session \<Rightarrow> ('q, 'a) server
   \<Rightarrow> conn_error option \<times> session \<times> ('q, 'a) server" where
  [cmd_defs]: "auth_check cfg env username password s w =
     (case authBlocked (authState w) (user_key username) (t_user env) of
        (True, wait) \<Rightarrow> answer (blocked_text wait) s w
      | (False, _) \<Rightarrow>
          if \<not> ValidateCredentials cfg username password then
            answer ''535 authentication failed''
              (s\<lparr>authFailures := authFailures s + 1\<rparr>)
              (w\<lparr>authState := recordAuthFailure cfg (authState w) username (remoteIP s) (t_fail env)\<rparr>)
          else
            answer ''235 authentication successful''
              (s\<lparr>authFailures := 0, authed := True\<rparr>)
              (w\<lparr>authState := clearAuthState (authState w) (user_key username)\<rparr>))"

text \<open>A challenge and the line that answers it.\<close>

definition prompt :: "bytes \<Rightarrow> session \<Rightarrow> (conn_error + bytes) \<times> session" where
  "prompt msg s =
     (let s' = replied (ln msg) s in
      case reply_error (ln msg) s of
        Some e \<Rightarrow> (Inl e, s')
      | None \<Rightarrow>
          (case read_string s' of
             (None, s') \<Rightarrow> (Inl ReadError, s')
           | (Some line, s') \<Rightarrow> (Inr (trim_space line), s')))"

definition auth_plain_payload ::
  "config \<Rightarrow> cmd_env \<Rightarrow> bytes \<Rightarrow> session \<Rightarrow> ('q, 'a) server
   \<Rightarrow> conn_error option \<times> session \<times> ('q, 'a) server" where
  [cmd_defs]: "auth_plain_payload cfg env payload s w =
     (case std_decode payload of
        None \<Rightarrow> answer ''535 authentication failed'' s w
      | Some decoded \<Rightarrow>
          (let segments = split_byte NUL decoded in
           if length segments < 3 then answer ''535 authentication failed'' s w
           else auth_check cfg env (segments ! 1) (segments ! 2) s w))"

definition auth_plain ::
  "config \<Rightarrow> cmd_env \<Rightarrow> bytes list \<Rightarrow> session \<Rightarrow> ('q, 'a) server
   \<Rightarrow> conn_error option \<times> session \<times> ('q, 'a) server" where
  [cmd_defs]: "auth_plain cfg env parts s w =
     (if 1 < length parts then auth_plain_payload cfg env (parts ! 1) s w
      else
        (case prompt ''334 '' s of
           (Inl e, s) \<Rightarrow> (Some e, s, w)
         | (Inr payload, s) \<Rightarrow> auth_plain_payload cfg env payload s w))"

definition auth_login ::
  "config \<Rightarrow> cmd_env \<Rightarrow> session \<Rightarrow> ('q, 'a) server
   \<Rightarrow> conn_error option \<times> session \<times> ('q, 'a) server" where
  [cmd_defs]: "auth_login cfg env s w =
     (case prompt ''334 VXNlcm5hbWU6'' s of
        (Inl e, s) \<Rightarrow> (Some e, s, w)
      | (Inr userLine, s) \<Rightarrow>
          (case std_decode userLine of
             None \<Rightarrow> answer ''535 authentication failed'' s w
           | Some username \<Rightarrow>
               (case prompt ''334 UGFzc3dvcmQ6'' s of
                  (Inl e, s) \<Rightarrow> (Some e, s, w)
                | (Inr passLine, s) \<Rightarrow>
                    (case std_decode passLine of
                       None \<Rightarrow> answer ''535 authentication failed'' s w
                     | Some password \<Rightarrow> auth_check cfg env username password s w))))"

definition handleAuth ::
  "config \<Rightarrow> cmd_env \<Rightarrow> bytes \<Rightarrow> session \<Rightarrow> ('q, 'a) server
   \<Rightarrow> conn_error option \<times> session \<times> ('q, 'a) server" where
  [cmd_defs]: "handleAuth cfg env args s w =
     (let parts = str_fields args in
      if parts = [] then answer ''501 syntax: AUTH mechanism [initial-response]'' s w
      else
        (let mech = to_upper (hd parts) in
         if mech = ''PLAIN'' then auth_plain cfg env parts s w
         else if mech = ''LOGIN'' then auth_login cfg env s w
         else answer ''504 unsupported authentication mechanism'' s w))"

definition cmd_auth ::
  "config \<Rightarrow> cmd_env \<Rightarrow> bytes \<Rightarrow> session \<Rightarrow> ('q, 'a) server
   \<Rightarrow> conn_error option \<times> session \<times> ('q, 'a) server" where
  [cmd_defs]: "cmd_auth cfg env args s w =
     (if \<not> isTLS s \<and> SMTPRequireTLS587 cfg then answer ''530 must issue STARTTLS first'' s w
      else if \<not> greeted s then answer ''503 send EHLO/HELO first'' s w
      else if 3 \<le> authFailures s then answer ''454 too many auth failures on this connection'' s w
      else
        (case authBlocked (authState w) (ip_key (remoteIP s)) (t_ip env) of
           (True, wait) \<Rightarrow> answer (blocked_text wait) s w
         | (False, _) \<Rightarrow> handleAuth cfg env args s w))"

section \<open>MAIL and RCPT\<close>

text \<open>A panic of a slice expression.\<close>

definition panic :: "session \<Rightarrow> ('q, 'a) server \<Rightarrow> conn_error option \<times> session \<times> ('q, 'a) server" where
  [cmd_defs]: "panic s w = (Some SlicePanic, s, w)"

definition accept_sender ::
  "bytes \<Rightarrow> session \<Rightarrow> ('q, 'a) server \<Rightarrow> conn_error option \<times> session \<times> ('q, 'a) server" where
  [cmd_defs]: "accept_sender addr s w = answer ''250 sender ok'' (s\<lparr>mailFrom := addr\<rparr>) w"

definition check_alias ::
  "('q, 'a) deps \<Rightarrow> bytes \<Rightarrow> session \<Rightarrow> ('q, 'a) server
   \<Rightarrow> conn_error option \<times> session \<times> ('q, 'a) server" where
  [cmd_defs]: "check_alias dps addr s w =
     (case aliasAuth dps of
        None \<Rightarrow> accept_sender addr s w
      | Some isAllowedSender \<Rightarrow>
          (case isAllowedSender (aliases w) addr of
             (Inl checkErr, a) \<Rightarrow>
               answer ''454 sender policy temporarily unavailable'' s (w\<lparr>aliases := a\<rparr>)
           | (Inr allowed, a) \<Rightarrow>
               if \<not> allowed then
                 answer ''550 sender not allowed by mailbox alias policy'' s (w\<lparr>aliases := a\<rparr>)
               else accept_sender addr s (w\<lparr>aliases := a\<rparr>)))"

definition cmd_mail ::
  "config \<Rightarrow> ('q, 'a) deps \<Rightarrow> bytes \<Rightarrow> session \<Rightarrow> ('q, 'a) server
   \<Rightarrow> conn_error option \<times> session \<times> ('q, 'a) server" where
  [cmd_defs]: "cmd_mail cfg dps args s w =
     (if \<not> greeted s then answer ''503 send EHLO/HELO first'' s w
      else if \<not> authed s then answer ''530 authentication required'' s w
      else if mailFrom s \<noteq> [] then answer ''503 nested MAIL not allowed'' s w
      else if \<not> prefix ''FROM:'' (to_upper args) then answer ''501 syntax: MAIL FROM:<address>'' s w
      else
        (case extractAddress args 5 of
           None \<Rightarrow> panic s w
         | Some addr \<Rightarrow>
             if addr = [] \<or> \<not> isValidAddress (parse_addr dps) addr then
               answer ''553 invalid sender address'' s w
             else if \<not> AllowedSenderPattern cfg addr then answer ''550 sender not allowed'' s w
             else check_alias dps addr s w))"

definition cmd_rcpt ::
  "config \<Rightarrow> ('q, 'a) deps \<Rightarrow> bytes \<Rightarrow> session \<Rightarrow> ('q, 'a) server
   \<Rightarrow> conn_error option \<times> session \<times> ('q, 'a) server" where
  [cmd_defs]: "cmd_rcpt cfg dps args s w =
     (if mailFrom s = [] then answer ''503 need MAIL FROM first'' s w
      else if \<not> prefix ''TO:'' (to_upper args) then answer ''501 syntax: RCPT TO:<address>'' s w
      else if SMTPMaxRecipients cfg \<le> int (length (rcptTo s)) then answer ''452 too many recipients'' s w
      else
        (case extractAddress args 3 of
           None \<Rightarrow> panic s w
         | Some addr \<Rightarrow>
             if addr = [] \<or> \<not> isValidAddress (parse_addr dps) addr then
               answer ''553 invalid recipient address'' s w
             else answer ''250 recipient ok'' (s\<lparr>rcptTo := rcptTo s @ [addr]\<rparr>) w))"

section \<open>DATA\<close>

definition data_message :: "cmd_env \<Rightarrow> bytes \<Rightarrow> session \<Rightarrow> message" where
  "data_message env payload s =
     \<lparr>ID = newMessageID env, MailFrom = mailFrom s, Recipients = rcptTo s, Data = payload,
      MsgAttempts = 0, CreatedAt = t_msg env, UpdatedAt = 0\<rparr>"

text \<open>Replies whose flush error is dropped.\<close>

definition answer_quietly ::
  "bytes \<Rightarrow> session \<Rightarrow> ('q, 'a) server \<Rightarrow> conn_error option \<times> session \<times> ('q, 'a) server" where
  [cmd_defs]: "answer_quietly msg s w = (None, replied (ln msg) s, w)"

text \<open>The part after the 354 reply.\<close>

definition data_body ::
  "config \<Rightarrow> ('q, 'a) deps \<Rightarrow> cmd_env \<Rightarrow> session \<Rightarrow> ('q, 'a) server
   \<Rightarrow> conn_error option \<times> session \<times> ('q, 'a) server" where
  [cmd_defs]: "data_body cfg dps env s w =
     (case consumeData (SMTPMaxMessageBytes cfg) s of
        (None, s) \<Rightarrow> answer_quietly ''451 transient local error'' s w
      | (Some (payload, sz), s) \<Rightarrow>
          if SMTPMaxMessageBytes cfg < sz then
            (None, resetEnvelope (replied (ln ''552 message size exceeds fixed maximum message size'') s), w)
          else
            (case op_Enqueue (store dps) (t_enq env) (data_message env payload s) (queue w) of
               (Some err, q) \<Rightarrow> answer_quietly ''451 transient local error'' s (w\<lparr>queue := q\<rparr>)
             | (None, q) \<Rightarrow>
                 (None, resetEnvelope (replied (ln ''250 queued for delivery'') s), w\<lparr>queue := q\<rparr>)))"

definition cmd_data ::
  "config \<Rightarrow> ('q, 'a) deps \<Rightarrow> cmd_env \<Rightarrow> session \<Rightarrow> ('q, 'a) server
   \<Rightarrow> conn_error option \<times> session \<times> ('q, 'a) server" where
  [cmd_defs]: "cmd_data cfg dps env s w =
     (if mailFrom s = [] \<or> rcptTo s = [] then answer ''503 need MAIL FROM and RCPT TO first'' s w
      else
        (case op_BacklogCount (store dps) (queue w) of
           (Inl err, q) \<Rightarrow> answer ''451 transient local error'' s (w\<lparr>queue := q\<rparr>)
         | (Inr pendingCount, q) \<Rightarrow>
             if QueueMaxBacklog cfg \<le> pendingCount then
               answer ''421 service temporarily unavailable, queue backlog limit reached'' s (w\<lparr>queue := q\<rparr>)
             else
               (let msg = ln ''354 end data with <CR><LF>.<CR><LF>'' in
                case reply_error msg s of
                  Some e \<Rightarrow> (Some e, replied msg s, w\<lparr>queue := q\<rparr>)
                | None \<Rightarrow> data_body cfg dps env (replied msg s) (w\<lparr>queue := q\<rparr>))))"

section \<open>The dispatcher\<close>

definition handleCommand ::
  "config \<Rightarrow> ('q, 'a) deps \<Rightarrow> cmd_env \<Rightarrow> bytes \<Rightarrow> session \<Rightarrow> ('q, 'a) server
   \<Rightarrow> conn_error option \<times> session \<times> ('q, 'a) server" where
  "handleCommand cfg dps env raw s w =
     (let (verb, args) = splitCommand raw in
      if verb = ''EHLO'' then cmd_ehlo cfg s w
      else if verb = ''HELO'' then cmd_helo cfg s w
      else if verb = ''STARTTLS'' then cmd_starttls env s w
      else if verb = ''AUTH'' then cmd_auth cfg env args s w
      else if verb = ''MAIL'' then cmd_mail cfg dps args s w
      else if verb = ''RCPT'' then cmd_rcpt cfg dps args s w
      else if verb = ''DATA'' then cmd_data cfg dps env s w
      else if verb = ''RSET'' then answer ''250 reset ok'' (resetEnvelope s) w
      else if verb = ''NOOP'' then answer ''250 ok'' s w
      else if verb = ''QUIT'' then (Some QuitEOF, replied (ln ''221 bye'') s, w)
      else answer ''502 command not implemented'' s w)"

section \<open>The connection loop\<close>

text \<open>
  \<open>ctx_done n\<close> and \<open>deadline_ok n\<close> are the outcomes of the two tests that start the iteration
  after \<open>n\<close> commands, \<open>env_cmd n\<close> the environment of command \<open>n\<close>.
\<close>

record conn_env =
  ctx_done :: "int \<Rightarrow> bool"
  deadline_ok :: "int \<Rightarrow> bool"
  env_cmd :: "int \<Rightarrow> cmd_env"

datatype close_reason =
    GreetingFailed | ShuttingDown | DeadlineFailed | StreamEnded | TooManyCommands
  | CommandFailed conn_error

function conn_loop ::
  "config \<Rightarrow> ('q, 'a) deps \<Rightarrow> conn_env \<Rightarrow> int \<Rightarrow> session \<Rightarrow> ('q, 'a) server
   \<Rightarrow> close_reason \<times> session \<times> ('q, 'a) server" where
  "conn_loop cfg dps ce commandCount s w =
     (if ctx_done ce commandCount then
        (ShuttingDown, replied (ln ''421 service shutting down'') s, w)
      else if \<not> deadline_ok ce commandCount then (DeadlineFailed, s, w)
      else
        (case read_string s of
           (None, s) \<Rightarrow> (StreamEnded, s, w)
         | (Some line, s) \<Rightarrow>
             if SMTPMaxCommandsPerSession cfg < commandCount + 1 then
               (TooManyCommands, replied (ln ''421 too many commands'') s, w)
             else if trim_space line = [] then
               conn_loop cfg dps ce (commandCount + 1) (replied (ln ''500 empty command'') s) w
             else
               (case handleCommand cfg dps (env_cmd ce (commandCount + 1)) (trim_space line) s w of
                  (Some e, s, w) \<Rightarrow> (CommandFailed e, s, w)
                | (None, s, w) \<Rightarrow> conn_loop cfg dps ce (commandCount + 1) s w)))"
  by pat_completeness auto
termination
  by (relation "measure (\<lambda>(cfg, dps, ce, n, s, w). nat (SMTPMaxCommandsPerSession cfg - n))") auto

declare conn_loop.simps [simp del]

text \<open>
  A new connection: its remote address, its bytes in the clear and inside TLS, and its flushes.
  With implicit TLS the handshake is done before the loop starts and only the TLS bytes count.
\<close>

definition new_session :: "bytes option \<Rightarrow> bool \<Rightarrow> bytes \<Rightarrow> bytes \<Rightarrow> bool list \<Rightarrow> session" where
  "new_session addr implicitTLS plain tls oks =
     \<lparr>remote = addr, isTLS = implicitTLS, greeted = False, authed = False, authFailures = 0,
      mailFrom = [], rcptTo = [], rd = (if implicitTLS then tls else plain),
      tls_rd = (if implicitTLS then [] else tls), flush_oks = oks, wbuf = [], out = []\<rparr>"

definition handleConn ::
  "config \<Rightarrow> ('q, 'a) deps \<Rightarrow> conn_env \<Rightarrow> session \<Rightarrow> ('q, 'a) server
   \<Rightarrow> close_reason \<times> session \<times> ('q, 'a) server" where
  "handleConn cfg dps ce s w =
     (let msg = ln (''220 '' @ SMTPHostname cfg @ '' ESMTP ready'') in
      if reply_error msg s \<noteq> None then (GreetingFailed, replied msg s, w)
      else conn_loop cfg dps ce 0 (replied msg s) w)"

end
