(* ===== verification/Session_Invariant.thy ===== *)
theory Session_Invariant
  imports Smtp_Commands
begin

text \<open>
  The invariant \<open>session_ok\<close> of an SMTP session, kept by every command, and the induction
  principle of the connection loop: what every command, every read and every reply of the loop
  keep holds when \<open>handleConn\<close> returns.
\<close>

section \<open>What input and output leave alone\<close>

text \<open>Two sessions in the same protocol state; they may differ in what was read and written.\<close>

definition same_state :: "session \<Rightarrow> session \<Rightarrow> bool" where
  "same_state s s' \<longleftrightarrow>
     remote s' = remote s \<and> isTLS s' = isTLS s \<and> greeted s' = greeted s \<and> authed s' = authed s
     \<and> authFailures s' = authFailures s \<and> mailFrom s' = mailFrom s \<and> rcptTo s' = rcptTo s
     \<and> tls_rd s' = tls_rd s"

lemma same_state_refl [simp]: "same_state s s"
  by (simp add: same_state_def)

lemma same_state_trans: "same_state a b \<Longrightarrow> same_state b c \<Longrightarrow> same_state a c"
  by (simp add: same_state_def)

lemma same_state_replied [simp]: "same_state s (replied m s)"
  by (simp add: same_state_def)

lemma same_state_read_string: "read_string s = (l, s') \<Longrightarrow> same_state s s'"
  by (auto simp: same_state_def read_string_def split: option.splits)

lemma same_state_consumeData: "consumeData n s = (r, s') \<Longrightarrow> same_state s s'"
  by (auto simp: same_state_def consumeData_def split: option.splits)

lemma same_state_prompt: "prompt m s = (r, s') \<Longrightarrow> same_state s s'"
  by (auto simp: prompt_def Let_def split: option.splits prod.splits
      dest!: same_state_read_string intro: same_state_trans [OF same_state_replied])

section \<open>The session invariant\<close>

definition session_ok :: "config \<Rightarrow> ('q, 'a) deps \<Rightarrow> session \<Rightarrow> bool" where
  "session_ok cfg dps s \<longleftrightarrow>
     (mailFrom s \<noteq> [] \<longrightarrow>
        greeted s \<and> authed s \<and> AllowedSenderPattern cfg (mailFrom s)
        \<and> isValidAddress (parse_addr dps) (mailFrom s))
     \<and> (rcptTo s \<noteq> [] \<longrightarrow> mailFrom s \<noteq> [])
     \<and> (rcptTo s = [] \<or> int (length (rcptTo s)) \<le> SMTPMaxRecipients cfg)
     \<and> (\<forall>r\<in>set (rcptTo s). isValidAddress (parse_addr dps) r)
     \<and> (SMTPRequireTLS587 cfg \<and> authed s \<longrightarrow> isTLS s)
     \<and> 0 \<le> authFailures s"

lemma session_ok_same: "same_state s s' \<Longrightarrow> session_ok cfg dps s' = session_ok cfg dps s"
  by (simp add: same_state_def session_ok_def)

lemma session_ok_new [simp]: "session_ok cfg dps (new_session addr tls p t oks)"
  by (simp add: session_ok_def new_session_def)

lemma session_ok_reset: "session_ok cfg dps s \<Longrightarrow> session_ok cfg dps (resetEnvelope s)"
  by (simp add: session_ok_def)

lemma session_ok_replied [simp]: "session_ok cfg dps (replied m s) = session_ok cfg dps s"
  by (rule session_ok_same) simp

lemma session_ok_updates:
  assumes "session_ok cfg dps s"
  shows session_ok_tls: "session_ok cfg dps (resetEnvelope (s\<lparr>rd := r, tls_rd := t, wbuf := b, isTLS := True,
      greeted := False, authed := False\<rparr>))"
    and session_ok_failed: "session_ok cfg dps (s\<lparr>authFailures := authFailures s + 1\<rparr>)"
    and session_ok_authed: "(SMTPRequireTLS587 cfg \<Longrightarrow> isTLS s)
      \<Longrightarrow> session_ok cfg dps (s\<lparr>authFailures := 0, authed := True\<rparr>)"
    and session_ok_greeted: "session_ok cfg dps (resetEnvelope (s\<lparr>greeted := True\<rparr>))"
    and session_ok_mail: "greeted s \<Longrightarrow> authed s \<Longrightarrow> AllowedSenderPattern cfg a
      \<Longrightarrow> isValidAddress (parse_addr dps) a \<Longrightarrow> a \<noteq> [] \<Longrightarrow> session_ok cfg dps (s\<lparr>mailFrom := a\<rparr>)"
    and session_ok_rcpt: "mailFrom s \<noteq> [] \<Longrightarrow> int (length (rcptTo s)) < SMTPMaxRecipients cfg
      \<Longrightarrow> isValidAddress (parse_addr dps) a \<Longrightarrow> session_ok cfg dps (s\<lparr>rcptTo := rcptTo s @ [a]\<rparr>)"
  using assms by (simp_all add: session_ok_def)

lemma answer_ok:
  "answer m s w = (e, s', w') \<Longrightarrow> session_ok cfg dps s \<Longrightarrow> session_ok cfg dps s'"
  by (auto simp: answer_def)

lemma auth_check_ok:
  assumes "auth_check cfg env u p s w = (e, s', w')" and "session_ok cfg dps s"
    and "SMTPRequireTLS587 cfg \<longrightarrow> isTLS s"
  shows "session_ok cfg dps s'"
proof -
  have "session_ok cfg dps (s\<lparr>authFailures := 0, authed := True\<rparr>)"
    by (rule session_ok_authed) (use assms in auto)
  then show ?thesis
    using assms(1,2) by (auto simp: auth_check_def answer_def session_ok_failed
        split: prod.splits bool.splits if_splits)
qed

lemma auth_plain_payload_ok:
  assumes "auth_plain_payload cfg env pl s w = (e, s', w')" and "session_ok cfg dps s"
    and "SMTPRequireTLS587 cfg \<longrightarrow> isTLS s"
  shows "session_ok cfg dps s'"
  using assms
  by (auto simp: auth_plain_payload_def Let_def split: option.splits if_splits intro: answer_ok auth_check_ok)

lemma prompt_ok:
  assumes "prompt m s = (r, s')" and "session_ok cfg dps s" and "SMTPRequireTLS587 cfg \<longrightarrow> isTLS s"
  shows "session_ok cfg dps s' \<and> (SMTPRequireTLS587 cfg \<longrightarrow> isTLS s')"
  using same_state_prompt [OF assms(1)] assms(2,3) session_ok_same by (auto simp: same_state_def)

lemma auth_plain_ok:
  assumes "auth_plain cfg env parts s w = (e, s', w')" and "session_ok cfg dps s"
    and "SMTPRequireTLS587 cfg \<longrightarrow> isTLS s"
  shows "session_ok cfg dps s'"
proof (cases "1 < length parts")
  case True
  then show ?thesis
    using assms auth_plain_payload_ok by (simp add: auth_plain_def)
next
  case False
  obtain r s1 where p: "prompt ''334 '' s = (r, s1)" by fastforce
  note ok = prompt_ok [OF p assms(2,3)]
  show ?thesis
    using assms(1) p False ok auth_plain_payload_ok [of cfg env _ s1 w e s' w' dps]
    by (cases r) (auto simp: auth_plain_def)
qed

lemma auth_login_ok:
  assumes "auth_login cfg env s w = (e, s', w')" and "session_ok cfg dps s"
    and "SMTPRequireTLS587 cfg \<longrightarrow> isTLS s"
  shows "session_ok cfg dps s'"
proof -
  obtain r s1 where p: "prompt ''334 VXNlcm5hbWU6'' s = (r, s1)" by fastforce
  note ok1 = prompt_ok [OF p assms(2,3)]
  obtain r' s2 where p': "prompt ''334 UGFzc3dvcmQ6'' s1 = (r', s2)" by fastforce
  note ok2 = prompt_ok [OF p' conjunct1 [OF ok1] conjunct2 [OF ok1]]
  show ?thesis
    using assms(1) p p' ok1 ok2 auth_check_ok [of cfg env _ _ s2 w e s' w' dps]
      answer_ok [of _ s1 w e s' w' cfg dps] answer_ok [of _ s2 w e s' w' cfg dps]
    by (cases r; cases r') (auto simp: auth_login_def split: option.splits)
qed

lemma handleAuth_ok:
  assumes "handleAuth cfg env args s w = (e, s', w')" and "session_ok cfg dps s"
    and "SMTPRequireTLS587 cfg \<longrightarrow> isTLS s"
  shows "session_ok cfg dps s'"
  using assms(1) answer_ok [OF _ assms(2)] auth_plain_ok [OF _ assms(2,3)] auth_login_ok [OF _ assms(2,3)]
  by (auto simp: handleAuth_def Let_def split: if_splits)

lemma cmd_auth_ok:
  assumes "cmd_auth cfg env args s w = (e, s', w')" and "session_ok cfg dps s"
  shows "session_ok cfg dps s'"
  using assms
  by (auto simp: cmd_auth_def split: if_splits prod.splits bool.splits intro: answer_ok handleAuth_ok)

lemma cmd_mail_ok:
  assumes "cmd_mail cfg dps args s w = (e, s', w')" and "session_ok cfg dps s"
  shows "session_ok cfg dps s'"
  using assms
  by (auto simp: cmd_mail_def check_alias_def accept_sender_def panic_def answer_def session_ok_mail
      split: if_splits option.splits prod.splits sum.splits)

lemma cmd_rcpt_ok:
  assumes "cmd_rcpt cfg dps args s w = (e, s', w')" and "session_ok cfg dps s"
  shows "session_ok cfg dps s'"
  using assms
  by (auto simp: cmd_rcpt_def panic_def answer_def session_ok_rcpt split: if_splits option.splits)

lemma data_body_ok:
  assumes "data_body cfg dps env s w = (e, s', w')" and "session_ok cfg dps s"
  shows "session_ok cfg dps s'"
proof -
  obtain r s1 where c: "consumeData (SMTPMaxMessageBytes cfg) s = (r, s1)" by fastforce
  then have "session_ok cfg dps s1"
    using assms(2) session_ok_same same_state_consumeData by blast
  then show ?thesis
    using assms(1) c
    by (auto simp: data_body_def answer_quietly_def split: prod.splits option.splits if_splits
        intro!: session_ok_reset)
qed

lemma cmd_data_ok:
  assumes "cmd_data cfg dps env s w = (e, s', w')" and "session_ok cfg dps s"
  shows "session_ok cfg dps s'"
  using assms
  by (auto simp: cmd_data_def Let_def split: if_splits prod.splits sum.splits option.splits
      intro: answer_ok data_body_ok)

lemma cmd_starttls_ok:
  assumes "cmd_starttls env s w = (e, s', w')" and "session_ok cfg dps s"
  shows "session_ok cfg dps s'"
  using assms
  by (auto simp: cmd_starttls_def Let_def answer_def session_ok_tls split: if_splits option.splits)

lemma handleCommand_ok:
  assumes "handleCommand cfg dps env raw s w = (e, s', w')" and "session_ok cfg dps s"
  shows "session_ok cfg dps s'"
proof -
  have w: "session_ok cfg dps (flushed (write_all ms s))" if "session_ok cfg dps s" for ms s
    using that session_ok_same [of s "flushed (write_all ms s)" cfg dps] by (simp add: write_all_def same_state_def)
  have "session_ok cfg dps s'" if "cmd_ehlo cfg s w = (e, s', w')"
    using that assms(2) by (auto simp: cmd_ehlo_def Let_def session_ok_greeted w)
  moreover have "session_ok cfg dps s'" if "cmd_helo cfg s w = (e, s', w')"
    using that assms(2) by (auto simp: cmd_helo_def session_ok_greeted Let_def)
  ultimately show ?thesis
    using assms
    by (auto simp: handleCommand_def Let_def split: prod.splits if_splits
        intro: cmd_starttls_ok cmd_auth_ok cmd_mail_ok cmd_rcpt_ok cmd_data_ok answer_ok session_ok_reset)
qed

lemma read_string_ok: "read_string s = (l, s') \<Longrightarrow> session_ok cfg dps s' = session_ok cfg dps s"
  by (intro session_ok_same same_state_read_string)

section \<open>Invariants of the connection loop\<close>

text \<open>What every command keeps, and reading a line and the loop's own replies keep, the whole
  connection keeps.\<close>

lemma conn_loop_invariant:
  assumes "conn_loop cfg dps ce n s w = (why, s', w')" and "P s w"
    and cmd: "\<And>k raw s w e s' w'. P s w \<Longrightarrow> handleCommand cfg dps (env_cmd ce k) raw s w = (e, s', w') \<Longrightarrow> P s' w'"
    and rd: "\<And>s w l s'. P s w \<Longrightarrow> read_string s = (l, s') \<Longrightarrow> P s' w"
    and rep: "\<And>s w m. P s w \<Longrightarrow> m \<in> {''421 service shutting down'', ''421 too many commands'', ''500 empty command''}
      \<Longrightarrow> P (replied (ln m) s) w"
  shows "P s' w'"
  using assms(1,2)
proof (induction "nat (SMTPMaxCommandsPerSession cfg - n)" arbitrary: n s w rule: less_induct)
  case less
  show ?case
  proof (cases "ctx_done ce n \<or> \<not> deadline_ok ce n")
    case True
    then show ?thesis
      using less.prems rep by (auto simp: conn_loop.simps [of cfg dps ce n s w] split: if_splits)
  next
    case go: False
    obtain l s1 where r: "read_string s = (l, s1)" by fastforce
    have P1: "P s1 w" by (rule rd [OF less.prems(2) r])
    show ?thesis
    proof (cases l)
      case None
      with less.prems(1) r go P1 show ?thesis by (auto simp: conn_loop.simps [of cfg dps ce n s w])
    next
      case (Some line)
      show ?thesis
      proof (cases "SMTPMaxCommandsPerSession cfg < n + 1")
        case True
        with less.prems(1) r go P1 Some rep show ?thesis by (auto simp: conn_loop.simps [of cfg dps ce n s w])
      next
        case more: False
        then have m: "nat (SMTPMaxCommandsPerSession cfg - (n + 1)) < nat (SMTPMaxCommandsPerSession cfg - n)"
          by simp
        show ?thesis
        proof (cases "trim_space line = []")
          case True
          then show ?thesis
            using less.prems(1) r go Some more less.hyps [OF m, of "replied (ln ''500 empty command'') s1" w] rep [OF P1]
            by (simp add: conn_loop.simps [of cfg dps ce n s w])
        next
          case False
          obtain e s2 w2 where h: "handleCommand cfg dps (env_cmd ce (n + 1)) (trim_space line) s1 w = (e, s2, w2)"
            using prod_cases3 by blast
          have P2: "P s2 w2" by (rule cmd [OF P1 h])
          show ?thesis
            using less.prems(1) r go Some more False h less.hyps [OF m _ P2] P2
            by (cases e) (auto simp: conn_loop.simps [of cfg dps ce n s w])
        qed
      qed
    qed
  qed
qed

lemma handleConn_invariant:
  assumes "handleConn cfg dps ce s w = (why, s', w')"
    and "P (replied (ln (''220 '' @ SMTPHostname cfg @ '' ESMTP ready'')) s) w"
    and "\<And>k raw s w e s' w'. P s w \<Longrightarrow> handleCommand cfg dps (env_cmd ce k) raw s w = (e, s', w') \<Longrightarrow> P s' w'"
    and "\<And>s w l s'. P s w \<Longrightarrow> read_string s = (l, s') \<Longrightarrow> P s' w"
    and "\<And>s w m. P s w \<Longrightarrow> m \<in> {''421 service shutting down'', ''421 too many commands'', ''500 empty command''}
      \<Longrightarrow> P (replied (ln m) s) w"
  shows "P s' w'"
  using assms(1,2) conn_loop_invariant [where P = P, OF _ _ assms(3-5)]
  by (auto simp: handleConn_def Let_def split: if_splits)

lemma handleConn_ok:
  assumes "handleConn cfg dps ce s w = (why, s', w')" and "session_ok cfg dps s"
  shows "session_ok cfg dps s'"
  by (rule handleConn_invariant [where P = "\<lambda>s w. session_ok cfg dps s", OF assms(1)])
    (auto simp: assms(2) read_string_ok dest: handleCommand_ok)

section \<open>What a connection depends on\<close>

text \<open>What happens around a command after the last one allowed makes no difference.\<close>

lemma conn_loop_env:
  assumes "\<And>k. n \<le> k \<Longrightarrow> k \<le> SMTPMaxCommandsPerSession cfg \<Longrightarrow>
      ctx_done ce k = ctx_done ce' k \<and> deadline_ok ce k = deadline_ok ce' k \<and> env_cmd ce k = env_cmd ce' k"
    and "n \<le> SMTPMaxCommandsPerSession cfg"
  shows "conn_loop cfg dps ce n s w = conn_loop cfg dps ce' n s w"
  using assms
proof (induction cfg dps ce n s w rule: conn_loop.induct)
  case (1 cfg dps ce n s w)
  have e: "ctx_done ce n = ctx_done ce' n" "deadline_ok ce n = deadline_ok ce' n" using 1 by auto
  have c: "env_cmd ce (n + 1) = env_cmd ce' (n + 1)" if "\<not> SMTPMaxCommandsPerSession cfg < n + 1"
    using that 1 by auto
  obtain l s1 where r: "read_string s = (l, s1)" by fastforce
  show ?case
  proof (cases l)
    case None
    then show ?thesis
      by (subst (1 2) conn_loop.simps) (simp add: e r)
  next
    case (Some line)
    show ?thesis
    proof (cases "ctx_done ce n \<or> \<not> deadline_ok ce n \<or> SMTPMaxCommandsPerSession cfg < n + 1")
      case True
      then show ?thesis by (subst (1 2) conn_loop.simps) (use e r Some in auto)
    next
      case False
      then have f: "\<not> ctx_done ce n" "deadline_ok ce n" "\<not> SMTPMaxCommandsPerSession cfg < n + 1" by auto
      show ?thesis
      proof (cases "trim_space line = []")
        case True
        then show ?thesis
          using 1(1) [OF f(1) _ r [symmetric] Some f(3) True] 1(3) f e r Some
          by (subst (1 2) conn_loop.simps) simp
      next
        case ne: False
        obtain er s2 w2 where h: "handleCommand cfg dps (env_cmd ce (n + 1)) (trim_space line) s1 w = (er, s2, w2)"
          by (metis prod_cases3)
        show ?thesis
          using 1(2) [OF f(1) _ r [symmetric] Some f(3) ne h [symmetric]] 1(3) f e r Some ne h c [OF f(3)]
          by (subst (1 2) conn_loop.simps) (cases er; simp)
      qed
    qed
  qed
qed

end
