(* ===== verification/Sqlite_Store.thy ===== *)
theory Sqlite_Store
  imports Queue_Spec
begin

text \<open>
  The SQLite store implements the queue interface: the abstraction \<open>db_view\<close>, the table
  invariant \<open>db_ok\<close>, one lemma per operation, and the interpretation of \<open>queue_store\<close>.
\<close>

section \<open>Abstraction and invariant\<close>

definition entry_of :: "row \<Rightarrow> entry" where
  "entry_of r =
     \<lparr>e_from = mail_from r,
      e_rcpts = (case json_unmarshal (recipients_json r) of None \<Rightarrow> [] | Some rs \<Rightarrow> rs),
      e_data = rfc822 r, e_status = status r, e_attempts = attempts r\<rparr>"

definition find_row :: "bytes \<Rightarrow> row list \<Rightarrow> row option" where
  "find_row i rs = find (\<lambda>r. row_id r = i) rs"

definition db_view :: "db \<Rightarrow> queue_view" where
  "db_view d i = map_option entry_of (find_row i (rows d))"

text \<open>A row the claim's decoder accepts, with a non-empty envelope and body.\<close>

definition row_ok :: "row \<Rightarrow> bool" where
  "row_ok r \<longleftrightarrow>
     row_id r \<noteq> [] \<and> mail_from r \<noteq> [] \<and> rfc822 r \<noteq> [] \<and> 0 \<le> attempts r
     \<and> (case json_unmarshal (recipients_json r) of None \<Rightarrow> False | Some rs \<Rightarrow> rs \<noteq> [])
     \<and> parse_RFC3339 (created_at r) \<noteq> None \<and> parse_RFC3339 (updated_at r) \<noteq> None
     \<and> parse_RFC3339 (next_attempt_at r) \<noteq> None"

definition db_ok :: "db \<Rightarrow> bool" where
  "db_ok d \<longleftrightarrow> distinct (map row_id (rows d)) \<and> (\<forall>r\<in>set (rows d). row_ok r)"

lemma find_row_Nil [simp]: "find_row i [] = None"
  by (simp add: find_row_def)

lemma find_row_Cons [simp]: "find_row i (r # rs) = (if row_id r = i then Some r else find_row i rs)"
  by (simp add: find_row_def)

lemma find_row_append: "find_row i (rs @ qs) = (case find_row i rs of None \<Rightarrow> find_row i qs | Some r \<Rightarrow> Some r)"
  by (induction rs) auto

lemma find_row_None: "find_row i rs = None \<longleftrightarrow> i \<notin> row_id ` set rs"
  by (induction rs) auto

lemma find_row_in: "find_row i rs = Some r \<Longrightarrow> r \<in> set rs \<and> row_id r = i"
  by (induction rs) (auto split: if_splits)

lemma find_row_distinct:
  "distinct (map row_id rs) \<Longrightarrow> r \<in> set rs \<Longrightarrow> find_row (row_id r) rs = Some r"
  by (induction rs) (auto simp: image_iff)

lemma find_row_update:
  assumes "\<And>r. row_id (f r) = row_id r"
  shows "find_row i (update_where p f rs) = map_option (\<lambda>r. if p r then f r else r) (find_row i rs)"
  by (induction rs) (auto simp: update_where_def assms)

text \<open>In a table with distinct ids, rows and ids correspond.\<close>

lemma ids_where:
  assumes "distinct (map row_id rs)"
  shows "{i. \<exists>r. find_row i rs = Some r \<and> p r} = row_id ` set (filter p rs)"
proof (intro subset_antisym subsetI)
  fix i
  assume "i \<in> {i. \<exists>r. find_row i rs = Some r \<and> p r}"
  then obtain r where "find_row i rs = Some r" "p r" by blast
  then show "i \<in> row_id ` set (filter p rs)" using find_row_in [of i rs r] by auto
next
  fix i
  assume "i \<in> row_id ` set (filter p rs)"
  then obtain r where "r \<in> set rs" "p r" "i = row_id r" by auto
  then show "i \<in> {i. \<exists>r. find_row i rs = Some r \<and> p r}"
    using find_row_distinct [OF assms] by blast
qed

lemma card_ids_where:
  assumes "distinct (map row_id rs)"
  shows "int (card {i. \<exists>r. find_row i rs = Some r \<and> p r}) = count_where p rs"
proof -
  have "distinct (map row_id (filter p rs))" using assms by (rule distinct_map_filter)
  then have "card (set (map row_id (filter p rs))) = length (filter p rs)"
    by (metis distinct_card length_map)
  then show ?thesis by (simp add: ids_where [OF assms] count_where_def)
qed

lemma finite_db_view: "finite (dom (db_view d))"
proof (rule finite_subset)
  show "dom (db_view d) \<subseteq> row_id ` set (rows d)"
    using find_row_in by (fastforce simp: db_view_def)
qed simp

lemma db_call_rows [simp]: "db_call d = (b, d') \<Longrightarrow> rows d' = rows d"
  by (auto simp: db_call_def split: list.splits)

lemma db_view_cong: "rows d' = rows d \<Longrightarrow> db_view d' = db_view d"
  by (rule ext) (simp add: db_view_def)

lemma db_ok_cong: "rows d' = rows d \<Longrightarrow> db_ok d' = db_ok d"
  by (simp add: db_ok_def)

lemma RFC3339_parses: "valid_time t \<Longrightarrow> parse_RFC3339 (RFC3339Nano t) \<noteq> None"
  by (simp add: parse_RFC3339_format)

section \<open>Updates\<close>

text \<open>An update that keeps ids and rows well formed keeps the table well formed.\<close>

lemma db_ok_update:
  assumes "db_ok d" and "\<And>r. row_id (f r) = row_id r" and "\<And>r. row_ok r \<Longrightarrow> row_ok (f r)"
  shows "db_ok (d\<lparr>rows := update_where p f (rows d)\<rparr>)"
proof -
  have "map row_id (update_where p f rs) = map row_id rs" for rs
    by (induction rs) (auto simp: update_where_def assms(2))
  moreover have "\<forall>r\<in>set (update_where p f (rows d)). row_ok r"
    using assms(1,3) by (auto simp: update_where_def db_ok_def)
  ultimately show ?thesis using assms(1) by (simp add: db_ok_def)
qed

lemma exec_update_cases:
  assumes "exec_update p f d = (res, d')"
  shows "(res = Inl DBError \<and> rows d' = rows d)
    \<or> (res = Inr (count_where p (rows d)) \<and> rows d' = update_where p f (rows d))"
  using assms by (auto simp: exec_update_def split: prod.splits bool.splits)

text \<open>The rows with one id, in a table with distinct ids.\<close>

lemma db_view_update:
  assumes "rows d' = update_where p f (rows d)" and "\<And>r. row_id (f r) = row_id r"
  shows "db_view d' i = map_option (\<lambda>r. entry_of (if p r then f r else r)) (find_row i (rows d))"
  by (simp add: db_view_def assms(1) find_row_update [OF assms(2)] option.map_comp comp_def)

lemma mark_law:
  assumes "db_ok d"
    and "exec_error (exec_update (\<lambda>r. row_id r = i) f d) = (res, d')"
    and ids: "\<And>r. row_id (f r) = row_id r" and oks: "\<And>r. row_ok r \<Longrightarrow> row_ok (f r)"
    and st: "\<And>r. entry_of (f r) = (entry_of r)\<lparr>e_status := s\<rparr>"
  shows "db_ok d' \<and> db_view d' = (if res = None then set_status i s (db_view d) else db_view d)"
proof -
  obtain r where e: "exec_update (\<lambda>r. row_id r = i) f d = (r, d')"
    and res: "res = (case r of Inl e \<Rightarrow> Some e | Inr _ \<Rightarrow> None)"
    using assms(2) by (auto simp: exec_error_def split: prod.splits sum.splits)
  from exec_update_cases [OF e] show ?thesis
  proof
    assume "r = Inl DBError \<and> rows d' = rows d"
    then show ?thesis using assms(1) res db_view_cong [of d' d] db_ok_cong [of d' d] by simp
  next
    assume *: "r = Inr (count_where (\<lambda>r. row_id r = i) (rows d))
      \<and> rows d' = update_where (\<lambda>r. row_id r = i) f (rows d)"
    then have "db_ok d' = db_ok (d\<lparr>rows := update_where (\<lambda>r. row_id r = i) f (rows d)\<rparr>)"
      by (intro db_ok_cong) simp
    moreover have "db_view d' = set_status i s (db_view d)"
    proof
      fix k
      have v: "db_view d' k = map_option (\<lambda>r. entry_of (if row_id r = i then f r else r)) (find_row k (rows d))"
        using * by (intro db_view_update ids) simp
      show "db_view d' k = set_status i s (db_view d) k"
      proof (cases "find_row k (rows d)")
        case None
        then show ?thesis unfolding v by (auto simp: set_status_def db_view_def)
      next
        case (Some r)
        then have "row_id r = k" using find_row_in by blast
        with Some show ?thesis unfolding v by (auto simp: set_status_def db_view_def st)
      qed
    qed
    ultimately show ?thesis using * res db_ok_update [OF assms(1) ids oks] by simp
  qed
qed

section \<open>The laws\<close>

lemma Enqueue_law:
  assumes "db_ok d" and "valid_time now" and "valid_msg m" and "Enqueue now m d = (r, d')"
  shows "db_ok d' \<and> (case r of
      None \<Rightarrow> db_view d (ID m) = None \<and> complete m \<and> db_view d' = (db_view d)(ID m \<mapsto> new_entry m)
    | Some e \<Rightarrow> db_view d' = db_view d)"
proof (cases r)
  case (Some e)
  then have "rows d' = rows d"
    using assms(4) by (auto simp: Enqueue_def Let_def split: if_splits prod.splits bool.splits)
  with Some show ?thesis using assms(1) db_view_cong [of d' d] db_ok_cong [of d' d] by simp
next
  case None
  define created where "created = (if CreatedAt m = 0 then now else CreatedAt m)"
  define updated where "updated = (if UpdatedAt m = 0 then created else UpdatedAt m)"
  define new where "new = \<lparr>row_id = ID m, mail_from = MailFrom m,
    recipients_json = json_marshal (Recipients m), rfc822 = Data m, status = Pending, attempts = 0,
    next_attempt_at = RFC3339Nano created, last_error = [],
    created_at = RFC3339Nano created, updated_at = RFC3339Nano updated\<rparr>"
  have d': "rows d' = rows d @ [new]" and fresh: "ID m \<notin> row_id ` set (rows d)" and c: "complete m"
    using assms(4) None
    by (auto simp: Enqueue_def Let_def complete_def new_def created_def updated_def
        split: if_splits prod.splits bool.splits)
  have times: "valid_time created" "valid_time updated"
    using assms(2,3) by (auto simp: created_def updated_def valid_msg_def)
  have "row_ok new"
    using c times by (simp add: row_ok_def new_def complete_def json_unmarshal_marshal RFC3339_parses)
  then have ok: "db_ok d'"
    using assms(1) fresh d' by (simp add: db_ok_def) (simp add: new_def)
  have old: "db_view d (ID m) = None" using fresh by (simp add: db_view_def find_row_None)
  have "db_view d' = (db_view d)(ID m \<mapsto> new_entry m)"
  proof
    fix k
    show "db_view d' k = ((db_view d)(ID m \<mapsto> new_entry m)) k"
      using old
      by (auto simp: db_view_def d' find_row_append new_def entry_of_def new_entry_def
          json_unmarshal_marshal split: option.splits)
  qed
  with None ok old c show ?thesis by simp
qed

lemma BacklogCount_law:
  assumes "db_ok d" and "BacklogCount d = (r, d')"
  shows "db_ok d' \<and> db_view d' = db_view d \<and> (\<forall>n. r = Inr n \<longrightarrow> n = backlog_size (db_view d))"
proof -
  have rows: "rows d' = rows d" and r: "\<And>n. r = Inr n \<Longrightarrow> n = count_where in_backlog (rows d)"
    using assms(2) by (auto simp: BacklogCount_def split: prod.splits bool.splits)
  have dist: "distinct (map row_id (rows d))" using assms(1) by (simp add: db_ok_def)
  have "waiting (db_view d) = {i. \<exists>r. find_row i (rows d) = Some r \<and> in_backlog r}"
    by (auto simp: waiting_def db_view_def in_backlog_def entry_of_def)
  then have "backlog_size (db_view d) = count_where in_backlog (rows d)"
    unfolding backlog_size_def by (simp only: card_ids_where [OF dist])
  then show ?thesis using assms(1) rows r db_view_cong [OF rows] db_ok_cong [OF rows] by simp
qed

lemma MarkSent_law:
  assumes "db_ok d" and "valid_time now" and "MarkSent i now d = (r, d')"
  shows "db_ok d' \<and> db_view d' = (if r = None then set_status i Sent (db_view d) else db_view d)"
  by (rule mark_law [OF assms(1) assms(3) [unfolded MarkSent_def]])
    (use assms(2) in \<open>auto simp: row_ok_def entry_of_def RFC3339_parses\<close>)

lemma MarkRetry_law:
  assumes "db_ok d" and "valid_time now" and "valid_time t" and "MarkRetry i t err now d = (r, d')"
  shows "db_ok d' \<and> db_view d' = (if r = None then set_status i Pending (db_view d) else db_view d)"
  by (rule mark_law [OF assms(1) assms(4) [unfolded MarkRetry_def]])
    (use assms(2,3) in \<open>auto simp: row_ok_def entry_of_def RFC3339_parses\<close>)

lemma MarkFailed_law:
  assumes "db_ok d" and "valid_time now" and "MarkFailed i err now d = (r, d')"
  shows "db_ok d' \<and> db_view d' = (if r = None then set_status i Failed (db_view d) else db_view d)"
  by (rule mark_law [OF assms(1) assms(3) [unfolded MarkFailed_def]])
    (use assms(2) in \<open>auto simp: row_ok_def entry_of_def RFC3339_parses\<close>)

text \<open>The claimed row is one of the due rows, and the oldest of them by text.\<close>

lemma oldest_in: "oldest rs = Some r \<Longrightarrow> r \<in> set rs \<and> (\<forall>q\<in>set rs. created_at r \<le> created_at q)"
proof (induction rs arbitrary: r)
  case (Cons a rs)
  then show ?case
    by (cases "oldest rs") (auto split: if_splits intro: order_trans, cases rs, auto split: option.splits if_splits)
qed simp

lemma oldest_None: "oldest rs = None \<longleftrightarrow> rs = []"
  by (cases rs) (auto split: option.splits)

lemma next_due_Some:
  assumes "next_due now rs = Some r"
  shows "r \<in> set rs \<and> due now r \<and> (\<forall>q\<in>set rs. due now q \<longrightarrow> created_at r \<le> created_at q)"
  using oldest_in [of "filter (due now) rs" r] assms by (auto simp: next_due_def)

lemma scan_row_Inr:
  assumes "scan_row r = Inr m"
  shows "ID m = row_id r \<and> MailFrom m = mail_from r \<and> json_unmarshal (recipients_json r) = Some (Recipients m)
    \<and> Data m = rfc822 r \<and> MsgAttempts m = attempts r"
  using assms by (auto simp: scan_row_def split: option.splits)

lemma scan_row_ok: "row_ok r \<Longrightarrow> \<exists>m. scan_row r = Inr m"
  by (auto simp: row_ok_def scan_row_def split: option.splits)

text \<open>With distinct ids the update of a claim always affects exactly the selected row.\<close>

lemma count_where_one:
  assumes "distinct (map row_id rs)" and "r \<in> set rs" and "p r"
  shows "count_where (\<lambda>q. row_id q = row_id r \<and> p q) rs = 1"
proof -
  have "find_row (row_id r) rs = Some r" by (rule find_row_distinct [OF assms(1,2)])
  moreover have "i = row_id q" if "find_row i rs = Some q" for i q
    using find_row_in [OF that] by simp
  ultimately have "{i. \<exists>q. find_row i rs = Some q \<and> row_id q = row_id r \<and> p q} = {row_id r}"
    using assms(3) by blast
  then have "int (card {i. \<exists>q. find_row i rs = Some q \<and> row_id q = row_id r \<and> p q}) = 1" by simp
  then show ?thesis by (simp only: card_ids_where [OF assms(1)])
qed

text \<open>
  What a claim that returns a message did: it took the oldest due row, decoded it and moved
  it to \<open>processing\<close>.
\<close>

definition claim_row :: "time \<Rightarrow> bytes \<Rightarrow> row list \<Rightarrow> row list" where
  "claim_row now i =
     update_where (\<lambda>q. row_id q = i \<and> status q = Pending)
       (\<lambda>q. q\<lparr>status := Processing, attempts := attempts q + 1, updated_at := RFC3339Nano now\<rparr>)"

lemma ClaimNextPending_rows:
  assumes "ClaimNextPending now d = (r, d')"
  shows "(case r of
      Inr (Some m) \<Rightarrow> (\<exists>q m0. next_due now (rows d) = Some q \<and> scan_row q = Inr m0
        \<and> m = m0\<lparr>MsgAttempts := MsgAttempts m0 + 1, UpdatedAt := now\<rparr>
        \<and> rows d' = claim_row now (row_id q) (rows d))
    | _ \<Rightarrow> rows d' = rows d)"
  using assms
  by (auto simp: ClaimNextPending_def exec_update_def claim_row_def
      split: prod.splits bool.splits option.splits sum.splits if_splits
      dest: db_call_rows scan_row_Inr)

lemma claim_view:
  assumes "db_ok d" and "q \<in> set (rows d)" and "status q = Pending" and "rows d' = claim_row now (row_id q) (rows d)"
  shows "db_view d' = (db_view d)(row_id q \<mapsto> claimed (entry_of q))"
proof
  fix k
  have q: "find_row (row_id q) (rows d) = Some q"
    using assms(1,2) by (simp add: db_ok_def find_row_distinct)
  have v: "db_view d' k = map_option (\<lambda>r. entry_of (if row_id r = row_id q \<and> status r = Pending
      then r\<lparr>status := Processing, attempts := attempts r + 1, updated_at := RFC3339Nano now\<rparr> else r))
      (find_row k (rows d))"
    by (rule db_view_update [OF assms(4) [unfolded claim_row_def]]) simp
  show "db_view d' k = ((db_view d)(row_id q \<mapsto> claimed (entry_of q))) k"
  proof (cases "k = row_id q")
    case True
    then show ?thesis unfolding v using q assms(3) by (simp add: entry_of_def claimed_def)
  next
    case False
    then have "row_id r \<noteq> row_id q" if "find_row k (rows d) = Some r" for r
      using find_row_in [OF that] by simp
    with False show ?thesis unfolding v by (cases "find_row k (rows d)") (simp_all add: db_view_def)
  qed
qed

lemma ClaimNextPending_law:
  assumes "db_ok d" and "valid_time now" and "ClaimNextPending now d = (r, d')"
  shows "db_ok d' \<and> (case r of
      Inr (Some m) \<Rightarrow> (\<exists>e. db_view d (ID m) = Some e \<and> e_status e = Pending \<and> carries m e
        \<and> db_view d' = (db_view d)(ID m \<mapsto> claimed e))
    | _ \<Rightarrow> db_view d' = db_view d)"
proof (cases "\<exists>m. r = Inr (Some m)")
  case False
  then have "rows d' = rows d"
    using ClaimNextPending_rows [OF assms(3)] by (auto split: sum.splits option.splits)
  with False show ?thesis
    using assms(1) db_view_cong [of d' d] db_ok_cong [of d' d] by (auto split: sum.splits option.splits)
next
  case True
  then obtain m where r: "r = Inr (Some m)" by blast
  with ClaimNextPending_rows [OF assms(3)] obtain q m0 where n: "next_due now (rows d) = Some q"
    and sc: "scan_row q = Inr m0" and m: "m = m0\<lparr>MsgAttempts := MsgAttempts m0 + 1, UpdatedAt := now\<rparr>"
    and d': "rows d' = claim_row now (row_id q) (rows d)" by auto
  from next_due_Some [OF n] have q: "q \<in> set (rows d)" "status q = Pending" by (auto simp: due_def)
  have "db_ok d' = db_ok (d\<lparr>rows := claim_row now (row_id q) (rows d)\<rparr>)"
    by (rule db_ok_cong) (simp add: d')
  also have "\<dots>"
    unfolding claim_row_def
    by (rule db_ok_update [OF assms(1)]) (auto simp: row_ok_def RFC3339_parses assms(2))
  finally have ok: "db_ok d'" .
  have "db_view d (row_id q) = Some (entry_of q)"
    using assms(1) q find_row_distinct by (auto simp: db_view_def db_ok_def)
  moreover have "carries m (entry_of q)" "ID m = row_id q"
    using scan_row_Inr [OF sc] by (auto simp: m carries_def entry_of_def)
  moreover have "e_status (entry_of q) = Pending" using q by (simp add: entry_of_def)
  ultimately show ?thesis using ok r claim_view [OF assms(1) q d'] by simp
qed

text \<open>The rows a recovery releases: processing, and last touched before the given time.\<close>

definition stuck_ids :: "time \<Rightarrow> db \<Rightarrow> bytes set" where
  "stuck_ids old d =
     {i. \<exists>r. find_row i (rows d) = Some r \<and> (status r = Processing \<and> updated_at r < RFC3339Nano old)}"

lemma RecoverStuckProcessing_exact:
  assumes "db_ok d" and "valid_time now" and "RecoverStuckProcessing old now d = (Inr n, d')"
  shows "db_ok d' \<and> db_view d' = release (stuck_ids old d) (db_view d) \<and> n = int (card (stuck_ids old d))
    \<and> (\<forall>r\<in>set (rows d'). row_id r \<in> stuck_ids old d \<longrightarrow> due now r)"
proof -
  define p where "p = (\<lambda>r :: row. status r = Processing \<and> updated_at r < RFC3339Nano old)"
  define f where "f = (\<lambda>r :: row. r\<lparr>status := Pending, next_attempt_at := RFC3339Nano now,
    updated_at := RFC3339Nano now, last_error := stale_error\<rparr>)"
  have S: "stuck_ids old d = {i. \<exists>r. find_row i (rows d) = Some r \<and> p r}" by (simp add: stuck_ids_def p_def)
  have ids: "\<And>r. row_id (f r) = row_id r" and oks: "\<And>r. row_ok r \<Longrightarrow> row_ok (f r)"
    using assms(2) by (auto simp: f_def row_ok_def RFC3339_parses)
  have *: "n = count_where p (rows d) \<and> rows d' = update_where p f (rows d)"
    using assms(3) exec_update_cases [of p f d "Inr n" d'] by (simp add: RecoverStuckProcessing_def p_def f_def)
  have "db_ok d' = db_ok (d\<lparr>rows := update_where p f (rows d)\<rparr>)"
    using * by (intro db_ok_cong) simp
  then have "db_ok d'" using db_ok_update [OF assms(1) ids oks] by simp
  moreover have "db_view d' k = release (stuck_ids old d) (db_view d) k" for k
  proof -
    have "db_view d' k = map_option (\<lambda>r. entry_of (if p r then f r else r)) (find_row k (rows d))"
      using * by (intro db_view_update ids) simp
    then show ?thesis
      by (cases "find_row k (rows d)") (auto simp: release_def S db_view_def f_def entry_of_def)
  qed
  moreover have "n = int (card (stuck_ids old d))"
    unfolding S using assms(1) * by (subst card_ids_where) (simp_all add: db_ok_def)
  moreover have "due now r" if "r \<in> set (rows d')" "row_id r \<in> stuck_ids old d" for r
  proof -
    from that(1) * obtain q where q: "q \<in> set (rows d)" "r = (if p q then f q else q)"
      by (auto simp: update_where_def)
    then have "row_id q = row_id r" by (simp add: ids)
    then have "find_row (row_id r) (rows d) = Some q"
      using q(1) assms(1) find_row_distinct [of "rows d" q] by (simp add: db_ok_def)
    then have "p q" using that(2) by (simp add: S)
    then show ?thesis using q(2) by (simp add: due_def f_def)
  qed
  ultimately show ?thesis by auto
qed

lemma RecoverStuckProcessing_law:
  assumes "db_ok d" and "valid_time now" and "RecoverStuckProcessing old now d = (r, d')"
  shows "db_ok d' \<and> (\<exists>S. (\<forall>i\<in>S. \<exists>e. db_view d i = Some e \<and> e_status e = Processing)
      \<and> db_view d' = release S (db_view d) \<and> (\<forall>n. r = Inr n \<longrightarrow> n = int (card S)))"
proof (cases r)
  case (Inl e)
  then have "rows d' = rows d"
    using assms(3) exec_update_cases [of _ _ d r d'] by (auto simp: RecoverStuckProcessing_def)
  moreover have "db_view d = release {} (db_view d)" by (simp add: release_def)
  ultimately show ?thesis
    using Inl assms(1) db_view_cong [of d' d] db_ok_cong [of d' d] by (intro conjI exI [of _ "{}"]) auto
next
  case (Inr n)
  have "\<forall>i\<in>stuck_ids old d. \<exists>e. db_view d i = Some e \<and> e_status e = Processing"
    by (auto simp: stuck_ids_def db_view_def entry_of_def)
  then show ?thesis
    using RecoverStuckProcessing_exact [OF assms(1,2), of old n d'] assms(3) Inr
    by (intro conjI exI [of _ "stuck_ids old d"]) auto
qed

interpretation sqlite: queue_store sqlite_ops db_view db_ok
  by (unfold_locales; (unfold sqlite_ops_def store_ops.select_convs)?;
      (rule finite_db_view Enqueue_law BacklogCount_law ClaimNextPending_law MarkSent_law MarkRetry_law
        MarkFailed_law RecoverStuckProcessing_law; assumption)?)

end
