(* ===== verification/Admission.thy ===== *)
theory Admission
  imports Session_Invariant Sqlite_Store
begin

text \<open>
  What a connection may do to the queue, for any store that keeps the contract \<open>queue_store\<close>:
  replies are only added, only DATA touches the queue, and an entry that enters it is within
  policy. \<open>conn_ok\<close> collects what holds after every command, and so when the connection ends.
\<close>

section \<open>Replies\<close>

text \<open>Everything written so far, flushed or not.\<close>

definition made :: "session \<Rightarrow> bytes list" where
  "made s = out s @ wbuf s"

lemma made_flushed [simp]: "made (flushed s) = made s"
  by (simp add: made_def flushed_def split: list.split bool.split)

lemma made_replied [simp]: "made (replied m s) = made s @ [m]"
  by (simp add: replied_def) (simp add: made_def)

lemma made_read_string: "read_string s = (l, s') \<Longrightarrow> made s' = made s"
  by (auto simp: made_def read_string_def split: option.splits)

lemma made_consumeData: "consumeData n s = (r, s') \<Longrightarrow> made s' = made s"
  by (auto simp: made_def consumeData_def split: option.splits)

lemma made_resetEnvelope [simp]: "made (resetEnvelope s) = made s"
  by (simp add: made_def)

lemma made_updates [simp]:
  "made (s\<lparr>greeted := g\<rparr>) = made s" "made (s\<lparr>authed := b\<rparr>) = made s" "made (s\<lparr>authFailures := n\<rparr>) = made s"
  "made (s\<lparr>mailFrom := f\<rparr>) = made s" "made (s\<lparr>rcptTo := r\<rparr>) = made s" "made (s\<lparr>rd := i\<rparr>) = made s"
  "made (s\<lparr>tls_rd := t\<rparr>) = made s" "made (s\<lparr>isTLS := b\<rparr>) = made s"
  by (simp_all add: made_def)

lemma made_prompt: "prompt m s = (r, s') \<Longrightarrow> made s' = made s @ [ln m]"
  by (auto simp: prompt_def Let_def split: option.splits prod.splits dest!: made_read_string)

lemma write_all_fields [simp]:
  "authed (write_all ms s) = authed s" "isTLS (write_all ms s) = isTLS s"
  "greeted (write_all ms s) = greeted s" "mailFrom (write_all ms s) = mailFrom s"
  "rcptTo (write_all ms s) = rcptTo s"
  by (simp_all add: write_all_def)

lemma made_write_all [simp]: "made (write_all ms s) = made s @ ms"
  by (simp add: made_def write_all_def)

lemma flushed_empty: "flush_error s = None \<Longrightarrow> wbuf (flushed s) = []"
  by (auto simp: flush_error_def flushed_def split: list.splits bool.splits)

lemma replied_empty: "reply_error m s = None \<Longrightarrow> wbuf (replied m s) = []"
  by (simp add: reply_error_def replied_def flushed_empty)

text \<open>The code of a reply line.\<close>

definition auth_reply :: bytes where
  "auth_reply = ln ''235 authentication successful''"

text \<open>A session is authenticated only after the reply that says so.\<close>

definition authed_ok :: "session \<Rightarrow> bool" where
  "authed_ok s \<longleftrightarrow> (authed s \<longrightarrow> auth_reply \<in> set (made s))"

section \<open>Replies are only added\<close>

definition says_more :: "session \<Rightarrow> session \<Rightarrow> bool" where
  "says_more s s' \<longleftrightarrow> prefix (made s) (made s') \<and> (authed s' \<longrightarrow> authed s \<or> auth_reply \<in> set (made s'))"

lemma says_more_refl [simp]: "says_more s s"
  by (simp add: says_more_def)

lemma says_more_trans: "says_more a b \<Longrightarrow> says_more b c \<Longrightarrow> says_more a c"
  by (auto simp: says_more_def dest: set_mono_prefix prefix_order.trans)

lemma says_more_replied [simp]: "says_more s (replied m s)"
  by (simp add: says_more_def)

lemma says_more_after: "says_more s a \<Longrightarrow> says_more s (replied m a)"
  using says_more_trans says_more_replied by blast

lemma says_more_read: "read_string s = (l, s') \<Longrightarrow> says_more s s'"
  using same_state_read_string [of s l s'] made_read_string [of s l s']
  by (simp add: says_more_def same_state_def)

lemma says_more_consume: "consumeData n s = (r, s') \<Longrightarrow> says_more s s'"
  using same_state_consumeData [of n s r s'] made_consumeData [of n s r s']
  by (simp add: says_more_def same_state_def)

lemma says_more_prompt: "prompt m s = (r, s') \<Longrightarrow> says_more s s'"
  using same_state_prompt [of m s r s'] made_prompt [of m s r s']
  by (simp add: says_more_def same_state_def)

lemma answer_says: "answer m s w = (e, s', w') \<Longrightarrow> says_more s s'"
  by (auto simp: answer_def)

lemma auth_check_says: "auth_check cfg env u p s w = (e, s', w') \<Longrightarrow> says_more s s'"
  by (auto simp: auth_check_def answer_def says_more_def auth_reply_def split: prod.splits bool.splits if_splits)

lemma auth_plain_payload_says: "auth_plain_payload cfg env pl s w = (e, s', w') \<Longrightarrow> says_more s s'"
  by (auto simp: auth_plain_payload_def Let_def split: option.splits if_splits intro: answer_says auth_check_says)

lemma auth_plain_says:
  assumes "auth_plain cfg env parts s w = (e, s', w')"
  shows "says_more s s'"
proof -
  obtain r s1 where p: "prompt ''334 '' s = (r, s1)" by fastforce
  note m = says_more_prompt [OF p]
  show ?thesis
    using assms p m auth_plain_payload_says [of cfg env _ s1 w e s' w'] auth_plain_payload_says [of cfg env _ s w e s' w']
      says_more_trans [OF m, of s']
    by (cases r) (auto simp: auth_plain_def split: if_splits)
qed

lemma auth_login_says:
  assumes "auth_login cfg env s w = (e, s', w')"
  shows "says_more s s'"
proof -
  obtain r s1 where p: "prompt ''334 VXNlcm5hbWU6'' s = (r, s1)" by fastforce
  obtain r' s2 where p': "prompt ''334 UGFzc3dvcmQ6'' s1 = (r', s2)" by fastforce
  note m = says_more_prompt [OF p] and m' = says_more_prompt [OF p']
  note m2 = says_more_trans [OF m m']
  show ?thesis
    using assms p p' m m2 auth_check_says [of cfg env _ _ s2 w e s' w'] says_more_trans [OF m2, of s']
      answer_says [of _ s1 w e s' w'] answer_says [of _ s2 w e s' w'] says_more_trans [OF m, of s']
    by (cases r; cases r') (auto simp: auth_login_def split: option.splits)
qed

lemma cmd_auth_says: "cmd_auth cfg env args s w = (e, s', w') \<Longrightarrow> says_more s s'"
  by (auto simp: cmd_auth_def handleAuth_def Let_def split: if_splits prod.splits bool.splits
      intro: answer_says auth_plain_says auth_login_says)

lemma cmd_mail_says: "cmd_mail cfg dps args s w = (e, s', w') \<Longrightarrow> says_more s s'"
  by (auto simp: cmd_mail_def check_alias_def accept_sender_def panic_def answer_def says_more_def
      split: if_splits option.splits prod.splits sum.splits)

lemma cmd_rcpt_says: "cmd_rcpt cfg dps args s w = (e, s', w') \<Longrightarrow> says_more s s'"
  by (auto simp: cmd_rcpt_def panic_def answer_def says_more_def split: if_splits option.splits)

lemma resetEnvelope_says:
  "says_more s (resetEnvelope s') = says_more s s'" "says_more (resetEnvelope s) s' = says_more s s'"
  by (simp_all add: says_more_def)

lemma data_body_says:
  assumes "data_body cfg dps env s w = (e, s', w')"
  shows "says_more s s'"
proof -
  obtain r s1 where c: "consumeData (SMTPMaxMessageBytes cfg) s = (r, s1)" by fastforce
  have m: "says_more s (replied x s1)" for x by (rule says_more_after [OF says_more_consume [OF c]])
  show ?thesis
    using assms c
    by (auto simp: data_body_def answer_quietly_def resetEnvelope_says m
        split: prod.splits option.splits if_splits)
qed

lemma cmd_data_says:
  assumes "cmd_data cfg dps env s w = (e, s', w')"
  shows "says_more s s'"
  using assms
  by (auto simp: cmd_data_def Let_def answer_def split: if_splits prod.splits sum.splits option.splits
      dest!: data_body_says intro: says_more_trans [OF says_more_replied])

lemma made_new_writer:
  "reply_error m s = None \<Longrightarrow> made (replied m s\<lparr>rd := r, tls_rd := t, wbuf := []\<rparr>) = made s @ [m]"
  using replied_empty [of m s] made_replied [of m s] by (simp add: made_def)

lemma cmd_starttls_says:
  "cmd_starttls env s w = (e, s', w') \<Longrightarrow> says_more s s'"
  by (auto simp: cmd_starttls_def Let_def answer_def says_more_def made_new_writer
      split: if_splits option.splits)

lemma handleCommand_says:
  assumes "handleCommand cfg dps env raw s w = (e, s', w')"
  shows "says_more s s'"
proof -
  have "says_more s s'" if "cmd_ehlo cfg s w = (e, s', w') \<or> cmd_helo cfg s w = (e, s', w')"
    using that by (auto simp: cmd_ehlo_def cmd_helo_def Let_def says_more_def)
  then show ?thesis
    using assms
    by (auto simp: handleCommand_def Let_def resetEnvelope_says split: prod.splits if_splits
        intro: cmd_starttls_says cmd_auth_says cmd_mail_says cmd_rcpt_says cmd_data_says
        dest!: answer_says)
qed


section \<open>Only DATA touches the queue\<close>

lemma auth_queue:
  "auth_check cfg env u p s w = (e, s', w') \<Longrightarrow> queue w' = queue w"
  "auth_plain_payload cfg env pl s w = (e, s', w') \<Longrightarrow> queue w' = queue w"
  by (auto simp: auth_check_def auth_plain_payload_def answer_def Let_def
      split: prod.splits bool.splits if_splits option.splits)

lemma cmd_auth_queue: "cmd_auth cfg env args s w = (e, s', w') \<Longrightarrow> queue w' = queue w"
  by (auto simp: cmd_auth_def handleAuth_def auth_plain_def auth_login_def answer_def Let_def
      split: if_splits prod.splits bool.splits sum.splits option.splits dest: auth_queue)

lemma cmd_mail_queue: "cmd_mail cfg dps args s w = (e, s', w') \<Longrightarrow> queue w' = queue w"
  by (auto simp: cmd_mail_def check_alias_def accept_sender_def panic_def answer_def
      split: if_splits option.splits prod.splits sum.splits)

lemma cmd_rcpt_queue: "cmd_rcpt cfg dps args s w = (e, s', w') \<Longrightarrow> w' = w"
  by (auto simp: cmd_rcpt_def panic_def answer_def split: if_splits option.splits)

lemma cmd_starttls_queue: "cmd_starttls env s w = (e, s', w') \<Longrightarrow> w' = w"
  by (auto simp: cmd_starttls_def Let_def answer_def split: if_splits option.splits)

lemma handleCommand_queue:
  assumes "handleCommand cfg dps env raw s w = (e, s', w')"
  shows "queue w' = queue w \<or> cmd_data cfg dps env s w = (e, s', w')"
  using assms
  by (auto simp: handleCommand_def cmd_ehlo_def cmd_helo_def answer_def Let_def
      split: prod.splits if_splits dest!: cmd_auth_queue cmd_mail_queue cmd_rcpt_queue cmd_starttls_queue)


section \<open>What may enter the queue\<close>

text \<open>The policy of the relay, on an entry that has just been queued.\<close>

definition admissible :: "config \<Rightarrow> ('q, 'a) deps \<Rightarrow> entry \<Rightarrow> bool" where
  "admissible cfg dps en \<longleftrightarrow>
     AllowedSenderPattern cfg (e_from en) \<and> isValidAddress (parse_addr dps) (e_from en)
     \<and> e_rcpts en \<noteq> [] \<and> int (length (e_rcpts en)) \<le> SMTPMaxRecipients cfg
     \<and> (\<forall>r\<in>set (e_rcpts en). isValidAddress (parse_addr dps) r)
     \<and> e_data en \<noteq> [] \<and> int (length (e_data en)) \<le> SMTPMaxMessageBytes cfg
     \<and> e_status en = Pending \<and> e_attempts en = 0"

definition env_ok :: "cmd_env \<Rightarrow> bool" where
  "env_ok env \<longleftrightarrow> valid_time (t_msg env) \<and> valid_time (t_enq env)"

text \<open>The queue after a command: as before, or with one more entry under a new id, within policy
  and with room in the backlog.\<close>

definition admits :: "config \<Rightarrow> ('q, 'a) deps \<Rightarrow> queue_view \<Rightarrow> queue_view \<Rightarrow> bool" where
  "admits cfg dps v v' \<longleftrightarrow>
     v' = v \<or> (\<exists>i en. v i = None \<and> v' = v(i \<mapsto> en) \<and> admissible cfg dps en
                 \<and> backlog_size v < QueueMaxBacklog cfg)"

lemma valid_data_message: "env_ok env \<Longrightarrow> valid_msg (data_message env p s)"
  by (simp add: env_ok_def valid_msg_def data_message_def valid_time_def)

lemma admissible_message:
  assumes "session_ok cfg dps s" and "complete (data_message env p s)"
    and "int (length p) \<le> SMTPMaxMessageBytes cfg"
  shows "admissible cfg dps (new_entry (data_message env p s))"
  using assms by (auto simp: admissible_def new_entry_def data_message_def complete_def session_ok_def)

text \<open>All entries of \<open>v0\<close> are still there as they were, and every other entry is within policy.\<close>

definition only_adds :: "config \<Rightarrow> ('q, 'a) deps \<Rightarrow> queue_view \<Rightarrow> queue_view \<Rightarrow> bool" where
  "only_adds cfg dps v0 v \<longleftrightarrow>
     v0 \<subseteq>\<^sub>m v \<and> (\<forall>i en. v i = Some en \<and> v0 i = None \<longrightarrow> admissible cfg dps en)"

lemma only_adds_refl [simp]: "only_adds cfg dps v v"
  by (auto simp: only_adds_def)

lemma only_adds_admits:
  assumes "only_adds cfg dps v0 v" and "admits cfg dps v v'"
  shows "only_adds cfg dps v0 v'"
proof (cases "v' = v")
  case False
  then obtain i en where i: "v i = None" "v' = v(i \<mapsto> en)" "admissible cfg dps en"
    using assms(2) by (auto simp: admits_def)
  have "v0 i = None"
  proof (rule ccontr)
    assume "v0 i \<noteq> None"
    then have "v0 i = v i" using assms(1) by (auto simp: only_adds_def map_le_def dom_def)
    with i(1) \<open>v0 i \<noteq> None\<close> show False by simp
  qed
  then show ?thesis
    using assms(1) i by (auto simp: only_adds_def map_le_def dom_def)
qed (use assms in simp)

lemma cmd_data_authed:
  assumes "cmd_data cfg dps env s w = (e, s', w')" and "session_ok cfg dps s"
  shows "authed s \<or> w' = w"
  using assms by (auto simp: cmd_data_def answer_def session_ok_def)

context queue_store
begin

lemma data_body_admits:
  assumes "data_body cfg dps env s w = (e, s', w')" and "store dps = ops" and "inv (queue w)"
    and "env_ok env" and "0 \<le> SMTPMaxMessageBytes cfg" and "session_ok cfg dps s"
    and "backlog_size (view (queue w)) < QueueMaxBacklog cfg"
  shows "inv (queue w') \<and> admits cfg dps (view (queue w)) (view (queue w'))"
proof -
  obtain r s1 where c: "consumeData (SMTPMaxMessageBytes cfg) s = (r, s1)" by fastforce
  then have ok: "session_ok cfg dps s1"
    using assms(6) session_ok_same same_state_consumeData by blast
  show ?thesis
  proof (cases "\<exists>p sz. r = Some (p, sz) \<and> sz \<le> SMTPMaxMessageBytes cfg")
    case False
    then have "w' = w"
      using assms(1) c by (auto simp: data_body_def answer_quietly_def split: option.splits if_splits)
    then show ?thesis using assms(3) by (simp add: admits_def)
  next
    case True
    then obtain p sz where r: "r = Some (p, sz)" and sz: "sz \<le> SMTPMaxMessageBytes cfg" by blast
    obtain err q where enq: "op_Enqueue ops (t_enq env) (data_message env p s1) (queue w) = (err, q)"
      by fastforce
    have t: "valid_time (t_enq env)" using assms(4) by (simp add: env_ok_def)
    have "queue w' = q"
      using assms(1,2) c r sz enq
      by (auto simp: data_body_def answer_quietly_def split: option.splits)
    moreover have "int (length p) \<le> SMTPMaxMessageBytes cfg"
      using consumeData_size [OF _ assms(5), of s p sz s1] c r sz by auto
    ultimately show ?thesis
      using enqueue_law [OF assms(3) t valid_data_message [OF assms(4)] enq] assms(7)
        admissible_message [OF ok, of env p]
      by (cases err) (auto simp: admits_def)
  qed
qed

lemma cmd_data_admits:
  assumes "cmd_data cfg dps env s w = (e, s', w')" and "store dps = ops" and "inv (queue w)"
    and "env_ok env" and "0 \<le> SMTPMaxMessageBytes cfg" and "session_ok cfg dps s"
  shows "inv (queue w') \<and> admits cfg dps (view (queue w)) (view (queue w'))"
proof (cases "mailFrom s = [] \<or> rcptTo s = []")
  case True
  with assms show ?thesis by (auto simp: cmd_data_def answer_def admits_def)
next
  case False
  obtain cnt q where b: "op_BacklogCount ops (queue w) = (cnt, q)" by fastforce
  note law = backlog_law [OF assms(3) b]
  show ?thesis
  proof (cases "\<exists>n. cnt = Inr n \<and> n < QueueMaxBacklog cfg \<and> reply_error (ln ''354 end data with <CR><LF>.<CR><LF>'') s = None")
    case True
    then have "data_body cfg dps env (replied (ln ''354 end data with <CR><LF>.<CR><LF>'') s) (w\<lparr>queue := q\<rparr>) = (e, s', w')"
      using assms(1,2) b False by (auto simp: cmd_data_def)
    then show ?thesis
      using data_body_admits [of cfg dps env _ "w\<lparr>queue := q\<rparr>" e s' w'] assms(2,4,5,6) law True by auto
  next
    case stop: False
    then have "queue w' = q"
      using assms(1,2) b False
      by (auto simp: cmd_data_def answer_def split: sum.splits if_splits option.splits)
    then show ?thesis using law by (simp add: admits_def)
  qed
qed

lemma handleCommand_admits:
  assumes "handleCommand cfg dps env raw s w = (e, s', w')" and "store dps = ops" and "inv (queue w)"
    and "env_ok env" and "0 \<le> SMTPMaxMessageBytes cfg" and "session_ok cfg dps s"
  shows "inv (queue w') \<and> admits cfg dps (view (queue w)) (view (queue w'))"
  using handleCommand_queue [OF assms(1)] cmd_data_admits [OF _ assms(2-6)] assms(3)
  by (auto simp: admits_def)


text \<open>What a connection keeps: the session and table invariants, the policy, an authentication
  reply before the first change of the queue, and the bound on the backlog.\<close>

definition conn_ok :: "config \<Rightarrow> ('q, 'a) deps \<Rightarrow> queue_view \<Rightarrow> session \<Rightarrow> ('q, 'a) server \<Rightarrow> bool" where
  "conn_ok cfg dps v0 s w \<longleftrightarrow>
     session_ok cfg dps s \<and> inv (queue w) \<and> only_adds cfg dps v0 (view (queue w))
     \<and> (authed s \<longrightarrow> auth_reply \<in> set (made s))
     \<and> (view (queue w) \<noteq> v0 \<longrightarrow> auth_reply \<in> set (made s))
     \<and> backlog_size (view (queue w)) \<le> max (QueueMaxBacklog cfg) (backlog_size v0)"

lemma conn_ok_says:
  assumes "conn_ok cfg dps v0 s w" and "same_state s s'" and "says_more s s'"
  shows "conn_ok cfg dps v0 s' w"
  using assms session_ok_same [OF assms(2), of cfg dps]
  by (auto simp: conn_ok_def says_more_def dest: set_mono_prefix)

lemma conn_ok_replied [simp]: "conn_ok cfg dps v0 s w \<Longrightarrow> conn_ok cfg dps v0 (replied m s) w"
  by (erule conn_ok_says) simp_all

lemma admits_backlog:
  assumes "inv q" and "admits cfg dps (view q) v'"
  shows "backlog_size v' \<le> max (QueueMaxBacklog cfg) (backlog_size (view q))"
proof (cases "v' = view q")
  case False
  then obtain i en where i: "view q i = None" "v' = (view q)(i \<mapsto> en)"
    and room: "backlog_size (view q) < QueueMaxBacklog cfg"
    using assms(2) by (auto simp: admits_def)
  have "waiting v' \<subseteq> insert i (waiting (view q))" by (auto simp: i(2) waiting_def)
  then have "card (waiting v') \<le> card (insert i (waiting (view q)))"
    by (intro card_mono) (simp_all add: finite_waiting [OF assms(1)])
  also have "\<dots> \<le> Suc (card (waiting (view q)))" by (rule card_insert_le_m1) simp_all
  finally show ?thesis using room by (simp add: backlog_size_def)
qed simp

lemma handleCommand_conn_ok:
  assumes "handleCommand cfg dps env raw s w = (e, s', w')" and "conn_ok cfg dps v0 s w"
    and "store dps = ops" and "env_ok env" and "0 \<le> SMTPMaxMessageBytes cfg"
  shows "conn_ok cfg dps v0 s' w'"
proof -
  have s: "session_ok cfg dps s" and q: "inv (queue w)" and a: "only_adds cfg dps v0 (view (queue w))"
    and au: "authed s \<longrightarrow> auth_reply \<in> set (made s)"
    and ch: "view (queue w) \<noteq> v0 \<longrightarrow> auth_reply \<in> set (made s)"
    and b: "backlog_size (view (queue w)) \<le> max (QueueMaxBacklog cfg) (backlog_size v0)"
    using assms(2) by (simp_all add: conn_ok_def)
  note says = handleCommand_says [OF assms(1)]
  note adm = handleCommand_admits [OF assms(1,3) q assms(4,5) s]
  have sub: "set (made s) \<subseteq> set (made s')" using says by (auto simp: says_more_def dest: set_mono_prefix)
  have "view (queue w') \<noteq> view (queue w) \<longrightarrow> authed s"
    using handleCommand_queue [OF assms(1)] cmd_data_authed [OF _ s, of env w e s' w'] by auto
  with sub au ch have "view (queue w') \<noteq> v0 \<longrightarrow> auth_reply \<in> set (made s')" by auto
  moreover have "authed s' \<longrightarrow> auth_reply \<in> set (made s')"
    using says au sub by (auto simp: says_more_def)
  moreover have "backlog_size (view (queue w')) \<le> max (QueueMaxBacklog cfg) (backlog_size v0)"
    using admits_backlog [OF q conjunct2 [OF adm]] b by linarith
  ultimately show ?thesis
    using adm only_adds_admits [OF a] handleCommand_ok [OF assms(1) s] by (simp add: conn_ok_def)
qed

lemma handleConn_conn_ok:
  assumes "handleConn cfg dps ce s w = (why, s', w')" and "session_ok cfg dps s" and "\<not> authed s"
    and "store dps = ops" and "inv (queue w)" and "\<forall>k. env_ok (env_cmd ce k)" and "0 \<le> SMTPMaxMessageBytes cfg"
  shows "conn_ok cfg dps (view (queue w)) s' w'"
proof (rule handleConn_invariant [where P = "conn_ok cfg dps (view (queue w))", OF assms(1)])
  show "conn_ok cfg dps (view (queue w)) (replied (ln (''220 '' @ SMTPHostname cfg @ '' ESMTP ready'')) s) w"
    using assms(2,3,5) by (simp add: conn_ok_def)
next
  fix k raw s w0 e s' w'
  assume "conn_ok cfg dps (view (queue w)) s w0" "handleCommand cfg dps (env_cmd ce k) raw s w0 = (e, s', w')"
  then show "conn_ok cfg dps (view (queue w)) s' w'"
    using handleCommand_conn_ok assms(4,6,7) by blast
next
  fix s w0 l s'
  assume "conn_ok cfg dps (view (queue w)) s w0" "read_string s = (l, s')"
  then show "conn_ok cfg dps (view (queue w)) s' w0"
    using conn_ok_says same_state_read_string says_more_read by blast
qed simp_all

end

end
