(* ===== verification/Protocol.thy ===== *)
theory Protocol
  imports Admission
begin

text \<open>
  The abstract protocol of the relay, a relation on \<open>phase\<close>, and the simulation: every command
  of a session is one of its steps, so a connection only reaches phases the protocol reaches.
\<close>

section \<open>The abstract protocol\<close>

text \<open>What of a session the protocol depends on.\<close>

record phase =
  p_tls :: bool
  p_greeted :: bool
  p_authed :: bool
  p_from :: bool
  p_rcpts :: nat

definition abs_phase :: "session \<Rightarrow> phase" where
  "abs_phase s =
     \<lparr>p_tls = isTLS s, p_greeted = greeted s, p_authed = authed s, p_from = (mailFrom s \<noteq> []),
      p_rcpts = length (rcptTo s)\<rparr>"

definition no_envelope :: "phase \<Rightarrow> phase" where
  "no_envelope p = p\<lparr>p_from := False, p_rcpts := 0\<rparr>"

text \<open>
  The steps a command may make. A command that is refused, or that changes nothing of this,
  keeps the phase; every other step has the conditions of the protocol.
\<close>

inductive smtp_step :: "config \<Rightarrow> bytes \<Rightarrow> phase \<Rightarrow> phase \<Rightarrow> bool" for cfg where
  keep: "smtp_step cfg verb p p"
| greet: "verb \<in> {''EHLO'', ''HELO''} \<Longrightarrow> smtp_step cfg verb p (no_envelope (p\<lparr>p_greeted := True\<rparr>))"
| secure: "\<not> p_tls p \<Longrightarrow> smtp_step cfg ''STARTTLS'' p
    \<lparr>p_tls = True, p_greeted = False, p_authed = False, p_from = False, p_rcpts = 0\<rparr>"
| authenticate: "p_greeted p \<Longrightarrow> SMTPRequireTLS587 cfg \<longrightarrow> p_tls p \<Longrightarrow>
    smtp_step cfg ''AUTH'' p (p\<lparr>p_authed := True\<rparr>)"
| sender: "p_greeted p \<Longrightarrow> p_authed p \<Longrightarrow> \<not> p_from p \<Longrightarrow> smtp_step cfg ''MAIL'' p (p\<lparr>p_from := True\<rparr>)"
| recipient: "p_from p \<Longrightarrow> int (p_rcpts p) < SMTPMaxRecipients cfg \<Longrightarrow>
    smtp_step cfg ''RCPT'' p (p\<lparr>p_rcpts := p_rcpts p + 1\<rparr>)"
| finished: "p_from p \<Longrightarrow> 0 < p_rcpts p \<Longrightarrow> smtp_step cfg ''DATA'' p (no_envelope p)"
| reset: "smtp_step cfg ''RSET'' p (no_envelope p)"

inductive_cases smtp_stepE: "smtp_step cfg verb p p'"

lemma abs_same: "same_state s s' \<Longrightarrow> abs_phase s' = abs_phase s"
  by (simp add: same_state_def abs_phase_def)

lemma abs_replied [simp]: "abs_phase (replied m s) = abs_phase s"
  by (rule abs_same) simp

lemma abs_reset [simp]: "abs_phase (resetEnvelope s) = no_envelope (abs_phase s)"
  by (simp add: abs_phase_def no_envelope_def)

lemma abs_write_all [simp]: "abs_phase (flushed (write_all ms s)) = abs_phase s"
  by (simp add: abs_phase_def)

text \<open>Authentication changes nothing but the flag.\<close>

definition auth_effect :: "session \<Rightarrow> session \<Rightarrow> bool" where
  "auth_effect s s' \<longleftrightarrow> abs_phase s' = abs_phase s \<or> abs_phase s' = (abs_phase s)\<lparr>p_authed := True\<rparr>"

lemma auth_effect_same: "same_state s t \<Longrightarrow> auth_effect t s' = auth_effect s s'"
  by (simp add: auth_effect_def abs_same)

lemma auth_check_effect: "auth_check cfg env u p s w = (e, s', w') \<Longrightarrow> auth_effect s s'"
  by (auto simp: auth_check_def answer_def auth_effect_def abs_phase_def split: prod.splits bool.splits if_splits)

lemma answer_effect: "answer m s w = (e, s', w') \<Longrightarrow> auth_effect s s'"
  by (auto simp: answer_def auth_effect_def)

lemma auth_plain_payload_effect: "auth_plain_payload cfg env pl s w = (e, s', w') \<Longrightarrow> auth_effect s s'"
  by (auto simp: auth_plain_payload_def Let_def split: option.splits if_splits
      intro: answer_effect auth_check_effect)

lemma handleAuth_effect:
  assumes "handleAuth cfg env args s w = (e, s', w')"
  shows "auth_effect s s'"
proof -
  obtain r s1 where p: "prompt ''334 '' s = (r, s1)" by fastforce
  obtain r' s1' where p': "prompt ''334 VXNlcm5hbWU6'' s = (r', s1')" by fastforce
  obtain r'' s2 where p'': "prompt ''334 UGFzc3dvcmQ6'' s1' = (r'', s2)" by fastforce
  note same = same_state_prompt [OF p] same_state_prompt [OF p']
    same_state_trans [OF same_state_prompt [OF p'] same_state_prompt [OF p'']]
  note eff = same [THEN auth_effect_same, of s']
  have same_eff: "same_state s t \<Longrightarrow> auth_effect s t" for t by (simp add: auth_effect_def abs_same)
  have "auth_effect s s'" if "auth_plain cfg env parts s w = (e, s', w')" for parts
    using that p eff same_eff [OF same(1)] auth_plain_payload_effect [of cfg env _ s1 w e s' w']
      auth_plain_payload_effect [of cfg env _ s w e s' w']
    by (cases r) (auto simp: auth_plain_def split: if_splits)
  moreover have "auth_effect s s'" if "auth_login cfg env s w = (e, s', w')"
    using that p' p'' eff same_eff [OF same(2)] same_eff [OF same(3)]
      auth_check_effect [of cfg env _ _ s2 w e s' w']
      answer_effect [of _ s1' w e s' w'] answer_effect [of _ s2 w e s' w']
    by (cases r'; cases r'') (auto simp: auth_login_def split: option.splits)
  ultimately show ?thesis
    using assms by (auto simp: handleAuth_def Let_def split: if_splits intro: answer_effect)
qed

section \<open>Every command is a step of the protocol\<close>

lemma cmd_auth_step:
  assumes "cmd_auth cfg env args s w = (e, s', w')"
  shows "smtp_step cfg ''AUTH'' (abs_phase s) (abs_phase s')"
proof (cases "abs_phase s' = abs_phase s")
  case True
  then show ?thesis by (simp add: smtp_step.keep)
next
  case False
  then have c: "\<not> (\<not> isTLS s \<and> SMTPRequireTLS587 cfg)" "greeted s" "handleAuth cfg env args s w = (e, s', w')"
    using assms by (auto simp: cmd_auth_def answer_def split: if_splits prod.splits bool.splits)
  have p: "abs_phase s' = (abs_phase s)\<lparr>p_authed := True\<rparr>"
    using handleAuth_effect [OF c(3)] False by (simp add: auth_effect_def)
  show ?thesis unfolding p by (rule smtp_step.authenticate) (use c in \<open>auto simp: abs_phase_def\<close>)
qed

lemma cmd_mail_step:
  assumes "cmd_mail cfg dps args s w = (e, s', w')"
  shows "smtp_step cfg ''MAIL'' (abs_phase s) (abs_phase s')"
proof (cases "abs_phase s' = abs_phase s")
  case False
  then have "greeted s \<and> authed s \<and> mailFrom s = [] \<and> (\<exists>a. a \<noteq> [] \<and> s' = replied (ln ''250 sender ok'') (s\<lparr>mailFrom := a\<rparr>))"
    using assms by (auto simp: cmd_mail_def check_alias_def accept_sender_def panic_def answer_def
        split: if_splits option.splits prod.splits sum.splits)
  then obtain a where s: "greeted s" "authed s" "mailFrom s = []" and a: "a \<noteq> []"
    and s': "s' = replied (ln ''250 sender ok'') (s\<lparr>mailFrom := a\<rparr>)" by blast
  have p: "abs_phase s' = (abs_phase s)\<lparr>p_from := True\<rparr>"
    using a by (simp add: s') (simp add: abs_phase_def)
  show ?thesis unfolding p by (rule smtp_step.sender) (use s in \<open>simp_all add: abs_phase_def\<close>)
qed (simp add: smtp_step.keep)

lemma cmd_rcpt_step:
  assumes "cmd_rcpt cfg dps args s w = (e, s', w')"
  shows "smtp_step cfg ''RCPT'' (abs_phase s) (abs_phase s')"
proof (cases "abs_phase s' = abs_phase s")
  case False
  then have "mailFrom s \<noteq> [] \<and> int (length (rcptTo s)) < SMTPMaxRecipients cfg
    \<and> (\<exists>a. s' = replied (ln ''250 recipient ok'') (s\<lparr>rcptTo := rcptTo s @ [a]\<rparr>))"
    using assms by (auto simp: cmd_rcpt_def panic_def answer_def split: if_splits option.splits)
  then obtain a where s: "mailFrom s \<noteq> []" "int (length (rcptTo s)) < SMTPMaxRecipients cfg"
    and s': "s' = replied (ln ''250 recipient ok'') (s\<lparr>rcptTo := rcptTo s @ [a]\<rparr>)" by blast
  have p: "abs_phase s' = (abs_phase s)\<lparr>p_rcpts := p_rcpts (abs_phase s) + 1\<rparr>"
    by (simp add: s') (simp add: abs_phase_def)
  show ?thesis unfolding p by (rule smtp_step.recipient) (use s in \<open>simp_all add: abs_phase_def\<close>)
qed (simp add: smtp_step.keep)

lemma cmd_data_step:
  assumes "cmd_data cfg dps env s w = (e, s', w')"
  shows "smtp_step cfg ''DATA'' (abs_phase s) (abs_phase s')"
proof (cases "mailFrom s = [] \<or> rcptTo s = []")
  case True
  then show ?thesis using assms by (auto simp: cmd_data_def answer_def intro: smtp_step.keep)
next
  case False
  have body: "abs_phase s' = abs_phase t \<or> abs_phase s' = no_envelope (abs_phase t)"
    if d: "data_body cfg dps env t v = (e, s', w')" for t v
  proof -
    obtain r s1 where c: "consumeData (SMTPMaxMessageBytes cfg) t = (r, s1)" by fastforce
    have "abs_phase s1 = abs_phase t" by (rule abs_same [OF same_state_consumeData [OF c]])
    then show ?thesis
      using d c by (auto simp: data_body_def answer_quietly_def split: prod.splits option.splits if_splits)
  qed
  have fin: "smtp_step cfg ''DATA'' (abs_phase s) (no_envelope (abs_phase s))"
    by (rule smtp_step.finished) (use False in \<open>simp_all add: abs_phase_def\<close>)
  have "abs_phase s' = abs_phase s \<or> abs_phase s' = no_envelope (abs_phase s)"
    using assms False
    by (auto simp: cmd_data_def Let_def answer_def split: prod.splits sum.splits option.splits if_splits
        dest!: body)
  then show ?thesis using fin smtp_step.keep by metis
qed

lemma cmd_starttls_step:
  assumes "cmd_starttls env s w = (e, s', w')"
  shows "smtp_step cfg ''STARTTLS'' (abs_phase s) (abs_phase s')"
proof (cases "abs_phase s' = abs_phase s")
  case False
  then have "\<not> isTLS s \<and> s' = resetEnvelope (replied (ln ''220 ready to start tls'') s
      \<lparr>rd := tls_rd s, tls_rd := [], wbuf := [], isTLS := True, greeted := False, authed := False\<rparr>)"
    using assms by (auto simp: cmd_starttls_def Let_def answer_def split: if_splits option.splits)
  then have t: "\<not> p_tls (abs_phase s)" and p: "abs_phase s'
      = \<lparr>p_tls = True, p_greeted = False, p_authed = False, p_from = False, p_rcpts = 0\<rparr>"
    by (simp_all add: abs_phase_def)
  show ?thesis unfolding p by (rule smtp_step.secure [OF t])
qed (simp add: smtp_step.keep)

lemma handleCommand_step:
  assumes "handleCommand cfg dps env raw s w = (e, s', w')"
  shows "smtp_step cfg (fst (splitCommand raw)) (abs_phase s) (abs_phase s')"
proof -
  have g: "abs_phase (s\<lparr>greeted := True\<rparr>) = (abs_phase s)\<lparr>p_greeted := True\<rparr>"
    by (simp add: abs_phase_def)
  have "abs_phase s' = no_envelope ((abs_phase s)\<lparr>p_greeted := True\<rparr>)"
    if "cmd_ehlo cfg s w = (e, s', w') \<or> cmd_helo cfg s w = (e, s', w')"
    using that by (auto simp: cmd_ehlo_def cmd_helo_def Let_def g)
  then show ?thesis
    using assms
    by (auto simp: handleCommand_def Let_def answer_def split: prod.splits if_splits
        intro: smtp_step.intros cmd_starttls_step cmd_auth_step cmd_mail_step cmd_rcpt_step cmd_data_step)
qed

section \<open>What the protocol guarantees\<close>

inductive smtp_reach :: "config \<Rightarrow> phase \<Rightarrow> phase \<Rightarrow> bool" for cfg p where
  here: "smtp_reach cfg p p"
| there: "smtp_reach cfg p q \<Longrightarrow> smtp_step cfg verb q r \<Longrightarrow> smtp_reach cfg p r"

definition phase_ok :: "config \<Rightarrow> phase \<Rightarrow> bool" where
  "phase_ok cfg p \<longleftrightarrow>
     (p_from p \<longrightarrow> p_greeted p \<and> p_authed p) \<and> (0 < p_rcpts p \<longrightarrow> p_from p)
     \<and> (p_rcpts p = 0 \<or> int (p_rcpts p) \<le> SMTPMaxRecipients cfg)
     \<and> (SMTPRequireTLS587 cfg \<and> p_authed p \<longrightarrow> p_tls p)"

lemma phase_ok_step: "smtp_step cfg verb p q \<Longrightarrow> phase_ok cfg p \<Longrightarrow> phase_ok cfg q"
  by (erule smtp_stepE) (auto simp: phase_ok_def no_envelope_def)

lemma phase_ok_reach: "smtp_reach cfg p q \<Longrightarrow> phase_ok cfg p \<Longrightarrow> phase_ok cfg q"
  by (induction rule: smtp_reach.induct) (auto intro: phase_ok_step)

text \<open>Encryption is never given up.\<close>

lemma tls_kept: "smtp_reach cfg p q \<Longrightarrow> p_tls p \<Longrightarrow> p_tls q"
  by (induction rule: smtp_reach.induct) (auto elim!: smtp_stepE simp: no_envelope_def)

lemma handleConn_reach:
  assumes "handleConn cfg dps ce s w = (why, s', w')"
  shows "smtp_reach cfg (abs_phase s) (abs_phase s')"
proof (rule handleConn_invariant [where P = "\<lambda>t v. smtp_reach cfg (abs_phase s) (abs_phase t)", OF assms])
  show "smtp_reach cfg (abs_phase s) (abs_phase (replied (ln (''220 '' @ SMTPHostname cfg @ '' ESMTP ready'')) s))"
    by (simp add: smtp_reach.here)
next
  fix k raw t v e t' v'
  assume "smtp_reach cfg (abs_phase s) (abs_phase t)" "handleCommand cfg dps (env_cmd ce k) raw t v = (e, t', v')"
  then show "smtp_reach cfg (abs_phase s) (abs_phase t')"
    using handleCommand_step smtp_reach.there by blast
next
  fix t v l t'
  assume "smtp_reach cfg (abs_phase s) (abs_phase t)" "read_string t = (l, t')"
  then show "smtp_reach cfg (abs_phase s) (abs_phase t')"
    using abs_same [OF same_state_read_string] by simp
qed simp_all

end
