(* ===== verification/Data_Command.thy ===== *)
theory Data_Command
  imports Protocol
begin

text \<open>
  The outcomes of DATA: for any store, a message is queued exactly when the client is told
  so; for the SQLite store, a well-formed message within the limit is queued with its exact
  bytes, an oversized one is refused, an empty one gets a transient error, and in each case the
  stream stands right after the message.
\<close>

section \<open>Acknowledgement\<close>

definition queued_reply :: bytes where
  "queued_reply = ln ''250 queued for delivery''"

definition data_prompt :: bytes where
  "data_prompt = ln ''354 end data with <CR><LF>.<CR><LF>''"

text \<open>What the code answers after \<open>DATA\<close>, and what it did to the queue: the message is queued
  exactly when the client is told so.\<close>

definition data_outcome :: "cmd_env \<Rightarrow> session \<Rightarrow> session \<Rightarrow> queue_view \<Rightarrow> queue_view \<Rightarrow> bool" where
  "data_outcome env s s' v v' \<longleftrightarrow>
     (\<exists>rs. made s' = made s @ rs
        \<and> (if queued_reply \<in> set rs
           then (\<exists>p. v (newMessageID env) = None
                  \<and> v' = v(newMessageID env \<mapsto> new_entry (data_message env p s))
                  \<and> mailFrom s' = [] \<and> rcptTo s' = [])
           else v' = v))"

lemma answer_outcome:
  assumes "answer m s w = (e, s', w')" and "ln m \<noteq> queued_reply"
  shows "data_outcome env s s' v v"
  unfolding data_outcome_def
  by (rule exI [of _ "[ln m]"]) (use assms in \<open>auto simp: answer_def\<close>)

lemma data_message_same: "same_state s t \<Longrightarrow> data_message env p t = data_message env p s"
  by (simp add: data_message_def same_state_def)

context queue_store
begin

lemma data_body_outcome:
  assumes "data_body cfg dps env s w = (e, s', w')" and "store dps = ops" and "inv (queue w)" and "env_ok env"
  shows "data_outcome env s s' (view (queue w)) (view (queue w'))"
proof -
  obtain r s1 where c: "consumeData (SMTPMaxMessageBytes cfg) s = (r, s1)" by fastforce
  note same = same_state_consumeData [OF c] and made1 = made_consumeData [OF c]
  show ?thesis
  proof (cases "\<exists>p sz. r = Some (p, sz) \<and> sz \<le> SMTPMaxMessageBytes cfg")
    case False
    then have "w' = w \<and> (\<exists>m. made s' = made s @ [ln m] \<and> ln m \<noteq> queued_reply)"
      using assms(1) c made1
      by (auto simp: data_body_def answer_quietly_def queued_reply_def split: option.splits if_splits)
    then show ?thesis unfolding data_outcome_def by (metis empty_iff empty_set set_ConsD)
  next
    case True
    then obtain p sz where r: "r = Some (p, sz)" and sz: "sz \<le> SMTPMaxMessageBytes cfg" by blast
    obtain err q where enq: "op_Enqueue ops (t_enq env) (data_message env p s) (queue w) = (err, q)"
      by fastforce
    have t: "valid_time (t_enq env)" using assms(4) by (simp add: env_ok_def)
    note law = enqueue_law [OF assms(3) t valid_data_message [OF assms(4)] enq]
    have enq': "op_Enqueue ops (t_enq env) (data_message env p s1) (queue w) = (err, q)"
      using enq by (simp add: data_message_same [OF same])
    show ?thesis
    proof (cases err)
      case None
      then have "made s' = made s @ [queued_reply]" "queue w' = q" "mailFrom s' = []" "rcptTo s' = []"
        using assms(1,2) c r sz enq' made1 by (auto simp: data_body_def queued_reply_def)
      then show ?thesis
        using law None unfolding data_outcome_def
        by (intro exI [of _ "[queued_reply]"]) (auto simp: data_message_def)
    next
      case (Some x)
      then have "made s' = made s @ [ln ''451 transient local error'']" "queue w' = q"
        using assms(1,2) c r sz enq' made1 by (auto simp: data_body_def answer_quietly_def)
      then show ?thesis
        using law Some unfolding data_outcome_def
        by (intro exI [of _ "[ln ''451 transient local error'']"]) (simp add: queued_reply_def)
    qed
  qed
qed

lemma cmd_data_outcome:
  assumes "cmd_data cfg dps env s w = (e, s', w')" and "store dps = ops" and "inv (queue w)" and "env_ok env"
  shows "data_outcome env s s' (view (queue w)) (view (queue w'))"
proof (cases "mailFrom s = [] \<or> rcptTo s = []")
  case True
  then have a: "answer ''503 need MAIL FROM and RCPT TO first'' s w = (e, s', w')"
    using assms(1) by (auto simp: cmd_data_def)
  then have "w' = w" by (simp add: answer_def)
  then show ?thesis using answer_outcome [OF a] by (simp add: queued_reply_def)
next
  case False
  obtain cnt q where b: "op_BacklogCount ops (queue w) = (cnt, q)" by fastforce
  note law = backlog_law [OF assms(3) b]
  show ?thesis
  proof (cases "\<exists>n. cnt = Inr n \<and> n < QueueMaxBacklog cfg \<and> reply_error data_prompt s = None")
    case True
    then have "data_body cfg dps env (replied data_prompt s) (w\<lparr>queue := q\<rparr>) = (e, s', w')"
      using assms(1,2) b False by (auto simp: cmd_data_def data_prompt_def)
    from data_body_outcome [OF this assms(2) _ assms(4)]
    have o: "data_outcome env (replied data_prompt s) s' (view (queue w)) (view (queue w'))"
      using law by simp
    have same: "data_message env p (replied data_prompt s) = data_message env p s" for p
      by (rule data_message_same) simp
    from o obtain rs where "made s' = (made s @ [data_prompt]) @ rs"
      and "if queued_reply \<in> set rs
           then (\<exists>p. view (queue w) (newMessageID env) = None
                  \<and> view (queue w') = (view (queue w))(newMessageID env \<mapsto> new_entry (data_message env p s))
                  \<and> mailFrom s' = [] \<and> rcptTo s' = [])
           else view (queue w') = view (queue w)"
      unfolding data_outcome_def same made_replied by blast
    moreover have "data_prompt \<noteq> queued_reply" by (simp add: data_prompt_def queued_reply_def)
    ultimately show ?thesis
      unfolding data_outcome_def by (intro exI [of _ "data_prompt # rs"]) simp
  next
    case stop: False
    then have "queue w' = q \<and> (\<exists>m. made s' = made s @ [ln m] \<and> ln m \<noteq> queued_reply)"
      using assms(1,2) b False
      by (auto simp: cmd_data_def answer_def queued_reply_def data_prompt_def split: sum.splits if_splits option.splits)
    then show ?thesis
      using law unfolding data_outcome_def by (metis empty_iff empty_set set_ConsD)
  qed
qed

end

section \<open>A message that arrives\<close>

lemma replied_clean:
  assumes "flush_oks s = []"
  shows "flush_oks (replied m s) = []" and "wbuf (replied m s) = []" and "reply_error m s = None"
    and "out (replied m s) = out s @ wbuf s @ [m]"
  using assms by (simp_all add: replied_def reply_error_def flushed_def flush_error_def)

text \<open>\<open>Enqueue\<close> succeeds when the database does, the message is complete and its id is new.\<close>

lemma Enqueue_succeeds:
  assumes "faults d = []" and "complete m" and "db_view d (ID m) = None"
  shows "\<exists>d'. Enqueue now m d = (None, d')"
proof -
  have "ID m \<notin> row_id ` set (rows d)"
    using assms(3) by (simp add: db_view_def find_row_None)
  then show ?thesis using assms(1,2) by (simp add: Enqueue_def complete_def db_call_def Let_def)
qed

lemma BacklogCount_succeeds:
  assumes "faults d = []" and "db_ok d"
  shows "BacklogCount d = (Inr (backlog_size (db_view d)), d)"
proof -
  obtain r d' where b: "BacklogCount d = (r, d')" by fastforce
  then have "r = Inr (count_where in_backlog (rows d)) \<and> d' = d"
    using assms(1) by (auto simp: BacklogCount_def db_call_def)
  then show ?thesis using BacklogCount_law [OF assms(2) b] b by simp
qed

text \<open>The database is up, has room, and does not know the id.\<close>

definition ready_for :: "config \<Rightarrow> bytes \<Rightarrow> db \<Rightarrow> bool" where
  "ready_for cfg i d \<longleftrightarrow>
     db_ok d \<and> faults d = [] \<and> backlog_size (db_view d) < QueueMaxBacklog cfg \<and> db_view d i = None"

text \<open>An envelope is complete and the writer works.\<close>

definition ready_to_send :: "session \<Rightarrow> bool" where
  "ready_to_send s \<longleftrightarrow> mailFrom s \<noteq> [] \<and> rcptTo s \<noteq> [] \<and> flush_oks s = []"

text \<open>A dot-stuffed message whose lines are well formed, with its end mark.\<close>

definition well_formed :: "bytes list \<Rightarrow> bytes \<Rightarrow> bool" where
  "well_formed ls e \<longleftrightarrow> (\<forall>l\<in>set ls. is_line l) \<and> is_line e \<and> is_dot e"

lemma cmd_data_to_body:
  assumes "store dps = sqlite_ops" and "ready_for cfg i (queue w)" and "ready_to_send s"
  shows "cmd_data cfg dps env s w = data_body cfg dps env (replied data_prompt s) w"
  using assms
  by (simp add: cmd_data_def ready_for_def ready_to_send_def sqlite_ops_def BacklogCount_succeeds
      replied_clean data_prompt_def)

lemma cmd_data_delivers:
  assumes "store dps = sqlite_ops" and "ready_for cfg (newMessageID env) (queue w)" and "ready_to_send s"
    and "newMessageID env \<noteq> []" and "env_ok env" and "rd s = wire ls e @ rest" and "well_formed ls e"
    and "concat ls \<noteq> []" and "int (length (concat ls)) \<le> SMTPMaxMessageBytes cfg"
  shows "\<exists>s' w'. cmd_data cfg dps env s w = (None, s', w')
    \<and> rd s' = rest \<and> mailFrom s' = [] \<and> rcptTo s' = [] \<and> flush_oks s' = [] \<and> wbuf s' = []
    \<and> out s' = out s @ wbuf s @ [data_prompt, queued_reply]
    \<and> db_ok (queue w')
    \<and> db_view (queue w') = (db_view (queue w))(newMessageID env \<mapsto> new_entry (data_message env (concat ls) s))"
proof -
  let ?t = "replied data_prompt s"
  let ?m = "data_message env (concat ls) s"
  have t: "flush_oks ?t = []" "wbuf ?t = []" "out ?t = out s @ wbuf s @ [data_prompt]"
    using assms(3) replied_clean [of s data_prompt] by (simp_all add: ready_to_send_def)
  have "consume_loop (SMTPMaxMessageBytes cfg) [] 0 (wire ls e @ rest)
      = Some ([] @ concat ls, 0 + int (length (concat ls)), rest)"
    using assms(7,9) by (intro consume_loop_wire) (simp_all add: well_formed_def)
  then have c: "consumeData (SMTPMaxMessageBytes cfg) ?t
      = (Some (concat ls, int (length (concat ls))), ?t\<lparr>rd := rest\<rparr>)"
    by (simp add: consumeData_def assms(6))
  have m: "data_message env (concat ls) (?t\<lparr>rd := rest\<rparr>) = ?m"
    by (simp add: data_message_def)
  have cm: "complete ?m" "ID ?m = newMessageID env"
    using assms(3,4,8) by (simp_all add: complete_def data_message_def ready_to_send_def)
  obtain q where enq: "Enqueue (t_enq env) ?m (queue w) = (None, q)"
    using Enqueue_succeeds [of "queue w" ?m "t_enq env"] cm assms(2) by (auto simp: ready_for_def)
  have "valid_time (t_enq env)" "db_ok (queue w)" using assms(2,5) by (simp_all add: env_ok_def ready_for_def)
  note law = Enqueue_law [OF this(2,1) valid_data_message [OF assms(5)] enq]
  have "cmd_data cfg dps env s w = (None, resetEnvelope (replied queued_reply (?t\<lparr>rd := rest\<rparr>)), w\<lparr>queue := q\<rparr>)"
    using assms(1,9) enq
    by (simp add: cmd_data_to_body [OF assms(1-3)] data_body_def c m sqlite_ops_def queued_reply_def)
  then show ?thesis
    using law cm t replied_clean [of "?t\<lparr>rd := rest\<rparr>" queued_reply] by simp
qed

text \<open>A message over the limit is refused as such, and what follows it is read as commands.\<close>

lemma cmd_data_oversized:
  assumes "store dps = sqlite_ops" and "ready_for cfg i (queue w)" and "ready_to_send s"
    and "rd s = wire ls e @ rest" and "well_formed ls e"
    and "0 \<le> SMTPMaxMessageBytes cfg" and "SMTPMaxMessageBytes cfg < int (length (concat ls))"
  shows "\<exists>s'. cmd_data cfg dps env s w = (None, s', w) \<and> rd s' = rest \<and> mailFrom s' = [] \<and> rcptTo s' = []
    \<and> out s' = out s @ wbuf s @ [data_prompt, ln ''552 message size exceeds fixed maximum message size'']"
proof -
  let ?t = "replied data_prompt s"
  have t: "flush_oks ?t = []" "wbuf ?t = []" "out ?t = out s @ wbuf s @ [data_prompt]"
    using assms(3) replied_clean [of s data_prompt] by (simp_all add: ready_to_send_def)
  have "\<exists>sz. SMTPMaxMessageBytes cfg < sz
      \<and> consume_loop (SMTPMaxMessageBytes cfg) [] 0 (wire ls e @ rest) = Some ([], sz, rest)"
    using assms(5-7) by (intro consume_loop_oversized) (simp_all add: well_formed_def)
  then obtain sz where sz: "SMTPMaxMessageBytes cfg < sz"
    and "consumeData (SMTPMaxMessageBytes cfg) ?t = (Some ([], sz), ?t\<lparr>rd := rest\<rparr>)"
    by (auto simp: consumeData_def assms(4))
  then show ?thesis
    using t replied_clean [of "?t\<lparr>rd := rest\<rparr>"]
    by (simp add: cmd_data_to_body [OF assms(1-3)] data_body_def)
qed

text \<open>An empty message is refused with a transient error and keeps its envelope.\<close>

lemma cmd_data_empty:
  assumes "store dps = sqlite_ops" and "ready_for cfg i (queue w)" and "ready_to_send s"
    and "rd s = e @ rest" and "is_line e" and "is_dot e" and "newMessageID env \<noteq> []" and "0 \<le> SMTPMaxMessageBytes cfg"
  shows "\<exists>s'. cmd_data cfg dps env s w = (None, s', w) \<and> rd s' = rest
    \<and> mailFrom s' = mailFrom s \<and> rcptTo s' = rcptTo s
    \<and> out s' = out s @ wbuf s @ [data_prompt, ln ''451 transient local error'']"
proof -
  let ?t = "replied data_prompt s"
  have t: "flush_oks ?t = []" "wbuf ?t = []" "out ?t = out s @ wbuf s @ [data_prompt]"
    using assms(3) replied_clean [of s data_prompt] by (simp_all add: ready_to_send_def)
  have "consume_loop (SMTPMaxMessageBytes cfg) [] 0 (e @ rest) = Some ([], 0, rest)"
    using consume_loop_wire [of "[]" e 0 "SMTPMaxMessageBytes cfg" "[]" rest] assms(5,6,8) by simp
  then have c: "consumeData (SMTPMaxMessageBytes cfg) ?t = (Some ([], 0), ?t\<lparr>rd := rest\<rparr>)"
    by (simp add: consumeData_def assms(4))
  have "Enqueue (t_enq env) (data_message env [] (?t\<lparr>rd := rest\<rparr>)) (queue w) = (Some MissingData, queue w)"
    using assms(3,7) by (simp add: Enqueue_def data_message_def ready_to_send_def)
  then show ?thesis
    using t replied_clean [of "?t\<lparr>rd := rest\<rparr>"] assms(1,8)
    by (simp add: cmd_data_to_body [OF assms(1-3)] data_body_def c sqlite_ops_def answer_quietly_def)
qed

end
