(* ===== verification/Dialogue.thy ===== *)
theory Dialogue
  imports Data_Command
begin

text \<open>
  A whole conversation: what each command of a well-behaved client does to a session whose
  writer works, and the proof that EHLO, AUTH PLAIN, MAIL, any number of RCPT, DATA with a
  dot-stuffed message, and QUIT leave exactly that message in the queue.
\<close>

section \<open>Text of commands\<close>

lemma printable_solid:
  assumes "33 \<le> (of_char c :: nat)" and "(of_char c :: nat) \<le> 126"
  shows "solid c"
proof -
  let ?S = "hd ` set space_runes \<union> last ` set space_runes"
  have out: "\<forall>x\<in>?S. (of_char x :: nat) \<le> 32 \<or> 127 \<le> (of_char x :: nat)"
    by (simp add: space_runes_def)
  have "c \<notin> ?S"
  proof
    assume "c \<in> ?S"
    with out have "(of_char c :: nat) \<le> 32 \<or> 127 \<le> (of_char c :: nat)" by (rule bspec)
    with assms show False by linarith
  qed
  then show ?thesis by (simp add: solid_def)
qed

lemma b64_char_solid: "n < 64 \<Longrightarrow> solid (b64_char False n)"
  by (rule printable_solid) (auto simp: b64_char_def)

lemma std_encode_solid: "\<forall>c\<in>set (std_encode s). solid c"
proof -
  have "solid (CHR ''='')" by (rule printable_solid) simp_all
  then show ?thesis
    by (induction s rule: std_encode.induct) (auto simp: enc_defs b64_char_solid)
qed

lemma solid_not_LF: "solid c \<Longrightarrow> c \<noteq> LF"
  by (auto simp: solid_def space_runes_def)

lemma to_upper_ascii: "a \<noteq> CHR 0xC4 \<Longrightarrow> a \<noteq> CHR 0xC5 \<Longrightarrow> to_upper (a # s) = up_char a # to_upper s"
  by (cases s) auto

text \<open>A command line as the loop hands it to the dispatcher: no line feed, no space at its ends.\<close>

definition command_text :: "bytes \<Rightarrow> bool" where
  "command_text c \<longleftrightarrow> c \<noteq> [] \<and> LF \<notin> set c \<and> solid (hd c) \<and> solid (last c)"

lemma command_text_trim: "command_text c \<Longrightarrow> trim_space (c @ crlf) = c"
  by (rule trim_space_line) (simp add: command_text_def)

lemma command_text_append:
  assumes "command_text c" and "d = [] \<or> (LF \<notin> set d \<and> solid (last d))"
  shows "command_text (c @ d)"
  using assms by (cases "d = []") (simp_all add: command_text_def)

section \<open>A session whose writer works\<close>

definition clean :: "session \<Rightarrow> bool" where
  "clean s \<longleftrightarrow> flush_oks s = [] \<and> wbuf s = []"

lemma clean_replied: "clean s \<Longrightarrow> replied m s = s\<lparr>out := out s @ [m]\<rparr>"
  by (simp add: clean_def replied_def flushed_def sess_write_def)

lemma clean_reply_error: "clean s \<Longrightarrow> reply_error m s = None"
  by (simp add: clean_def reply_error_def flush_error_def)

lemma clean_updates [simp]:
  "clean (s\<lparr>rd := r\<rparr>) = clean s" "clean (s\<lparr>out := x\<rparr>) = clean s" "clean (s\<lparr>greeted := g\<rparr>) = clean s"
  "clean (s\<lparr>authed := b\<rparr>) = clean s" "clean (s\<lparr>authFailures := n\<rparr>) = clean s"
  "clean (s\<lparr>mailFrom := f\<rparr>) = clean s" "clean (s\<lparr>rcptTo := t\<rparr>) = clean s" "clean (resetEnvelope s) = clean s"
  by (simp_all add: clean_def)

lemma clean_answer: "clean s \<Longrightarrow> answer m s w = (None, s\<lparr>out := out s @ [ln m]\<rparr>, w)"
  by (simp add: answer_def clean_replied clean_reply_error)

text \<open>The loop gives a line to the dispatcher and goes on.\<close>

definition undisturbed :: "config \<Rightarrow> conn_env \<Rightarrow> int \<Rightarrow> bool" where
  "undisturbed cfg ce n \<longleftrightarrow> \<not> ctx_done ce n \<and> deadline_ok ce n \<and> n < SMTPMaxCommandsPerSession cfg"

lemma loop_command:
  assumes "undisturbed cfg ce n" and "rd s = ln c @ rest" and "command_text c"
  shows "conn_loop cfg dps ce n s w =
    (case handleCommand cfg dps (env_cmd ce (n + 1)) c (s\<lparr>rd := rest\<rparr>) w of
       (Some e, s, w) \<Rightarrow> (CommandFailed e, s, w)
     | (None, s, w) \<Rightarrow> conn_loop cfg dps ce (n + 1) s w)"
proof -
  have "LF \<notin> set (c @ [CR])" using assms(3) by (simp add: command_text_def)
  then have "read_line ((c @ [CR]) @ LF # rest) = Some ((c @ [CR]) @ [LF], rest)"
    by (rule read_line_append)
  then have "read_string s = (Some (c @ crlf), s\<lparr>rd := rest\<rparr>)"
    by (simp add: read_string_def assms(2) ln_def crlf_def)
  moreover have "c \<noteq> []" using assms(3) by (simp add: command_text_def)
  ultimately show ?thesis
    using assms(1) command_text_trim [OF assms(3)]
    by (simp add: conn_loop.simps [of cfg dps ce n s w] undisturbed_def)
qed

section \<open>Each command of the conversation\<close>

lemma split_verb:
  assumes "CHR '' '' \<notin> set v" and "command_text v" and "a = [] \<or> solid (hd a) \<and> solid (last a)"
  shows "splitCommand (v @ CHR '' '' # a) = (to_upper v, a)"
  using assms by (intro splitCommand_args) (auto simp: command_text_def)

lemma solid_upper [simp]:
  "solid (CHR ''E'')" "solid (CHR ''O'')" "solid (CHR ''A'')" "solid (CHR ''H'')" "solid (CHR ''M'')"
  "solid (CHR ''L'')" "solid (CHR ''R'')" "solid (CHR ''T'')" "solid (CHR ''D'')" "solid (CHR ''Q'')"
  "solid (CHR ''F'')" "solid (CHR ''P'')" "solid (CHR ''>'')" "solid (CHR ''<'')" "solid (CHR ''N'')" "solid (CHR ''I'')"
  by (simp_all add: printable_solid)

lemma say_ehlo:
  assumes "clean s" and "host \<noteq> []" and "solid (hd host)" and "solid (last host)"
  shows "handleCommand cfg dps env (''EHLO '' @ host) s w
    = (None, (resetEnvelope s)\<lparr>greeted := True, out := out s @ ehlo_lines cfg (isTLS s)\<rparr>, w)"
proof -
  have "splitCommand (''EHLO '' @ host) = (''EHLO'', host)"
    using splitCommand_args [of "''EHLO''" host] assms by (simp add: to_upper_ascii up_char_def)
  then show ?thesis
    using assms(1)
    by (simp add: handleCommand_def cmd_ehlo_def write_all_def flushed_def flush_error_def clean_def resetEnvelope_def)
qed

text \<open>The client's AUTH PLAIN response.\<close>

definition plain_response :: "bytes \<Rightarrow> bytes \<Rightarrow> bytes" where
  "plain_response user pass = std_encode (NUL # user @ NUL # pass)"

lemma plain_response_nonempty: "plain_response u p \<noteq> []"
proof
  assume "plain_response u p = []"
  then have "std_decode (plain_response u p) = std_decode []" by simp
  then have "Some (NUL # u @ NUL # p) = std_decode []" by (simp only: plain_response_def std_decode_encode)
  moreover have "std_decode [] = Some []" by code_simp
  ultimately show False by simp
qed

lemma plain_response_decodes:
  assumes "NUL \<notin> set u" and "NUL \<notin> set p"
  shows "auth_plain_payload cfg env (plain_response u p) s w = auth_check cfg env u p s w"
proof -
  have "split_byte NUL (NUL # u @ NUL # p) = [[], u, p]"
    using split_byte_append [of NUL "[]" "u @ NUL # p"] split_byte_append [of NUL u p] assms
    by (simp add: split_byte_none)
  then show ?thesis
    unfolding auth_plain_payload_def plain_response_def std_decode_encode by simp
qed

lemma fields_plain: "str_fields (''PLAIN '' @ plain_response u p) = [''PLAIN'', plain_response u p]"
proof -
  have "str_fields (plain_response u p) = [plain_response u p]"
    using std_encode_solid plain_response_nonempty by (intro fields_solid) (simp_all add: plain_response_def)
  then show ?thesis
    using fields_solid_space [of "''PLAIN''" "plain_response u p"] by simp
qed

lemma handleAuth_plain:
  assumes "NUL \<notin> set u" and "NUL \<notin> set p"
  shows "handleAuth cfg env (''PLAIN '' @ plain_response u p) s w = auth_check cfg env u p s w"
  unfolding handleAuth_def fields_plain
  using plain_response_decodes [OF assms] by (simp add: auth_plain_def to_upper_ascii up_char_def)

text \<open>The state in which a correct AUTH succeeds.\<close>

definition may_auth :: "config \<Rightarrow> cmd_env \<Rightarrow> bytes \<Rightarrow> session \<Rightarrow> ('q, 'a) server \<Rightarrow> bool" where
  "may_auth cfg env user s w \<longleftrightarrow>
     (SMTPRequireTLS587 cfg \<longrightarrow> isTLS s) \<and> greeted s \<and> authFailures s < 3
     \<and> \<not> fst (authBlocked (authState w) (ip_key (remoteIP s)) (t_ip env))
     \<and> \<not> fst (authBlocked (authState w) (user_key user) (t_user env))"

lemma say_auth:
  assumes "clean s" and "may_auth cfg env u s w" and "NUL \<notin> set u" and "NUL \<notin> set p"
    and "ValidateCredentials cfg u p"
  shows "handleCommand cfg dps env (''AUTH PLAIN '' @ plain_response u p) s w
    = (None, s\<lparr>authFailures := 0, authed := True, out := out s @ [auth_reply]\<rparr>,
       w\<lparr>authState := clearAuthState (authState w) (user_key u)\<rparr>)"
proof -
  let ?a = "''PLAIN '' @ plain_response u p"
  have "solid (last ?a)"
    using std_encode_solid [of "NUL # u @ NUL # p"] plain_response_nonempty [of u p]
    by (simp add: plain_response_def)
  then have "splitCommand (''AUTH'' @ CHR '' '' # ?a) = (to_upper ''AUTH'', ?a)"
    by (intro split_verb) (simp_all add: command_text_def)
  then have sp: "splitCommand (''AUTH PLAIN '' @ plain_response u p) = (''AUTH'', ?a)"
    by (simp add: to_upper_ascii up_char_def)
  have "handleCommand cfg dps env (''AUTH PLAIN '' @ plain_response u p) s w = cmd_auth cfg env ?a s w"
    unfolding handleCommand_def sp by simp
  also have "\<dots> = handleAuth cfg env ?a s w"
    using assms(2) unfolding cmd_auth_def may_auth_def by (auto split: prod.splits bool.splits)
  also have "\<dots> = auth_check cfg env u p s w" by (rule handleAuth_plain [OF assms(3,4)])
  finally show ?thesis
    using assms(1,2,5)
    by (auto simp: auth_check_def may_auth_def clean_answer auth_reply_def split: prod.splits bool.splits)
qed

lemma upper_from: "prefix ''FROM:'' (to_upper (''FROM:'' @ x))"
  by (simp add: to_upper_ascii up_char_def)

lemma upper_to: "prefix ''TO:'' (to_upper (''TO:'' @ x))"
  by (simp add: to_upper_ascii up_char_def)

text \<open>An address a client can put between angle brackets.\<close>

definition plain_addr :: "bytes \<Rightarrow> bool" where
  "plain_addr a \<longleftrightarrow> a \<noteq> [] \<and> CHR ''>'' \<notin> set a \<and> LF \<notin> set a"

lemma extract_from: "plain_addr a \<Longrightarrow> extractAddress (''FROM:<'' @ a @ ''>'') 5 = Some a"
  using extractAddress_bracket [of "''FROM:''" 5 a "[]"] by (simp add: plain_addr_def)

lemma extract_to: "plain_addr a \<Longrightarrow> extractAddress (''TO:<'' @ a @ ''>'') 3 = Some a"
  using extractAddress_bracket [of "''TO:''" 3 a "[]"] by (simp add: plain_addr_def)

text \<open>The sender policy lets the address pass.\<close>

definition may_send ::
  "config \<Rightarrow> ('q, 'a) deps \<Rightarrow> bytes \<Rightarrow> 'a \<Rightarrow> 'a \<Rightarrow> bool" where
  "may_send cfg dps a al al' \<longleftrightarrow>
     isValidAddress (parse_addr dps) a \<and> AllowedSenderPattern cfg a
     \<and> (case aliasAuth dps of None \<Rightarrow> al' = al | Some f \<Rightarrow> f al a = (Inr True, al'))"

lemma say_mail:
  assumes "clean s" and "greeted s" and "authed s" and "mailFrom s = []" and "plain_addr a"
    and "may_send cfg dps a (aliases w) al"
  shows "handleCommand cfg dps env (''MAIL FROM:<'' @ a @ ''>'') s w
    = (None, s\<lparr>mailFrom := a, out := out s @ [ln ''250 sender ok'']\<rparr>, w\<lparr>aliases := al\<rparr>)"
proof -
  let ?a = "''FROM:<'' @ a @ ''>''"
  have "splitCommand (''MAIL'' @ CHR '' '' # ?a) = (to_upper ''MAIL'', ?a)"
    by (intro split_verb) (simp_all add: command_text_def)
  then have sp: "splitCommand (''MAIL FROM:<'' @ a @ ''>'') = (''MAIL'', ?a)"
    by (simp add: to_upper_ascii up_char_def)
  have "handleCommand cfg dps env (''MAIL FROM:<'' @ a @ ''>'') s w = cmd_mail cfg dps ?a s w"
    unfolding handleCommand_def sp by simp
  also have "\<dots> = check_alias dps a s w"
    using assms upper_from [of "CHR ''<'' # a @ ''>''"] extract_from [OF assms(5)]
    by (simp add: cmd_mail_def may_send_def plain_addr_def)
  finally show ?thesis
    using assms(1,6)
    by (cases "aliasAuth dps") (simp_all add: check_alias_def accept_sender_def may_send_def clean_answer)
qed

lemma say_rcpt:
  assumes "clean s" and "mailFrom s \<noteq> []" and "int (length (rcptTo s)) < SMTPMaxRecipients cfg"
    and "plain_addr a" and "isValidAddress (parse_addr dps) a"
  shows "handleCommand cfg dps env (''RCPT TO:<'' @ a @ ''>'') s w
    = (None, s\<lparr>rcptTo := rcptTo s @ [a], out := out s @ [ln ''250 recipient ok'']\<rparr>, w)"
proof -
  let ?a = "''TO:<'' @ a @ ''>''"
  have "splitCommand (''RCPT'' @ CHR '' '' # ?a) = (to_upper ''RCPT'', ?a)"
    by (intro split_verb) (simp_all add: command_text_def)
  then have sp: "splitCommand (''RCPT TO:<'' @ a @ ''>'') = (''RCPT'', ?a)"
    by (simp add: to_upper_ascii up_char_def)
  have "handleCommand cfg dps env (''RCPT TO:<'' @ a @ ''>'') s w = cmd_rcpt cfg dps ?a s w"
    unfolding handleCommand_def sp by simp
  also have "\<dots> = answer ''250 recipient ok'' (s\<lparr>rcptTo := rcptTo s @ [a]\<rparr>) w"
    using assms upper_to [of "CHR ''<'' # a @ ''>''"] extract_to [OF assms(4)]
    by (simp add: cmd_rcpt_def plain_addr_def)
  finally show ?thesis using assms(1) by (simp add: clean_answer)
qed

lemma say_data: "handleCommand cfg dps env ''DATA'' s w = cmd_data cfg dps env s w"
proof -
  have "splitCommand ''DATA'' = (''DATA'', [])"
    using splitCommand_verb [of "''DATA''"] by (simp add: to_upper_ascii up_char_def)
  then show ?thesis by (simp add: handleCommand_def)
qed

lemma say_quit:
  "clean s \<Longrightarrow> handleCommand cfg dps env ''QUIT'' s w = (Some QuitEOF, s\<lparr>out := out s @ [ln ''221 bye'']\<rparr>, w)"
proof -
  assume "clean s"
  moreover have "splitCommand ''QUIT'' = (''QUIT'', [])"
    using splitCommand_verb [of "''QUIT''"] by (simp add: to_upper_ascii up_char_def)
  ultimately show ?thesis by (simp add: handleCommand_def clean_replied)
qed

section \<open>The conversation\<close>

definition rcpt_lines :: "bytes list \<Rightarrow> bytes" where
  "rcpt_lines rs = concat (map (\<lambda>r. ln (''RCPT TO:<'' @ r @ ''>'')) rs)"

text \<open>Everything a client sends for one message, over TLS from the start.\<close>

definition conversation ::
  "bytes \<Rightarrow> bytes \<Rightarrow> bytes \<Rightarrow> bytes \<Rightarrow> bytes list \<Rightarrow> bytes list \<Rightarrow> bytes \<Rightarrow> bytes" where
  "conversation host user pass from rcpts ls e =
     ln (''EHLO '' @ host) @ ln (''AUTH PLAIN '' @ plain_response user pass)
     @ ln (''MAIL FROM:<'' @ from @ ''>'') @ rcpt_lines rcpts @ ln ''DATA'' @ wire ls e @ ln ''QUIT''"

definition good_rcpt :: "('q, 'a) deps \<Rightarrow> bytes \<Rightarrow> bool" where
  "good_rcpt dps r \<longleftrightarrow> plain_addr r \<and> isValidAddress (parse_addr dps) r"

lemma command_text_rcpt: "plain_addr r \<Longrightarrow> command_text (''RCPT TO:<'' @ r @ ''>'')"
  by (simp add: command_text_def plain_addr_def)

lemma command_text_mail: "plain_addr r \<Longrightarrow> command_text (''MAIL FROM:<'' @ r @ ''>'')"
  by (simp add: command_text_def plain_addr_def)

lemma command_text_auth: "command_text (''AUTH PLAIN '' @ plain_response u p)"
  using std_encode_solid [of "NUL # u @ NUL # p"] plain_response_nonempty [of u p] solid_not_LF
  by (auto simp: command_text_def plain_response_def)

lemma loop_rcpts:
  assumes "clean s" and "mailFrom s \<noteq> []" and "int (length (rcptTo s @ rs)) \<le> SMTPMaxRecipients cfg"
    and "\<forall>r\<in>set rs. good_rcpt dps r" and "\<forall>k. n \<le> k \<and> k < n + int (length rs) \<longrightarrow> undisturbed cfg ce k"
    and "rd s = rcpt_lines rs @ rest"
  shows "conn_loop cfg dps ce n s w = conn_loop cfg dps ce (n + int (length rs))
    (s\<lparr>rcptTo := rcptTo s @ rs, rd := rest, out := out s @ replicate (length rs) (ln ''250 recipient ok'')\<rparr>) w"
  using assms
proof (induction rs arbitrary: n s)
  case Nil
  then have "s\<lparr>rd := rest\<rparr> = s" by (cases s) (simp add: rcpt_lines_def)
  then show ?case by simp
next
  case (Cons r rs)
  let ?c = "''RCPT TO:<'' @ r @ ''>''"
  let ?s = "s\<lparr>rd := rcpt_lines rs @ rest, rcptTo := rcptTo s @ [r], out := out s @ [ln ''250 recipient ok'']\<rparr>"
  have r: "plain_addr r" "isValidAddress (parse_addr dps) r" using Cons.prems(4) by (simp_all add: good_rcpt_def)
  have u: "undisturbed cfg ce n" using Cons.prems(5) by simp
  have rd: "rd s = ln ?c @ (rcpt_lines rs @ rest)" using Cons.prems(6) by (simp add: rcpt_lines_def)
  have h: "handleCommand cfg dps (env_cmd ce (n + 1)) ?c (s\<lparr>rd := rcpt_lines rs @ rest\<rparr>) w = (None, ?s, w)"
    using Cons.prems(1-3) r say_rcpt [of "s\<lparr>rd := rcpt_lines rs @ rest\<rparr>" cfg r dps "env_cmd ce (n + 1)" w] by simp
  have "conn_loop cfg dps ce n s w = conn_loop cfg dps ce (n + 1) ?s w"
    using loop_command [OF u rd command_text_rcpt [OF r(1)], where dps = dps and w = w] h by simp
  also have "\<dots> = conn_loop cfg dps ce (n + 1 + int (length rs)) (?s\<lparr>rcptTo := rcptTo ?s @ rs, rd := rest,
      out := out ?s @ replicate (length rs) (ln ''250 recipient ok'')\<rparr>) w"
    using Cons.prems by (intro Cons.IH) simp_all
  finally show ?case by (simp add: algebra_simps)
qed

text \<open>What the server needs for the message to be accepted.\<close>

definition server_ready ::
  "config \<Rightarrow> (db, 'a) deps \<Rightarrow> conn_env \<Rightarrow> bytes \<Rightarrow> bytes \<Rightarrow> bytes \<Rightarrow> nat \<Rightarrow> session \<Rightarrow> (db, 'a) server \<Rightarrow> bool" where
  "server_ready cfg dps ce user pass from n s w \<longleftrightarrow>
     store dps = sqlite_ops \<and> (\<forall>k. k < 5 + int n \<longrightarrow> undisturbed cfg ce k)
     \<and> ValidateCredentials cfg user pass
     \<and> \<not> fst (authBlocked (authState w) (ip_key (remoteIP s)) (t_ip (env_cmd ce 2)))
     \<and> \<not> fst (authBlocked (authState w) (user_key user) (t_user (env_cmd ce 2)))
     \<and> (\<exists>al. may_send cfg dps from (aliases w) al)
     \<and> env_ok (env_cmd ce (4 + int n)) \<and> newMessageID (env_cmd ce (4 + int n)) \<noteq> []
     \<and> ready_for cfg (newMessageID (env_cmd ce (4 + int n))) (queue w)"

text \<open>What the client must respect.\<close>

definition message_fits ::
  "config \<Rightarrow> ('q, 'a) deps \<Rightarrow> bytes \<Rightarrow> bytes \<Rightarrow> bytes \<Rightarrow> bytes \<Rightarrow> bytes list \<Rightarrow> bytes list \<Rightarrow> bytes \<Rightarrow> bool" where
  "message_fits cfg dps host user pass from rcpts ls e \<longleftrightarrow>
     host \<noteq> [] \<and> LF \<notin> set host \<and> solid (hd host) \<and> solid (last host)
     \<and> NUL \<notin> set user \<and> NUL \<notin> set pass \<and> plain_addr from
     \<and> rcpts \<noteq> [] \<and> (\<forall>r\<in>set rcpts. good_rcpt dps r) \<and> int (length rcpts) \<le> SMTPMaxRecipients cfg
     \<and> well_formed ls e \<and> concat ls \<noteq> [] \<and> int (length (concat ls)) \<le> SMTPMaxMessageBytes cfg"

text \<open>The greeting: after the first line the session is greeted and reads on.\<close>

lemma greeting_dialogue:
  assumes "undisturbed cfg ce 0" and "host \<noteq> []" and "LF \<notin> set host" and "solid (hd host)" and "solid (last host)"
    and "s = new_session addr True plain (ln (''EHLO '' @ host) @ rest) []"
  shows "handleConn cfg dps ce s w = conn_loop cfg dps ce 1
    (s\<lparr>rd := rest, greeted := True,
       out := [ln (''220 '' @ SMTPHostname cfg @ '' ESMTP ready'')] @ ehlo_lines cfg True\<rparr>) w"
proof -
  let ?t = "s\<lparr>out := [ln (''220 '' @ SMTPHostname cfg @ '' ESMTP ready'')]\<rparr>"
  have c: "clean s" "clean (?t\<lparr>rd := rest\<rparr>)" by (simp_all add: assms(6) new_session_def clean_def)
  have cmd: "command_text (''EHLO '' @ host)" using assms(2-5) by (simp add: command_text_def)
  have "rd ?t = ln (''EHLO '' @ host) @ rest" by (simp add: assms(6) new_session_def)
  note lc = loop_command [OF assms(1) this cmd, of dps w]
  have "handleConn cfg dps ce s w = conn_loop cfg dps ce 0 ?t w"
    using c by (simp add: handleConn_def clean_reply_error clean_replied) (simp add: assms(6) new_session_def)
  then show ?thesis
    using lc say_ehlo [OF c(2) assms(2,4,5), of cfg dps "env_cmd ce 1" w]
    by (simp add: assms(6) new_session_def resetEnvelope_def)
qed

text \<open>Authentication and the envelope: the session stands before DATA.\<close>

lemma envelope_dialogue:
  assumes ready: "server_ready cfg dps ce user pass from (length rcpts) s w"
    and fits: "message_fits cfg dps host user pass from rcpts ls e"
    and s: "s = new_session addr True plain (conversation host user pass from rcpts ls e) []"
  shows "\<exists>t v. handleConn cfg dps ce s w = conn_loop cfg dps ce (3 + int (length rcpts)) t v
    \<and> clean t \<and> mailFrom t = from \<and> rcptTo t = rcpts \<and> rd t = ln ''DATA'' @ wire ls e @ ln ''QUIT''
    \<and> queue v = queue w"
proof -
  let ?n = "int (length rcpts)"
  let ?data = "ln ''DATA'' @ wire ls e @ ln ''QUIT''"
  let ?mail = "ln (''MAIL FROM:<'' @ from @ ''>'') @ rcpt_lines rcpts @ ?data"
  let ?auth = "ln (''AUTH PLAIN '' @ plain_response user pass) @ ?mail"
  have u: "undisturbed cfg ce k" if "k < 5 + ?n" for k using ready that by (simp add: server_ready_def)
  obtain al where al: "may_send cfg dps from (aliases w) al" using ready by (auto simp: server_ready_def)
  have fr: "plain_addr from" using fits by (simp add: message_fits_def)
  define s1 where "s1 = s\<lparr>rd := ?auth, greeted := True,
    out := [ln (''220 '' @ SMTPHostname cfg @ '' ESMTP ready'')] @ ehlo_lines cfg True\<rparr>"
  define w2 where "w2 = w\<lparr>authState := clearAuthState (authState w) (user_key user)\<rparr>"
  define s2 where "s2 = s1\<lparr>rd := ?mail, authed := True, out := out s1 @ [auth_reply]\<rparr>"
  define s3 where "s3 = s2\<lparr>rd := rcpt_lines rcpts @ ?data, mailFrom := from, out := out s2 @ [ln ''250 sender ok'']\<rparr>"
  define s4 where "s4 = s3\<lparr>rcptTo := rcpts, rd := ?data, out := out s3 @ replicate (length rcpts) (ln ''250 recipient ok'')\<rparr>"
  have "clean s" by (simp add: s new_session_def clean_def)
  then have c: "clean s1" "clean s2" "clean s3" "clean s4"
    by (simp_all add: s1_def s2_def s3_def s4_def)
  have "handleConn cfg dps ce s w = conn_loop cfg dps ce 1 s1 w"
    using greeting_dialogue [of cfg ce host s addr plain ?auth dps w] u [of 0] fits
    by (simp add: s1_def message_fits_def s conversation_def)
  also have "\<dots> = conn_loop cfg dps ce 2 s2 w2"
  proof -
    have r: "rd s1 = ln (''AUTH PLAIN '' @ plain_response user pass) @ ?mail" by (simp add: s1_def)
    have "remoteIP (s1\<lparr>rd := ?mail\<rparr>) = remoteIP s" by (simp add: remoteIP_def s1_def)
    then have "may_auth cfg (env_cmd ce 2) user (s1\<lparr>rd := ?mail\<rparr>) w"
      using ready by (simp add: may_auth_def server_ready_def) (simp add: s1_def s new_session_def)
    from say_auth [OF _ this, of pass dps] loop_command [OF _ r command_text_auth, of cfg ce 1 dps w] show ?thesis
      using u [of 1] c ready fits
      by (simp add: server_ready_def message_fits_def s2_def w2_def) (simp add: s1_def s new_session_def)
  qed
  also have "\<dots> = conn_loop cfg dps ce 3 s3 (w2\<lparr>aliases := al\<rparr>)"
  proof -
    have r: "rd s2 = ln (''MAIL FROM:<'' @ from @ ''>'') @ (rcpt_lines rcpts @ ?data)" by (simp add: s2_def)
    have p: "greeted s2" "authed s2" "mailFrom s2 = []" by (simp_all add: s2_def s1_def s new_session_def)
    from say_mail [of "s2\<lparr>rd := rcpt_lines rcpts @ ?data\<rparr>" "from" cfg dps w2 al "env_cmd ce 3"]
      loop_command [OF _ r command_text_mail [OF fr], of cfg ce 2 dps w2] show ?thesis
      using u [of 2] c p fr al by (simp add: s3_def w2_def)
  qed
  also have "\<dots> = conn_loop cfg dps ce (3 + ?n) s4 (w2\<lparr>aliases := al\<rparr>)"
  proof -
    have "rcptTo s3 = []" "mailFrom s3 \<noteq> []" "rd s3 = rcpt_lines rcpts @ ?data"
      using fr by (simp_all add: s3_def s2_def s1_def s new_session_def plain_addr_def)
    then show ?thesis
      using loop_rcpts [of s3 rcpts cfg dps 3 ce ?data "w2\<lparr>aliases := al\<rparr>"] c u fits
      by (simp add: message_fits_def s4_def)
  qed
  finally show ?thesis
    using c by (intro exI [of _ s4] exI [of _ "w2\<lparr>aliases := al\<rparr>"]) (simp add: s4_def s3_def w2_def)
qed

text \<open>The message and the end of the session.\<close>

lemma message_dialogue:
  assumes "clean s" and "mailFrom s \<noteq> []" and "rcptTo s \<noteq> []" and "rd s = ln ''DATA'' @ wire ls e @ ln ''QUIT''"
    and "undisturbed cfg ce n" and "undisturbed cfg ce (n + 1)" and "store dps = sqlite_ops"
    and "ready_for cfg (newMessageID (env_cmd ce (n + 1))) (queue w)" and "newMessageID (env_cmd ce (n + 1)) \<noteq> []"
    and "env_ok (env_cmd ce (n + 1))" and "well_formed ls e" and "concat ls \<noteq> []"
    and "int (length (concat ls)) \<le> SMTPMaxMessageBytes cfg"
  shows "\<exists>s' w'. conn_loop cfg dps ce n s w = (CommandFailed QuitEOF, s', w')
    \<and> suffix [data_prompt, queued_reply, ln ''221 bye''] (out s')
    \<and> db_view (queue w') = (db_view (queue w))(newMessageID (env_cmd ce (n + 1))
        \<mapsto> \<lparr>e_from = mailFrom s, e_rcpts = rcptTo s, e_data = concat ls, e_status = Pending, e_attempts = 0\<rparr>)"
proof -
  let ?d = "s\<lparr>rd := wire ls e @ ln ''QUIT''\<rparr>"
  let ?env = "env_cmd ce (n + 1)"
  have "ready_to_send ?d" using assms(1-3) by (simp add: ready_to_send_def clean_def)
  then obtain s5 w5 where d: "cmd_data cfg dps ?env ?d w = (None, s5, w5)"
    and r5: "rd s5 = ln ''QUIT''" "flush_oks s5 = []" "wbuf s5 = []" "out s5 = out ?d @ wbuf ?d @ [data_prompt, queued_reply]"
    and v5: "db_view (queue w5) = (db_view (queue w))(newMessageID ?env \<mapsto> new_entry (data_message ?env (concat ls) ?d))"
    using cmd_data_delivers [of dps cfg ?env w ?d ls e "ln ''QUIT''"] assms(7-13) by auto
  have "conn_loop cfg dps ce n s w = conn_loop cfg dps ce (n + 1) s5 w5"
    using loop_command [OF assms(5,4), of dps w] say_data [of cfg dps ?env ?d w] d
    by (simp add: command_text_def)
  also have "\<dots> = (CommandFailed QuitEOF, s5\<lparr>rd := [], out := out s5 @ [ln ''221 bye'']\<rparr>, w5)"
    using loop_command [OF assms(6), of s5 "''QUIT''" "[]" dps w5] r5
      say_quit [of "s5\<lparr>rd := []\<rparr>" cfg dps "env_cmd ce (n + 1 + 1)" w5]
    by (simp add: command_text_def clean_def)
  finally show ?thesis
    using v5 r5 by (auto simp: suffix_def new_entry_def data_message_def)
qed

lemma conversation_queues:
  assumes ready: "server_ready cfg dps ce user pass from (length rcpts) s w"
    and fits: "message_fits cfg dps host user pass from rcpts ls e"
    and s: "s = new_session addr True plain (conversation host user pass from rcpts ls e) []"
  shows "\<exists>s' w'. handleConn cfg dps ce s w = (CommandFailed QuitEOF, s', w')
    \<and> suffix [data_prompt, queued_reply, ln ''221 bye''] (out s')
    \<and> db_view (queue w') = (db_view (queue w))(newMessageID (env_cmd ce (4 + int (length rcpts)))
        \<mapsto> \<lparr>e_from = from, e_rcpts = rcpts, e_data = concat ls, e_status = Pending, e_attempts = 0\<rparr>)"
proof -
  let ?n = "int (length rcpts)"
  obtain t v where h: "handleConn cfg dps ce s w = conn_loop cfg dps ce (3 + ?n) t v" and t: "clean t"
    "mailFrom t = from" "rcptTo t = rcpts" "rd t = ln ''DATA'' @ wire ls e @ ln ''QUIT''" and v: "queue v = queue w"
    using envelope_dialogue [OF assms] by blast
  have n: "3 + ?n + 1 = 4 + ?n" by simp
  have "from \<noteq> []" "rcpts \<noteq> []" using fits by (simp_all add: message_fits_def plain_addr_def)
  then show ?thesis
    using message_dialogue [of t ls e cfg ce "3 + ?n" dps v] t v ready fits
    unfolding n h by (simp add: server_ready_def message_fits_def)
qed

end
