(* ===== verification/Authentication.thy ===== *)
theory Authentication
  imports Dialogue
begin

text \<open>
  AUTH from the outside: how many failures lock a key, that the lines of AUTH LOGIN and the
  response of AUTH PLAIN lead to the same check, and that only valid credentials ever set the
  authenticated flag of a session.
\<close>

section \<open>Lockout\<close>

text \<open>The state of a key after \<open>j\<close> failures in one window.\<close>

definition counting :: "time \<Rightarrow> int \<Rightarrow> authControl \<Rightarrow> bool" where
  "counting t0 j st \<longleftrightarrow> WindowStart st = t0 \<and> Attempts st = j \<and> LockedUntil st = 0"

lemma fails_append: "failing (recordAuthFailureKey cfg) m (es @ [e]) = recordAuthFailureKey cfg (failing (recordAuthFailureKey cfg) m es) (fst e) (snd e)"
  by (induction es arbitrary: m) simp_all

text \<open>The failures of one key, all inside a minute from the first.\<close>

definition in_window :: "time \<Rightarrow> time list \<Rightarrow> bool" where
  "in_window t0 ts \<longleftrightarrow> 0 < t0 \<and> (\<forall>t\<in>set ts. t0 \<le> t \<and> t < t0 + minute)"

lemma fails_counting:
  assumes "m k = None" and "in_window t0 (t0 # ts)" and "int (length (t0 # ts)) < SMTPAuthRateLimitPerMin cfg"
  shows "\<exists>st. failing (recordAuthFailureKey cfg) m (map (Pair k) (t0 # ts)) k = Some st \<and> counting t0 (int (length (t0 # ts))) st"
  using assms(2,3)
proof (induction ts rule: rev_induct)
  case Nil
  have "failing (recordAuthFailureKey cfg) m (map (Pair k) [t0]) = recordAuthFailureKey cfg m k t0" by simp
  then show ?case
    unfolding \<open>failing (recordAuthFailureKey cfg) m (map (Pair k) [t0]) = recordAuthFailureKey cfg m k t0\<close>
    using Nil assms(1)
    by (simp add: recordAuthFailureKey_def zero_control_def counting_def in_window_def Let_def)
next
  case (snoc t ts)
  then obtain st where st: "failing (recordAuthFailureKey cfg) m (map (Pair k) (t0 # ts)) k = Some st"
    "counting t0 (int (length (t0 # ts))) st"
    by (auto simp: in_window_def)
  have t: "t0 \<le> t" "t < t0 + minute" "0 < t0" using snoc.prems(1) by (simp_all add: in_window_def)
  have e: "map (Pair k) (t0 # ts @ [t]) = map (Pair k) (t0 # ts) @ [(k, t)]" by simp
  have len: "1 + int (length (t0 # ts)) < SMTPAuthRateLimitPerMin cfg" using snoc.prems(2) by simp
  show ?case
    unfolding e fails_append using st t len
    by (simp add: recordAuthFailureKey_def counting_def Let_def)
qed

text \<open>The failure that reaches the limit locks the key.\<close>

lemma fails_lock:
  assumes "m k = None" and "in_window t0 (t0 # ts @ [t])" and "int (length (t0 # ts @ [t])) = SMTPAuthRateLimitPerMin cfg"
  shows "\<exists>st. failing (recordAuthFailureKey cfg) m (map (Pair k) (t0 # ts @ [t])) k = Some st
    \<and> LockedUntil st = t + dur_seconds (SMTPAuthLockoutSeconds cfg)"
proof -
  have "in_window t0 (t0 # ts)" "int (length (t0 # ts)) < SMTPAuthRateLimitPerMin cfg"
    using assms(2,3) by (simp_all add: in_window_def)
  from fails_counting [of m k t0 ts cfg, OF assms(1) this] obtain st where
    st: "failing (recordAuthFailureKey cfg) m (map (Pair k) (t0 # ts)) k = Some st" "counting t0 (int (length (t0 # ts))) st" by blast
  have t: "t0 \<le> t" "t < t0 + minute" "0 < t0" using assms(2) by (simp_all add: in_window_def)
  have e: "map (Pair k) (t0 # ts @ [t]) = map (Pair k) (t0 # ts) @ [(k, t)]" by simp
  show ?thesis
    unfolding e fails_append using st t assms(3)
    by (simp add: recordAuthFailureKey_def counting_def Let_def)
qed

section \<open>AUTH\<close>

text \<open>The two lines of AUTH LOGIN.\<close>

lemma prompt_line:
  assumes "clean s" and "rd s = ln c @ rest" and "LF \<notin> set c" and "c = [] \<or> (solid (hd c) \<and> solid (last c))"
  shows "prompt m s = (Inr c, s\<lparr>rd := rest, out := out s @ [ln m]\<rparr>)"
proof -
  have "LF \<notin> set (c @ [CR])" using assms(3) by simp
  then have "read_line ((c @ [CR]) @ LF # rest) = Some ((c @ [CR]) @ [LF], rest)" by (rule read_line_append)
  then have "read_string (s\<lparr>out := out s @ [ln m]\<rparr>) = (Some (c @ crlf), s\<lparr>out := out s @ [ln m], rd := rest\<rparr>)"
    by (simp add: read_string_def assms(2) ln_def crlf_def)
  then show ?thesis
    using trim_space_line [OF assms(4)] by (simp add: prompt_def clean_replied clean_reply_error assms(1))
qed

lemma std_encode_line: "LF \<notin> set (std_encode x) \<and> (std_encode x = [] \<or> (solid (hd (std_encode x)) \<and> solid (last (std_encode x))))"
  using std_encode_solid [of x] solid_not_LF by (cases "std_encode x = []") auto

lemma auth_login_dialogue:
  assumes "clean s" and "rd s = ln (std_encode user) @ ln (std_encode pass) @ rest"
  shows "auth_login cfg env s w = auth_check cfg env user pass
    (s\<lparr>rd := rest, out := out s @ [ln ''334 VXNlcm5hbWU6'', ln ''334 UGFzc3dvcmQ6'']\<rparr>) w"
proof -
  let ?s1 = "s\<lparr>rd := ln (std_encode pass) @ rest, out := out s @ [ln ''334 VXNlcm5hbWU6'']\<rparr>"
  have p1: "prompt ''334 VXNlcm5hbWU6'' s = (Inr (std_encode user), ?s1)"
    by (rule prompt_line) (use assms std_encode_line [of user] in auto)
  have p2: "prompt ''334 UGFzc3dvcmQ6'' ?s1
    = (Inr (std_encode pass), ?s1\<lparr>rd := rest, out := out ?s1 @ [ln ''334 UGFzc3dvcmQ6'']\<rparr>)"
    by (rule prompt_line) (use assms std_encode_line [of pass] in auto)
  show ?thesis
    unfolding auth_login_def p1 prod.case sum.case std_decode_encode option.case p2 by simp
qed

text \<open>A session becomes authenticated by valid credentials alone.\<close>

definition proven :: "config \<Rightarrow> cmd_env \<Rightarrow> ('q, 'a) server \<Rightarrow> bool" where
  "proven cfg env w \<longleftrightarrow>
     (\<exists>u p. ValidateCredentials cfg u p \<and> \<not> fst (authBlocked (authState w) (user_key u) (t_user env)))"

lemma auth_check_proven:
  "auth_check cfg env u p s w = (e, s', w') \<Longrightarrow> authed s' \<Longrightarrow> authed s \<or> proven cfg env w"
  unfolding proven_def by (auto simp: auth_check_def answer_def split: prod.splits bool.splits if_splits)

lemma auth_plain_payload_proven:
  "auth_plain_payload cfg env pl s w = (e, s', w') \<Longrightarrow> authed s' \<Longrightarrow> authed s \<or> proven cfg env w"
  by (auto simp: auth_plain_payload_def answer_def Let_def split: option.splits if_splits dest: auth_check_proven)

lemma handleAuth_proven:
  assumes "handleAuth cfg env args s w = (e, s', w')" and "authed s'"
  shows "authed s \<or> proven cfg env w"
proof -
  obtain r s1 where p: "prompt ''334 '' s = (r, s1)" by fastforce
  obtain r' s1' where p': "prompt ''334 VXNlcm5hbWU6'' s = (r', s1')" by fastforce
  obtain r'' s2 where p'': "prompt ''334 UGFzc3dvcmQ6'' s1' = (r'', s2)" by fastforce
  have a: "authed s1 = authed s" "authed s1' = authed s" "authed s2 = authed s"
    using same_state_prompt [OF p] same_state_prompt [OF p'] same_state_prompt [OF p'']
    by (simp_all add: same_state_def)
  have "authed s \<or> proven cfg env w" if "auth_plain cfg env parts s w = (e, s', w')" for parts
    using that p a assms(2) auth_plain_payload_proven [of cfg env _ s1 w e s' w']
      auth_plain_payload_proven [of cfg env _ s w e s' w']
    by (cases r) (auto simp: auth_plain_def split: if_splits)
  moreover have "authed s \<or> proven cfg env w" if "auth_login cfg env s w = (e, s', w')"
    using that p' p'' a assms(2) auth_check_proven [of cfg env _ _ s2 w e s' w']
    by (cases r'; cases r'') (auto simp: auth_login_def answer_def split: option.splits)
  ultimately show ?thesis
    using assms by (auto simp: handleAuth_def answer_def Let_def split: if_splits)
qed

lemma handleCommand_proven:
  assumes "handleCommand cfg dps env raw s w = (e, s', w')" and "authed s'"
  shows "authed s \<or> (proven cfg env w \<and> \<not> fst (authBlocked (authState w) (ip_key (remoteIP s)) (t_ip env)))"
proof (cases "authed s")
  case False
  then have "cmd_auth cfg env (snd (splitCommand raw)) s w = (e, s', w')"
    using handleCommand_step [OF assms(1)] assms
    by (auto simp: handleCommand_def abs_phase_def no_envelope_def elim!: smtp_stepE split: prod.splits)
  then show ?thesis
    using False assms(2) handleAuth_proven [of cfg env "snd (splitCommand raw)" s w e s' w']
    by (auto simp: cmd_auth_def answer_def split: if_splits prod.splits bool.splits)
qed simp

end
