(* ===== verification/Runner.thy ===== *)
theory Runner
  imports Queue_Spec Gmail_Sender "HOL-Library.Word"
begin

text \<open>
  internal/worker/runner.go: the configuration and counters of the delivery worker, the delay
  before a retry, and \<open>processOne\<close>, which claims a message, sends it and records the outcome.
  The store is any \<open>Store\<close> over queue states \<open>'q\<close>, the sender any \<open>gmail.Sender\<close> over sender
  states \<open>'s\<close>. The worker's log lines are not modelled.
\<close>

section \<open>State\<close>

record runner_config =
  PollInterval :: duration
  Concurrency :: int
  MaxAttempts :: int
  RetryBaseBackoff :: duration
  RetryMaxBackoff :: duration

text \<open>The counters are \<open>uint64\<close>.\<close>

record runner =
  processedCount :: "64 word"
  sentCount :: "64 word"
  retriedCount :: "64 word"
  failedCount :: "64 word"
  lastProcessedAt :: time

record runner_stats =
  ProcessedCount :: "64 word"
  StatsSentCount :: "64 word"
  RetriedCount :: "64 word"
  StatsFailedCount :: "64 word"
  LastProcessedAt :: time

type_synonym 's sender = "bytes \<Rightarrow> bytes list \<Rightarrow> bytes \<Rightarrow> 's \<Rightarrow> go_error option \<times> 's"

datatype runner_error = NilDependency | NotPositive

text \<open>\<open>NewRunner\<close>: the flag is whether the logger, the store and the sender are all non-nil.\<close>

definition NewRunner :: "runner_config \<Rightarrow> bool \<Rightarrow> runner_error + runner" where
  "NewRunner cfg deps_ok =
     (if \<not> deps_ok then Inl NilDependency
      else if PollInterval cfg \<le> 0 \<or> Concurrency cfg \<le> 0 \<or> MaxAttempts cfg \<le> 0
              \<or> RetryBaseBackoff cfg \<le> 0 \<or> RetryMaxBackoff cfg \<le> 0 then Inl NotPositive
      else Inr \<lparr>processedCount = 0, sentCount = 0, retriedCount = 0, failedCount = 0,
                lastProcessedAt = 0\<rparr>)"

definition runner_Stats :: "runner \<Rightarrow> runner_stats" where
  "runner_Stats r =
     \<lparr>ProcessedCount = processedCount r, StatsSentCount = sentCount r, RetriedCount = retriedCount r,
      StatsFailedCount = failedCount r, LastProcessedAt = lastProcessedAt r\<rparr>"

definition recordProcessed :: "time \<Rightarrow> runner \<Rightarrow> runner" where
  "recordProcessed now r = r\<lparr>processedCount := processedCount r + 1, lastProcessedAt := now\<rparr>"

section \<open>The delay before a retry\<close>

text \<open>The loop of \<open>backoffDuration\<close> with \<open>n\<close> iterations left; \<open>d *= 2\<close> is an \<open>int64\<close> product.\<close>

fun backoff_loop :: "nat \<Rightarrow> duration \<Rightarrow> duration \<Rightarrow> duration" where
  "backoff_loop 0 mx d = (if mx < d then mx else d)"
| "backoff_loop (Suc n) mx d =
     (let d = wrap64 (d * 2) in if mx \<le> d then mx else backoff_loop n mx d)"

definition backoffDuration :: "int \<Rightarrow> duration \<Rightarrow> duration \<Rightarrow> duration" where
  "backoffDuration attempt base mx = backoff_loop (nat (attempt - 1)) mx base"

section \<open>One delivery\<close>

text \<open>The clock readings of one \<open>processOne\<close>.\<close>

record work_env =
  w_claim :: time
  w_processed :: time
  w_next :: time
  w_mark :: time

text \<open>What follows the send: count the outcome and mark the message.\<close>

definition finish ::
  "runner_config \<Rightarrow> 'q store_ops \<Rightarrow> work_env \<Rightarrow> message \<Rightarrow> go_error option \<Rightarrow> runner \<times> 'q
   \<Rightarrow> store_error option \<times> runner \<times> 'q" where
  "finish cfg ops env msg sendErr st =
     (let (r, q) = st;
          r = recordProcessed (w_processed env) r
      in case sendErr of
           None \<Rightarrow>
             (let r = r\<lparr>sentCount := sentCount r + 1\<rparr>;
                  (err, q) = op_MarkSent ops (ID msg) (w_mark env) q
              in (err, r, q))
         | Some e \<Rightarrow>
             (let lastErr = error_text e in
              if MaxAttempts cfg \<le> MsgAttempts msg \<or> \<not> IsTransient e then
                (let r = r\<lparr>failedCount := failedCount r + 1\<rparr>;
                     (err, q) = op_MarkFailed ops (ID msg) lastErr (w_mark env) q
                 in (err, r, q))
              else
                (let nextAttempt = w_next env
                       + backoffDuration (MsgAttempts msg) (RetryBaseBackoff cfg) (RetryMaxBackoff cfg);
                     r = r\<lparr>retriedCount := retriedCount r + 1\<rparr>;
                     (err, q) = op_MarkRetry ops (ID msg) nextAttempt lastErr (w_mark env) q
                 in (err, r, q))))"

text \<open>What follows a claim that took a message.\<close>

definition deliver ::
  "runner_config \<Rightarrow> 'q store_ops \<Rightarrow> 's sender \<Rightarrow> work_env \<Rightarrow> message \<Rightarrow> runner \<times> 'q \<times> 's
   \<Rightarrow> store_error option \<times> runner \<times> 'q \<times> 's" where
  "deliver cfg ops send env msg st =
     (let (r, q, s) = st;
          (sendErr, s) = send (MailFrom msg) (Recipients msg) (Data msg) s;
          (err, r, q) = finish cfg ops env msg sendErr (r, q)
      in (err, r, q, s))"

definition processOne ::
  "runner_config \<Rightarrow> 'q store_ops \<Rightarrow> 's sender \<Rightarrow> work_env \<Rightarrow> runner \<times> 'q \<times> 's
   \<Rightarrow> store_error option \<times> runner \<times> 'q \<times> 's" where
  "processOne cfg ops send env st =
     (let (r, q, s) = st in
      case op_ClaimNextPending ops (w_claim env) q of
        (Inl err, q) \<Rightarrow> (Some err, r, q, s)
      | (Inr None, q) \<Rightarrow> (None, r, q, s)
      | (Inr (Some msg), q) \<Rightarrow> deliver cfg ops send env msg (r, q, s))"

text \<open>\<open>Run\<close> with one worker: one \<open>processOne\<close> per tick, its error only logged.\<close>

fun run_ticks ::
  "runner_config \<Rightarrow> 'q store_ops \<Rightarrow> 's sender \<Rightarrow> work_env list \<Rightarrow> runner \<times> 'q \<times> 's
   \<Rightarrow> runner \<times> 'q \<times> 's" where
  "run_ticks cfg ops send [] st = st"
| "run_ticks cfg ops send (env # envs) st =
     run_ticks cfg ops send envs (snd (processOne cfg ops send env st))"

end
