(* ===== verification/Delivery.thy ===== *)
theory Delivery
  imports Runner Sqlite_Store
begin

text \<open>
  The delivery worker against the queue contract: the exact retry delay, the effect of one
  \<open>processOne\<close> on the abstract queue, the bound on attempts, the counters, and a proof that
  the queue drains when the store and the sender work.
\<close>

section \<open>The delay before a retry\<close>

text \<open>With delays in the lower half of the \<open>int64\<close> range no product wraps.\<close>

lemma backoff_loop_exact:
  assumes "0 < d" and "d < 2 ^ 62" and "0 < mx" and "mx \<le> 2 ^ 62"
  shows "backoff_loop n mx d = min mx (d * 2 ^ n)"
  using assms(1,2)
proof (induction n arbitrary: d)
  case (Suc n)
  have w: "wrap64 (d * 2) = d * 2" by (rule wrap64_id) (use Suc.prems in simp_all)
  show ?case
  proof (cases "mx \<le> d * 2")
    case True
    have "d * 2 * 1 \<le> d * 2 * 2 ^ n" using Suc.prems by (intro mult_left_mono) simp_all
    with True show ?thesis by (simp add: w mult.assoc)
  next
    case False
    with Suc.IH [of "d * 2"] Suc.prems assms(4) show ?thesis by (simp add: w mult.assoc)
  qed
qed simp

lemma backoff_exact:
  assumes "0 < base" and "base < 2 ^ 62" and "0 < mx" and "mx \<le> 2 ^ 62"
  shows "backoffDuration attempt base mx = min mx (base * 2 ^ nat (attempt - 1))"
  unfolding backoffDuration_def by (rule backoff_loop_exact [OF assms])

lemma backoff_overflow: "backoffDuration 35 second (9223372036 * second) < 0"
  by code_simp

lemma backoff_range:
  assumes "0 < base" and "base < 2 ^ 62" and "0 < mx" and "mx \<le> 2 ^ 62"
  shows "0 < backoffDuration attempt base mx \<and> backoffDuration attempt base mx \<le> mx"
  using assms(1,3) by (simp add: backoff_exact [OF assms])

section \<open>One delivery\<close>

text \<open>The clock readings are representable, and so is the latest time a retry can get.\<close>

definition work_ok :: "runner_config \<Rightarrow> work_env \<Rightarrow> bool" where
  "work_ok cfg env \<longleftrightarrow>
     valid_time (w_claim env) \<and> valid_time (w_mark env) \<and> valid_time (w_next env)
     \<and> valid_time (w_next env + RetryMaxBackoff cfg)"

definition backoff_ok :: "runner_config \<Rightarrow> bool" where
  "backoff_ok cfg \<longleftrightarrow>
     0 < RetryBaseBackoff cfg \<and> RetryBaseBackoff cfg < 2 ^ 62
     \<and> 0 < RetryMaxBackoff cfg \<and> RetryMaxBackoff cfg \<le> 2 ^ 62"

lemma retry_time_valid:
  assumes "backoff_ok cfg" and "work_ok cfg env"
  shows "valid_time (w_next env + backoffDuration a (RetryBaseBackoff cfg) (RetryMaxBackoff cfg))"
proof -
  have "0 < backoffDuration a (RetryBaseBackoff cfg) (RetryMaxBackoff cfg)
    \<and> backoffDuration a (RetryBaseBackoff cfg) (RetryMaxBackoff cfg) \<le> RetryMaxBackoff cfg"
    using assms(1) by (intro backoff_range) (simp_all add: backoff_ok_def)
  then show ?thesis using assms(2) by (auto simp: work_ok_def valid_time_def)
qed

text \<open>The status a delivery ends in, by the number of attempts made and the outcome of the send.\<close>

definition verdict :: "runner_config \<Rightarrow> int \<Rightarrow> go_error option \<Rightarrow> status" where
  "verdict cfg n outcome =
     (case outcome of
        None \<Rightarrow> Sent
      | Some e \<Rightarrow> if MaxAttempts cfg \<le> n \<or> \<not> IsTransient e then Failed else Pending)"

text \<open>What one call of \<open>processOne\<close> does: nothing, or one pending entry is claimed, its message
  is handed to the sender, and the entry gets the verdict, unless the last store call fails.\<close>

definition delivery_step ::
  "runner_config \<Rightarrow> 's sender \<Rightarrow> store_error option \<Rightarrow> queue_view \<Rightarrow> 's \<Rightarrow> queue_view \<Rightarrow> 's \<Rightarrow> bool" where
  "delivery_step cfg send err v s v' s' \<longleftrightarrow>
     v' = v \<and> s' = s
     \<or> (\<exists>i e res. v i = Some e \<and> e_status e = Pending
          \<and> send (e_from e) (e_rcpts e) (e_data e) s = (res, s')
          \<and> v' = v(i \<mapsto> (claimed e)\<lparr>e_status :=
                 (if err = None then verdict cfg (e_attempts e + 1) res else Processing)\<rparr>))"

context queue_store
begin

lemma finish_law:
  assumes "finish cfg ops env m res (r, q) = (err, r', q')"
    and "inv q" and "backoff_ok cfg" and "work_ok cfg env"
  shows "inv q'
    \<and> view q' = (if err = None then set_status (ID m) (verdict cfg (MsgAttempts m) res) (view q) else view q)"
proof -
  have t: "valid_time (w_mark env)" using assms(4) by (simp add: work_ok_def)
  note retry = retry_time_valid [OF assms(3,4)]
  show ?thesis
  proof (cases res)
    case None
    then show ?thesis
      using assms(1) mark_sent_law [OF assms(2) t]
      by (auto simp: finish_def verdict_def Let_def split: prod.splits if_splits)
  next
    case (Some e)
    show ?thesis
    proof (cases "MaxAttempts cfg \<le> MsgAttempts m \<or> \<not> IsTransient e")
      case True
      then show ?thesis
        using assms(1) Some mark_failed_law [OF assms(2) t]
        by (auto simp: finish_def verdict_def Let_def split: prod.splits if_splits)
    next
      case False
      then show ?thesis
        using assms(1) Some mark_retry_law [OF assms(2) t retry]
        by (auto simp: finish_def verdict_def Let_def split: prod.splits if_splits)
    qed
  qed
qed

lemma deliver_law:
  assumes "deliver cfg ops send env m (r, q, s) = (err, r', q', s')"
    and "send (MailFrom m) (Recipients m) (Data m) s = (res, s1)"
    and "inv q" and "backoff_ok cfg" and "work_ok cfg env"
  shows "inv q' \<and> s' = s1
    \<and> view q' = (if err = None then set_status (ID m) (verdict cfg (MsgAttempts m) res) (view q) else view q)"
proof -
  have "finish cfg ops env m res (r, q) = (err, r', q')" "s' = s1"
    using assms(1,2) by (auto simp: deliver_def split: prod.splits)
  with finish_law [OF this(1) assms(3-5)] show ?thesis by simp
qed

lemma processOne_law:
  assumes "processOne cfg ops send env (r, q, s) = (err, r', q', s')"
    and "inv q" and "backoff_ok cfg" and "work_ok cfg env"
  shows "inv q' \<and> delivery_step cfg send err (view q) s (view q') s'"
proof -
  have t: "valid_time (w_claim env)" using assms(4) by (simp add: work_ok_def)
  obtain taken q1 where c: "op_ClaimNextPending ops (w_claim env) q = (taken, q1)" by fastforce
  note law = claim_law [OF assms(2) t c]
  show ?thesis
  proof (cases "\<exists>m. taken = Inr (Some m)")
    case False
    then have "q' = q1" "s' = s"
      using assms(1) c by (auto simp: processOne_def split: sum.splits option.splits)
    then show ?thesis using law False by (auto simp: delivery_step_def split: sum.splits option.splits)
  next
    case True
    then obtain m where m: "taken = Inr (Some m)" by blast
    with law obtain e where e: "view q (ID m) = Some e" "e_status e = Pending" "carries m e"
      and v1: "view q1 = (view q)(ID m \<mapsto> claimed e)" and i1: "inv q1" by auto
    obtain res s1 where snd: "send (MailFrom m) (Recipients m) (Data m) s = (res, s1)" by fastforce
    have d: "deliver cfg ops send env m (r, q1, s) = (err, r', q', s')"
      using assms(1) c m by (simp add: processOne_def)
    note dl = deliver_law [OF d snd i1 assms(3,4)]
    have "view q' = (view q)(ID m \<mapsto> (claimed e)\<lparr>e_status :=
        (if err = None then verdict cfg (e_attempts e + 1) res else Processing)\<rparr>)"
      using dl e(3) by (cases e) (simp add: v1 set_status_def carries_def claimed_def)
    moreover have "send (e_from e) (e_rcpts e) (e_data e) s = (res, s')"
      using snd dl e(3) by (simp add: carries_def)
    ultimately show ?thesis using dl e by (auto simp: delivery_step_def)
  qed
qed

end

section \<open>Attempts\<close>

text \<open>No entry was attempted more often than allowed, and one that waits may be tried again.\<close>

definition entry_attempts_ok :: "runner_config \<Rightarrow> entry \<Rightarrow> bool" where
  "entry_attempts_ok cfg e \<longleftrightarrow>
     e_attempts e \<le> MaxAttempts cfg \<and> (e_status e = Pending \<longrightarrow> e_attempts e < MaxAttempts cfg)"

definition attempts_ok :: "runner_config \<Rightarrow> queue_view \<Rightarrow> bool" where
  "attempts_ok cfg v \<longleftrightarrow> (\<forall>i e. v i = Some e \<longrightarrow> entry_attempts_ok cfg e)"

lemma attempts_ok_upd: "attempts_ok cfg v \<Longrightarrow> entry_attempts_ok cfg e \<Longrightarrow> attempts_ok cfg (v(i \<mapsto> e))"
  by (simp add: attempts_ok_def)

lemma entry_attempts_ok_step:
  assumes "entry_attempts_ok cfg e" and "e_status e = Pending" and "st = Processing \<or> st = verdict cfg (e_attempts e + 1) res"
  shows "entry_attempts_ok cfg ((claimed e)\<lparr>e_status := st\<rparr>)"
  using assms by (auto simp: entry_attempts_ok_def claimed_def verdict_def split: option.splits if_splits)

lemma attempts_ok_step:
  assumes "attempts_ok cfg v" and "delivery_step cfg send err v s v' s'"
  shows "attempts_ok cfg v'"
proof (cases "v' = v")
  case False
  then obtain i e res where e: "v i = Some e" "e_status e = Pending"
    and v': "v' = v(i \<mapsto> (claimed e)\<lparr>e_status := (if err = None then verdict cfg (e_attempts e + 1) res else Processing)\<rparr>)"
    using assms(2) unfolding delivery_step_def by blast
  have "entry_attempts_ok cfg e" using assms(1) e(1) by (simp add: attempts_ok_def)
  then show ?thesis
    unfolding v' using e(2) assms(1) by (intro attempts_ok_upd entry_attempts_ok_step) auto
qed (use assms in simp)

lemma attempts_ok_new: "attempts_ok cfg v \<Longrightarrow> 0 < MaxAttempts cfg \<Longrightarrow> attempts_ok cfg (v(i \<mapsto> new_entry m))"
  by (rule attempts_ok_upd) (simp_all add: entry_attempts_ok_def new_entry_def)

section \<open>Counters\<close>

definition counters_ok :: "runner \<Rightarrow> bool" where
  "counters_ok r \<longleftrightarrow> processedCount r = sentCount r + retriedCount r + failedCount r"

lemma finish_counters:
  assumes "finish cfg ops env m res (r, q) = (err, r', q')" and "counters_ok r"
  shows "counters_ok r'"
  using assms
  by (auto simp: finish_def recordProcessed_def counters_ok_def Let_def
      split: prod.splits option.splits if_splits)

lemma processOne_counters:
  assumes "processOne cfg ops send env (r, q, s) = (err, r', q', s')" and "counters_ok r"
  shows "counters_ok r'"
  using assms
  by (auto simp: processOne_def deliver_def split: prod.splits sum.splits option.splits
      dest: finish_counters)

section \<open>The queue drains\<close>

definition pending_ids :: "queue_view \<Rightarrow> bytes set" where
  "pending_ids v = {i. \<exists>e. v i = Some e \<and> e_status e = Pending}"

text \<open>Every waiting row may be claimed at this time.\<close>

definition all_due :: "time \<Rightarrow> db \<Rightarrow> bool" where
  "all_due now d \<longleftrightarrow> (\<forall>r\<in>set (rows d). status r = Pending \<longrightarrow> next_attempt_at r \<le> RFC3339Nano now)"

text \<open>The queue after everything that waits was delivered.\<close>

definition sent_all :: "queue_view \<Rightarrow> queue_view" where
  "sent_all v i = map_option (\<lambda>e. if e_status e = Pending then (claimed e)\<lparr>e_status := Sent\<rparr> else e) (v i)"

lemma sent_all_none: "pending_ids v = {} \<Longrightarrow> sent_all v = v"
  by (rule ext) (auto simp: sent_all_def pending_ids_def map_option_idI split: option.splits
      intro!: option.map_ident_strong)

lemma sent_all_step:
  assumes "v i = Some e" and "e_status e = Pending"
  shows "sent_all (v(i \<mapsto> (claimed e)\<lparr>e_status := Sent\<rparr>)) = sent_all v"
    and "pending_ids (v(i \<mapsto> (claimed e)\<lparr>e_status := Sent\<rparr>)) = pending_ids v - {i}"
  using assms by (auto simp: sent_all_def pending_ids_def fun_eq_iff)

lemma claim_progress:
  assumes "db_ok d" and "faults d = []" and "x \<in> set (rows d)" and "due now x"
  shows "\<exists>m d'. ClaimNextPending now d = (Inr (Some m), d') \<and> faults d' = []"
proof -
  have call: "db_call d = (True, d)" by (simp add: db_call_def assms(2))
  have "x \<in> set (filter (due now) (rows d))" using assms(3,4) by simp
  then have "filter (due now) (rows d) \<noteq> []" by (metis empty_iff empty_set)
  then obtain q where n: "next_due now (rows d) = Some q"
    using oldest_None [of "filter (due now) (rows d)"] by (auto simp: next_due_def)
  from next_due_Some [OF n] have q: "q \<in> set (rows d)" "status q = Pending" by (auto simp: due_def)
  obtain m0 where sc: "scan_row q = Inr m0"
    using scan_row_ok [of q] assms(1) q(1) by (auto simp: db_ok_def)
  have i: "ID m0 = row_id q" using scan_row_Inr [OF sc] by simp
  have c: "count_where (\<lambda>r. row_id r = row_id q \<and> status r = Pending) (rows d) = 1"
    using assms(1) q by (intro count_where_one) (simp_all add: db_ok_def)
  show ?thesis
    by (simp add: ClaimNextPending_def call n sc i exec_update_def c) (simp add: db_call_def assms(2))
qed

lemma pending_row:
  assumes "i \<in> pending_ids (db_view d)"
  obtains x where "x \<in> set (rows d)" and "status x = Pending"
  using assms by (auto simp: pending_ids_def db_view_def entry_of_def dest: find_row_in)

lemma no_pending_row:
  assumes "pending_ids (db_view d) = {}" and "db_ok d" and "x \<in> set (rows d)"
  shows "status x \<noteq> Pending"
proof
  assume "status x = Pending"
  moreover have "db_view d (row_id x) = Some (entry_of x)"
    using assms(2,3) by (simp add: db_view_def db_ok_def find_row_distinct)
  ultimately have "row_id x \<in> pending_ids (db_view d)" by (simp add: pending_ids_def entry_of_def)
  with assms(1) show False by simp
qed

lemma claim_nothing:
  assumes "pending_ids (db_view d) = {}" and "db_ok d" and "faults d = []"
  shows "ClaimNextPending now d = (Inr None, d)"
proof -
  have "filter (due now) (rows d) = []"
    using no_pending_row [OF assms(1,2)] by (auto simp: filter_empty_conv due_def)
  then show ?thesis
    by (simp add: ClaimNextPending_def db_call_def assms(3) next_due_def)
qed

lemma all_due_claim: "all_due now d \<Longrightarrow> rows d' = claim_row t i (rows d) \<Longrightarrow> all_due now d'"
  by (auto simp: all_due_def claim_row_def update_where_def)

lemma MarkSent_ok:
  assumes "faults d = []"
  shows "\<exists>d'. MarkSent i t d = (None, d') \<and> faults d' = [] \<and> (\<forall>now. all_due now d \<longrightarrow> all_due now d')"
  using assms by (auto simp: MarkSent_def exec_error_def exec_update_def db_call_def all_due_def update_where_def)

text \<open>One tick with a working store and sender delivers an entry, if any waits.\<close>

lemma tick_success:
  assumes "db_ok q" and "faults q = []" and "backoff_ok cfg" and "work_ok cfg env"
    and "all_due (w_claim env) q" and "\<And>f rs d s. fst (send f rs d s) = None"
  shows "\<exists>r' q' s'. processOne cfg sqlite_ops send env (r, q, s) = (None, r', q', s')
    \<and> db_ok q' \<and> faults q' = [] \<and> (\<forall>now. all_due now q \<longrightarrow> all_due now q')
    \<and> (pending_ids (db_view q) = {} \<and> db_view q' = db_view q
       \<or> (\<exists>i e. db_view q i = Some e \<and> e_status e = Pending
            \<and> db_view q' = (db_view q)(i \<mapsto> (claimed e)\<lparr>e_status := Sent\<rparr>)))"
proof (cases "pending_ids (db_view q) = {}")
  case True
  then have "processOne cfg sqlite_ops send env (r, q, s) = (None, r, q, s)"
    using claim_nothing [OF True assms(1,2)] by (simp add: processOne_def sqlite_ops_def)
  then show ?thesis using True assms(1,2) by auto
next
  case False
  then obtain x where x: "x \<in> set (rows q)" "status x = Pending" using pending_row by blast
  then have "due (w_claim env) x" using assms(5) by (simp add: all_due_def due_def)
  from claim_progress [OF assms(1,2) x(1) this] obtain m q1 where
    c: "ClaimNextPending (w_claim env) q = (Inr (Some m), q1)" and f1: "faults q1 = []" by blast
  have t: "valid_time (w_claim env)" using assms(4) by (simp add: work_ok_def)
  from ClaimNextPending_law [OF assms(1) t c] obtain e where ok1: "db_ok q1"
    and e: "db_view q (ID m) = Some e" "e_status e = Pending"
    and v1: "db_view q1 = (db_view q)(ID m \<mapsto> claimed e)" by auto
  from ClaimNextPending_rows [OF c] have due1: "all_due now q1" if "all_due now q" for now
    using all_due_claim [OF that] by auto
  obtain q2 where mk: "MarkSent (ID m) (w_mark env) q1 = (None, q2)" "faults q2 = []"
    and due2: "\<And>now. all_due now q1 \<Longrightarrow> all_due now q2" using MarkSent_ok [OF f1] by blast
  obtain s1 where s: "send (MailFrom m) (Recipients m) (Data m) s = (None, s1)"
    using assms(6) by (metis prod.collapse)
  obtain r' where p: "processOne cfg sqlite_ops send env (r, q, s) = (None, r', q2, s1)"
    using c s mk(1) by (simp add: processOne_def deliver_def finish_def sqlite_ops_def Let_def)
  have "valid_time (w_mark env)" using assms(4) by (simp add: work_ok_def)
  from MarkSent_law [OF ok1 this mk(1)] have ok2: "db_ok q2"
    and v2: "db_view q2 = (db_view q)(ID m \<mapsto> (claimed e)\<lparr>e_status := Sent\<rparr>)"
    by (simp_all add: v1 set_status_def)
  show ?thesis using p ok2 mk(2) due1 due2 e v2 by blast
qed

lemma run_ticks_drain:
  assumes "db_ok q" and "faults q = []" and "backoff_ok cfg"
    and "\<forall>env\<in>set envs. work_ok cfg env \<and> all_due (w_claim env) q"
    and "\<And>f rs d s. fst (send f rs d s) = None"
    and "card (pending_ids (db_view q)) \<le> length envs"
  shows "db_view (fst (snd (run_ticks cfg sqlite_ops send envs (r, q, s)))) = sent_all (db_view q)"
  using assms(1,2,4,6)
proof (induction envs arbitrary: r q s)
  case Nil
  then have "finite (pending_ids (db_view q))"
    by (intro finite_subset [OF _ finite_db_view]) (auto simp: pending_ids_def)
  with Nil have "pending_ids (db_view q) = {}" by simp
  then show ?case by (simp add: sent_all_none)
next
  case (Cons env envs)
  have fin: "finite (pending_ids (db_view q))"
    by (intro finite_subset [OF _ finite_db_view]) (auto simp: pending_ids_def)
  have "work_ok cfg env" "all_due (w_claim env) q" using Cons.prems(3) by simp_all
  from tick_success [where send = send and r = r and s = s, OF Cons.prems(1,2) assms(3) this assms(5)]
  obtain r' q' s' where p: "processOne cfg sqlite_ops send env (r, q, s) = (None, r', q', s')"
    and ok: "db_ok q'" "faults q' = []" and due: "\<And>now. all_due now q \<Longrightarrow> all_due now q'"
    and step: "pending_ids (db_view q) = {} \<and> db_view q' = db_view q
       \<or> (\<exists>i e. db_view q i = Some e \<and> e_status e = Pending
            \<and> db_view q' = (db_view q)(i \<mapsto> (claimed e)\<lparr>e_status := Sent\<rparr>))" by blast
  have envs: "\<forall>env\<in>set envs. work_ok cfg env \<and> all_due (w_claim env) q'"
    using Cons.prems(3) due by simp
  from step have "card (pending_ids (db_view q')) \<le> length envs \<and> sent_all (db_view q') = sent_all (db_view q)"
  proof
    assume "\<exists>i e. db_view q i = Some e \<and> e_status e = Pending
            \<and> db_view q' = (db_view q)(i \<mapsto> (claimed e)\<lparr>e_status := Sent\<rparr>)"
    then obtain i e where e: "db_view q i = Some e" "e_status e = Pending"
      and v': "db_view q' = (db_view q)(i \<mapsto> (claimed e)\<lparr>e_status := Sent\<rparr>)" by blast
    have "i \<in> pending_ids (db_view q)" using e by (simp add: pending_ids_def)
    then show ?thesis
      using Cons.prems(4) fin sent_all_step [of "db_view q", OF e] by (simp add: v')
  qed simp
  then show ?case using Cons.IH [where r = r' and s = s', OF ok envs] p by simp
qed

end
