(* ===== verification/Workers.thy ===== *)
theory Workers
  imports Delivery
begin

text \<open>
  The running process as a step relation: any number of workers between claim, send and
  record, interleaved with the SMTP server's calls into the same store, each store call being
  one transaction. The invariant \<open>sys_ok\<close> gives exclusive claims and at most one successful
  send per message; \<open>orphan\<close> describes the rows an earlier process left in processing.
\<close>

section \<open>The system\<close>

text \<open>What a worker goroutine is doing: waiting for its ticker, sending a message it claimed,
  or about to record the outcome of the send.\<close>

datatype phase = Idle | Holding message | Delivered message "go_error option"

record ('q, 's) sys =
  s_runner :: runner
  s_queue :: 'q
  s_sender :: 's
  s_phase :: "nat \<Rightarrow> phase"
  s_log :: "(bytes \<times> go_error option) list"

text \<open>
  One step of the delivery side: a worker claims, sends or records, or the sender's own state
  changes (an alias refresh).
\<close>

inductive worker_step ::
  "runner_config \<Rightarrow> 'q store_ops \<Rightarrow> 's sender \<Rightarrow> ('q, 's) sys \<Rightarrow> ('q, 's) sys \<Rightarrow> bool"
  for cfg :: runner_config and ops :: "'q store_ops" and send :: "'s sender" where
  claim: "w < nat (Concurrency cfg) \<Longrightarrow> s_phase x w = Idle \<Longrightarrow> valid_time now \<Longrightarrow>
    op_ClaimNextPending ops now (s_queue x) = (taken, q) \<Longrightarrow>
    worker_step cfg ops send x
      (x\<lparr>s_queue := q,
         s_phase := (case taken of Inr (Some m) \<Rightarrow> (s_phase x)(w := Holding m) | _ \<Rightarrow> s_phase x)\<rparr>)"
| transmit: "s_phase x w = Holding m \<Longrightarrow>
    send (MailFrom m) (Recipients m) (Data m) (s_sender x) = (res, s) \<Longrightarrow>
    worker_step cfg ops send x
      (x\<lparr>s_sender := s, s_phase := (s_phase x)(w := Delivered m res), s_log := s_log x @ [(ID m, res)]\<rparr>)"
| record_outcome: "s_phase x w = Delivered m res \<Longrightarrow> work_ok cfg env \<Longrightarrow>
    finish cfg ops env m res (s_runner x, s_queue x) = (err, r, q) \<Longrightarrow>
    worker_step cfg ops send x (x\<lparr>s_runner := r, s_queue := q, s_phase := (s_phase x)(w := Idle)\<rparr>)"
| refresh: "worker_step cfg ops send x (x\<lparr>s_sender := s\<rparr>)"

text \<open>One step of the process: the above, or the SMTP server enqueues or counts the backlog.\<close>

inductive sys_step ::
  "runner_config \<Rightarrow> 'q store_ops \<Rightarrow> 's sender \<Rightarrow> ('q, 's) sys \<Rightarrow> ('q, 's) sys \<Rightarrow> bool"
  for cfg :: runner_config and ops :: "'q store_ops" and send :: "'s sender" where
  work: "worker_step cfg ops send x y \<Longrightarrow> sys_step cfg ops send x y"
| enqueue: "valid_time now \<Longrightarrow> valid_msg m \<Longrightarrow> op_Enqueue ops now m (s_queue x) = (err, q) \<Longrightarrow>
    sys_step cfg ops send x (x\<lparr>s_queue := q\<rparr>)"
| count: "op_BacklogCount ops (s_queue x) = (n, q) \<Longrightarrow> sys_step cfg ops send x (x\<lparr>s_queue := q\<rparr>)"

definition sys_start :: "runner \<Rightarrow> 'q \<Rightarrow> 's \<Rightarrow> ('q, 's) sys" where
  "sys_start r q s = \<lparr>s_runner = r, s_queue = q, s_sender = s, s_phase = (\<lambda>w. Idle), s_log = []\<rparr>"

text \<open>The states a process can reach.\<close>

inductive reach ::
  "runner_config \<Rightarrow> 'q store_ops \<Rightarrow> 's sender \<Rightarrow> ('q, 's) sys \<Rightarrow> ('q, 's) sys \<Rightarrow> bool"
  for cfg :: runner_config and ops :: "'q store_ops" and send :: "'s sender" and x :: "('q, 's) sys" where
  start: "reach cfg ops send x x"
| step: "reach cfg ops send x y \<Longrightarrow> sys_step cfg ops send y z \<Longrightarrow> reach cfg ops send x z"

section \<open>Who holds what\<close>

fun held :: "phase \<Rightarrow> message option" where
  "held Idle = None"
| "held (Holding m) = Some m"
| "held (Delivered m res) = Some m"

text \<open>How often message \<open>i\<close> was sent without an error.\<close>

definition successes :: "bytes \<Rightarrow> (bytes \<times> go_error option) list \<Rightarrow> nat" where
  "successes i lg = length (filter (\<lambda>(j, res). j = i \<and> res = None) lg)"

lemma successes_append [simp]:
  "successes i (lg @ [(j, res)]) = successes i lg + (if j = i \<and> res = None then 1 else 0)"
  by (simp add: successes_def)

definition being_processed :: "queue_view \<Rightarrow> bytes \<Rightarrow> bool" where
  "being_processed v i \<longleftrightarrow> (\<exists>e. v i = Some e \<and> e_status e = Processing)"

definition waits :: "queue_view \<Rightarrow> bytes \<Rightarrow> bool" where
  "waits v i \<longleftrightarrow> (\<exists>e. v i = Some e \<and> e_status e = Pending)"

text \<open>
  Every message a worker has is in processing, no two workers have the same one, and a
  message that was sent successfully is in the queue, does not wait, and no worker is about
  to send it or to record a failure for it.
\<close>

definition holders_ok :: "queue_view \<Rightarrow> (nat \<Rightarrow> phase) \<Rightarrow> bool" where
  "holders_ok v ph \<longleftrightarrow>
     (\<forall>w m. held (ph w) = Some m \<longrightarrow> being_processed v (ID m))
     \<and> (\<forall>w w' m m'. held (ph w) = Some m \<longrightarrow> held (ph w') = Some m' \<longrightarrow> ID m = ID m' \<longrightarrow> w = w')"

definition sent_ok :: "queue_view \<Rightarrow> (nat \<Rightarrow> phase) \<Rightarrow> (bytes \<times> go_error option) list \<Rightarrow> bool" where
  "sent_ok v ph lg \<longleftrightarrow>
     (\<forall>i. successes i lg \<le> 1
        \<and> (successes i lg = 1 \<longrightarrow> v i \<noteq> None \<and> \<not> waits v i
             \<and> (\<forall>w m. held (ph w) = Some m \<longrightarrow> ID m = i \<longrightarrow> ph w = Delivered m None)))"

context queue_store
begin

definition sys_ok :: "('q, 's) sys \<Rightarrow> bool" where
  "sys_ok x \<longleftrightarrow>
     inv (s_queue x) \<and> holders_ok (view (s_queue x)) (s_phase x)
     \<and> sent_ok (view (s_queue x)) (s_phase x) (s_log x)"

lemma sys_ok_start: "inv q \<Longrightarrow> sys_ok (sys_start r q s)"
  by (simp add: sys_ok_def sys_start_def holders_ok_def sent_ok_def successes_def)

lemma sys_ok_same_view:
  "sys_ok x \<Longrightarrow> inv q \<Longrightarrow> view q = view (s_queue x) \<Longrightarrow> sys_ok (x\<lparr>s_queue := q\<rparr>)"
  by (simp add: sys_ok_def)

lemma sys_ok_claim:
  assumes "sys_ok x" and "s_phase x w = Idle" and "inv q" and "view (s_queue x) (ID m) = Some e"
    and "e_status e = Pending" and "view q = (view (s_queue x))(ID m \<mapsto> claimed e)"
  shows "sys_ok (x\<lparr>s_queue := q, s_phase := (s_phase x)(w := Holding m)\<rparr>)"
proof -
  have free: False if "held (s_phase x w') = Some m'" and "ID m = ID m'" for w' m'
    using assms(1,4,5) that by (fastforce simp: sys_ok_def holders_ok_def being_processed_def)
  have "waits (view (s_queue x)) (ID m)" using assms(4,5) by (simp add: waits_def)
  then have fresh: "successes (ID m) (s_log x) = 0"
    using assms(1) by (fastforce simp: sys_ok_def sent_ok_def le_Suc_eq)
  have "holders_ok (view q) ((s_phase x)(w := Holding m))"
    using assms(1) unfolding assms(6)
    by (auto simp: sys_ok_def holders_ok_def being_processed_def claimed_def dest: free free [OF _ sym])
  moreover have "sent_ok (view q) ((s_phase x)(w := Holding m)) (s_log x)"
    using assms(1) fresh unfolding assms(6)
    by (auto simp: sys_ok_def sent_ok_def waits_def)
  ultimately show ?thesis using assms(3) by (simp add: sys_ok_def)
qed

lemma sys_ok_transmit:
  assumes "sys_ok x" and "s_phase x w = Holding m"
  shows "sys_ok (x\<lparr>s_sender := s, s_phase := (s_phase x)(w := Delivered m res),
    s_log := s_log x @ [(ID m, res)]\<rparr>)"
proof -
  have h: "holders_ok (view (s_queue x)) (s_phase x)" and st: "sent_ok (view (s_queue x)) (s_phase x) (s_log x)"
    using assms(1) by (simp_all add: sys_ok_def)
  have hm: "held (s_phase x w) = Some m" by (simp add: assms(2))
  have p: "being_processed (view (s_queue x)) (ID m)" using h hm by (simp add: holders_ok_def)
  have fresh: "successes (ID m) (s_log x) = 0"
  proof (rule ccontr)
    assume "successes (ID m) (s_log x) \<noteq> 0"
    moreover have "successes (ID m) (s_log x) \<le> 1" using st by (simp add: sent_ok_def)
    ultimately have "successes (ID m) (s_log x) = 1" by linarith
    then have "s_phase x w = Delivered m None" using st hm by (simp add: sent_ok_def)
    with assms(2) show False by simp
  qed
  have h': "holders_ok (view (s_queue x)) ((s_phase x)(w := Delivered m res))"
    using h hm by (auto simp: holders_ok_def)
  define ph where "ph = (s_phase x)(w := Delivered m res)"
  have "sent_ok (view (s_queue x)) ph (s_log x @ [(ID m, res)])"
    unfolding sent_ok_def
  proof
    fix i
    show "successes i (s_log x @ [(ID m, res)]) \<le> 1
      \<and> (successes i (s_log x @ [(ID m, res)]) = 1 \<longrightarrow>
          view (s_queue x) i \<noteq> None \<and> \<not> waits (view (s_queue x)) i
          \<and> (\<forall>w' m'. held (ph w') = Some m' \<longrightarrow> ID m' = i \<longrightarrow> ph w' = Delivered m' None))"
    proof (cases "i = ID m")
      case False
      then show ?thesis using st by (simp add: sent_ok_def ph_def)
    next
      case True
      have "ph w' = Delivered m' None" if "res = None" "held (ph w') = Some m'" "ID m' = i" for w' m'
      proof -
        have "held (ph w) = Some m" by (simp add: ph_def)
        then have "w' = w" using h' that True unfolding ph_def [symmetric] holders_ok_def by metis
        with that show ?thesis by (simp add: ph_def)
      qed
      moreover have "view (s_queue x) i \<noteq> None \<and> \<not> waits (view (s_queue x)) i"
        using p True by (auto simp: being_processed_def waits_def)
      ultimately show ?thesis using True fresh by (cases res) simp_all
    qed
  qed
  with h' assms(1) show ?thesis by (simp add: sys_ok_def ph_def)
qed

lemma sys_ok_record:
  assumes "sys_ok x" and "s_phase x w = Delivered m res" and "inv q"
    and "view q = view (s_queue x) \<or> view q = set_status (ID m) (verdict cfg n res) (view (s_queue x))"
  shows "sys_ok (x\<lparr>s_runner := r, s_queue := q, s_phase := (s_phase x)(w := Idle)\<rparr>)"
proof -
  have h: "holders_ok (view (s_queue x)) (s_phase x)" and st: "sent_ok (view (s_queue x)) (s_phase x) (s_log x)"
    using assms(1) by (simp_all add: sys_ok_def)
  have hm: "held (s_phase x w) = Some m" by (simp add: assms(2))
  have other: "w' = w" if "held (s_phase x w') = Some m'" "ID m' = ID m" for w' m'
    using h hm that unfolding holders_ok_def by metis
  have keep: "view q i = view (s_queue x) i" if "i \<noteq> ID m" for i
    using assms(4) that by (auto simp: set_status_def)
  have h': "holders_ok (view q) ((s_phase x)(w := Idle))"
    using h other keep unfolding holders_ok_def being_processed_def by (auto split: if_splits) metis
  have "res = None" if "successes (ID m) (s_log x) = 1"
    using st that hm assms(2) unfolding sent_ok_def by (metis phase.inject(2))
  then have m: "view q (ID m) \<noteq> None \<and> \<not> waits (view q) (ID m)" if "successes (ID m) (s_log x) = 1"
    using st that assms(4) by (auto simp: sent_ok_def waits_def set_status_def verdict_def)
  have "sent_ok (view q) ((s_phase x)(w := Idle)) (s_log x)"
    unfolding sent_ok_def
  proof (intro allI)
    fix i
    show "successes i (s_log x) \<le> 1
      \<and> (successes i (s_log x) = 1 \<longrightarrow> view q i \<noteq> None \<and> \<not> waits (view q) i
          \<and> (\<forall>w' m'. held (((s_phase x)(w := Idle)) w') = Some m' \<longrightarrow> ID m' = i \<longrightarrow>
                ((s_phase x)(w := Idle)) w' = Delivered m' None))"
      using st m keep [of i] by (cases "i = ID m") (auto simp: sent_ok_def waits_def)
  qed
  with h' assms(3) show ?thesis by (simp add: sys_ok_def)
qed

lemma sys_ok_enqueue:
  assumes "sys_ok x" and "inv q" and "view (s_queue x) i = None" and "view q = (view (s_queue x))(i \<mapsto> e)"
  shows "sys_ok (x\<lparr>s_queue := q\<rparr>)"
proof -
  have h: "holders_ok (view (s_queue x)) (s_phase x)" and st: "sent_ok (view (s_queue x)) (s_phase x) (s_log x)"
    using assms(1) by (simp_all add: sys_ok_def)
  have "ID m \<noteq> i" if "held (s_phase x w) = Some m" for w m
    using h that assms(3) by (fastforce simp: holders_ok_def being_processed_def)
  then have "holders_ok (view q) (s_phase x)"
    using h unfolding assms(4) by (auto simp: holders_ok_def being_processed_def)
  moreover have "sent_ok (view q) (s_phase x) (s_log x)"
    using st assms(3) unfolding assms(4) by (auto simp: sent_ok_def waits_def)
  ultimately show ?thesis using assms(2) by (simp add: sys_ok_def)
qed

lemma sys_ok_work:
  assumes "worker_step cfg ops send x y" and "sys_ok x" and "backoff_ok cfg"
  shows "sys_ok y"
  using assms(1)
proof (cases rule: worker_step.cases)
  case (claim w now taken q)
  have i: "inv (s_queue x)" using assms(2) by (simp add: sys_ok_def)
  note law = claim_law [OF i claim(4,5)]
  show ?thesis
  proof (cases "\<exists>m. taken = Inr (Some m)")
    case True
    then show ?thesis using law claim(1) sys_ok_claim [OF assms(2) claim(3)] by auto
  next
    case False
    then have "y = x\<lparr>s_queue := q\<rparr>" using claim(1) by (auto split: sum.splits option.splits)
    then show ?thesis
      using law False sys_ok_same_view [OF assms(2)] by (auto split: sum.splits option.splits)
  qed
next
  case (transmit w m res s)
  then show ?thesis using sys_ok_transmit [OF assms(2)] by simp
next
  case (record_outcome w m res env err r q)
  have i: "inv (s_queue x)" using assms(2) by (simp add: sys_ok_def)
  note law = finish_law [OF record_outcome(4) i assms(3) record_outcome(3)]
  have v: "view q = view (s_queue x) \<or> view q = set_status (ID m) (verdict cfg (MsgAttempts m) res) (view (s_queue x))"
    using law by simp
  show ?thesis
    unfolding record_outcome(1) by (rule sys_ok_record [OF assms(2) record_outcome(2) conjunct1 [OF law] v])
next
  case (refresh s)
  then show ?thesis using assms(2) by (simp add: sys_ok_def)
qed

lemma sys_ok_step:
  assumes "sys_step cfg ops send x y" and "sys_ok x" and "backoff_ok cfg"
  shows "sys_ok y"
  using assms(1)
proof (cases rule: sys_step.cases)
  case work
  then show ?thesis using sys_ok_work assms(2,3) by blast
next
  case (enqueue now m err q)
  have i: "inv (s_queue x)" using assms(2) by (simp add: sys_ok_def)
  note law = enqueue_law [OF i enqueue(2-4)]
  show ?thesis
    using law enqueue(1) sys_ok_same_view [OF assms(2)] sys_ok_enqueue [OF assms(2)] by (cases err) auto
next
  case (count n q)
  have i: "inv (s_queue x)" using assms(2) by (simp add: sys_ok_def)
  show ?thesis using backlog_law [OF i count(2)] count(1) sys_ok_same_view [OF assms(2)] by simp
qed

lemma sys_ok_reach:
  assumes "reach cfg ops send x y" and "sys_ok x" and "backoff_ok cfg"
  shows "sys_ok y"
  using assms by (induction rule: reach.induct) (auto intro: sys_ok_step)

text \<open>An entry in processing that no worker has stays as it is: nothing in the running process
  moves it on.\<close>

definition orphan :: "('q, 's) sys \<Rightarrow> bytes \<Rightarrow> entry \<Rightarrow> bool" where
  "orphan x i e \<longleftrightarrow>
     view (s_queue x) i = Some e \<and> e_status e = Processing
     \<and> (\<forall>w m. held (s_phase x w) = Some m \<longrightarrow> ID m \<noteq> i)"

lemma orphan_work:
  assumes "worker_step cfg ops send x y" and "sys_ok x" and "backoff_ok cfg" and "orphan x i e"
  shows "orphan y i e"
  using assms(1)
proof (cases rule: worker_step.cases)
  case (claim w now taken q)
  have i: "inv (s_queue x)" using assms(2) by (simp add: sys_ok_def)
  show ?thesis
    using claim_law [OF i claim(4,5)] claim(1) assms(4)
    by (auto simp: orphan_def split: sum.splits option.splits)
next
  case (transmit w m res s)
  then have "held (s_phase x w) = Some m" by simp
  then have "ID m \<noteq> i" using assms(4) unfolding orphan_def by blast
  then show ?thesis using assms(4) transmit(1) by (auto simp: orphan_def)
next
  case (record_outcome w m res env err r q)
  have i: "inv (s_queue x)" using assms(2) by (simp add: sys_ok_def)
  have "held (s_phase x w) = Some m" using record_outcome(2) by simp
  then have "ID m \<noteq> i" using assms(4) unfolding orphan_def by blast
  then show ?thesis
    using finish_law [OF record_outcome(4) i assms(3) record_outcome(3)] record_outcome(1) assms(4)
    by (auto simp: orphan_def set_status_def)
next
  case (refresh s)
  then show ?thesis using assms(4) by (simp add: orphan_def)
qed

lemma orphan_step:
  assumes "sys_step cfg ops send x y" and "sys_ok x" and "backoff_ok cfg" and "orphan x i e"
  shows "orphan y i e"
  using assms(1)
proof (cases rule: sys_step.cases)
  case work
  then show ?thesis using orphan_work assms(2-4) by blast
next
  case (enqueue now m err q)
  have i: "inv (s_queue x)" using assms(2) by (simp add: sys_ok_def)
  show ?thesis
    using enqueue_law [OF i enqueue(2-4)] enqueue(1) assms(4)
    by (auto simp: orphan_def split: option.splits)
next
  case (count n q)
  have i: "inv (s_queue x)" using assms(2) by (simp add: sys_ok_def)
  show ?thesis using backlog_law [OF i count(2)] count(1) assms(4) by (simp add: orphan_def)
qed

lemma orphan_reach:
  assumes "reach cfg ops send x y" and "sys_ok x" and "backoff_ok cfg" and "orphan x i e"
  shows "orphan y i e"
  using assms
proof (induction rule: reach.induct)
  case (step y z)
  then show ?case using orphan_step sys_ok_reach by blast
qed

end

end
