(* ===== verification/Smtp_Server.thy ===== *)
theory Smtp_Server
  imports Smtp_Commands
begin

text \<open>
  The life cycle of the SMTP server in internal/smtp/server.go: construction, the accept loop
  with its connection slots, the tracking of connections, and shutdown, as operations and as
  a step relation with its invariant \<open>srv_ok\<close>.
\<close>

section \<open>State\<close>

text \<open>
  The server's bookkeeping of connections, each named by a number: the tokens in the channel
  \<open>connSlots\<close>, the count of the wait group, the tracked connections, the goroutines that run
  \<open>handleConn\<close>, the sockets that are open, and whether \<open>closedCh\<close> was closed.
\<close>

record lifecycle =
  connSlots :: int
  connWg :: int
  conns :: "nat set"
  serving :: "nat set"
  open_socks :: "nat set"
  closed :: bool

datatype server_error =
    LoadCertFailed | StoreRequired | Listen465Failed | Listen587Failed | AcceptFailed | ServerClosed

text \<open>\<open>NewServer\<close>: whether the key pair loads, and whether the store is non-nil.\<close>

definition NewServer :: "bool \<Rightarrow> bool \<Rightarrow> server_error + lifecycle" where
  "NewServer cert_ok store_ok =
     (if \<not> cert_ok then Inl LoadCertFailed
      else if \<not> store_ok then Inl StoreRequired
      else Inr \<lparr>connSlots = 0, connWg = 0, conns = {}, serving = {}, open_socks = {}, closed = False\<rparr>)"

section \<open>Operations\<close>

definition tryAcquireConnectionSlot :: "config \<Rightarrow> lifecycle \<Rightarrow> bool \<times> lifecycle" where
  "tryAcquireConnectionSlot cfg s =
     (if connSlots s < SMTPMaxConnections cfg then (True, s\<lparr>connSlots := connSlots s + 1\<rparr>)
      else (False, s))"

definition releaseConnectionSlot :: "lifecycle \<Rightarrow> lifecycle" where
  "releaseConnectionSlot s = (if 0 < connSlots s then s\<lparr>connSlots := connSlots s - 1\<rparr> else s)"

definition trackConn :: "nat \<Rightarrow> bool \<Rightarrow> lifecycle \<Rightarrow> lifecycle" where
  "trackConn c add s = s\<lparr>conns := (if add then insert c (conns s) else conns s - {c})\<rparr>"

definition close_sock :: "nat \<Rightarrow> lifecycle \<Rightarrow> lifecycle" where
  "close_sock c s = s\<lparr>open_socks := open_socks s - {c}\<rparr>"

definition closeActiveConnections :: "lifecycle \<Rightarrow> lifecycle" where
  "closeActiveConnections s = s\<lparr>open_socks := open_socks s - conns s\<rparr>"

text \<open>What \<open>Accept\<close> returns: a connection, or an error that is temporary or not.\<close>

datatype accepted = Conn nat | AcceptError bool

text \<open>How an iteration of \<open>acceptLoop\<close> ends: it goes on, after the given reply to a connection
  it turned away, or it returns and puts an error on \<open>errCh\<close>.\<close>

datatype accept_outcome = Continue "bytes option" | Return server_error

definition accept_iteration :: "config \<Rightarrow> accepted \<Rightarrow> lifecycle \<Rightarrow> accept_outcome \<times> lifecycle" where
  "accept_iteration cfg res s =
     (case res of
        AcceptError temporary \<Rightarrow>
          if closed s then (Return ServerClosed, s)
          else if temporary then (Continue None, s)
          else (Return AcceptFailed, s)
      | Conn c \<Rightarrow>
          (let s = s\<lparr>open_socks := insert c (open_socks s)\<rparr> in
           case tryAcquireConnectionSlot cfg s of
             (False, s) \<Rightarrow> (Continue (Some (ln ''421 too many concurrent connections'')), close_sock c s)
           | (True, s) \<Rightarrow>
               (Continue None, s\<lparr>connWg := connWg s + 1, serving := insert c (serving s)\<rparr>)))"

text \<open>The start of \<open>handleConn\<close>, and its end with the deferred calls of the goroutine: untrack,
  close, release the slot, \<open>connWg.Done\<close>.\<close>

definition conn_start :: "nat \<Rightarrow> lifecycle \<Rightarrow> lifecycle" where
  "conn_start c s = trackConn c True s"

definition conn_end :: "nat \<Rightarrow> lifecycle \<Rightarrow> lifecycle" where
  "conn_end c s =
     (let s = trackConn c False s;
          s = close_sock c s;
          s = releaseConnectionSlot s
      in s\<lparr>connWg := connWg s - 1, serving := serving s - {c}\<rparr>)"

text \<open>
  \<open>Shutdown\<close>: the part before the wait, which the first call alone does, and the end of the
  wait: all connections are done, or the context is, and then the tracked connections are
  closed. \<open>None\<close> while it still waits; otherwise whether an error is returned, given that of
  closing the listeners.
\<close>

definition shutdown_begin :: "lifecycle \<Rightarrow> lifecycle" where
  "shutdown_begin s = (if closed s then s else s\<lparr>closed := True\<rparr>)"

definition shutdown_wait :: "bool \<Rightarrow> bool \<Rightarrow> lifecycle \<Rightarrow> (bool \<times> lifecycle) option" where
  "shutdown_wait close_err ctx_over s =
     (if connWg s = 0 then Some (close_err, s)
      else if ctx_over then Some (True, closeActiveConnections s)
      else None)"

text \<open>\<open>Run\<close> up to its accept loops, and its answer to what one of them reports.\<close>

definition run_listen :: "bool \<Rightarrow> bool \<Rightarrow> server_error option" where
  "run_listen ok465 ok587 =
     (if \<not> ok465 then Some Listen465Failed else if \<not> ok587 then Some Listen587Failed else None)"

definition run_result :: "server_error \<Rightarrow> server_error option" where
  "run_result e = (if e = ServerClosed then None else Some e)"

section \<open>Steps\<close>

text \<open>An accepted connection has a number no open or running one has.\<close>

inductive srv_step :: "config \<Rightarrow> lifecycle \<Rightarrow> lifecycle \<Rightarrow> bool" for cfg where
  accept: "c \<notin> open_socks s \<Longrightarrow> c \<notin> serving s \<Longrightarrow> srv_step cfg s (snd (accept_iteration cfg (Conn c) s))"
| accept_error: "srv_step cfg s (snd (accept_iteration cfg (AcceptError b) s))"
| begin_conn: "c \<in> serving s \<Longrightarrow> srv_step cfg s (conn_start c s)"
| end_conn: "c \<in> serving s \<Longrightarrow> srv_step cfg s (conn_end c s)"
| begin_shutdown: "srv_step cfg s (shutdown_begin s)"
| finish_shutdown: "shutdown_wait e over s = Some (b, s') \<Longrightarrow> srv_step cfg s s'"

inductive srv_reach :: "config \<Rightarrow> lifecycle \<Rightarrow> lifecycle \<Rightarrow> bool" for cfg s where
  srv_start: "srv_reach cfg s s"
| srv_next: "srv_reach cfg s x \<Longrightarrow> srv_step cfg x y \<Longrightarrow> srv_reach cfg s y"

text \<open>The slots in use and the wait group count the running goroutines, of which there are never
  more than configured, and only their connections are tracked or open.\<close>

definition srv_ok :: "config \<Rightarrow> lifecycle \<Rightarrow> bool" where
  "srv_ok cfg s \<longleftrightarrow>
     finite (serving s) \<and> connSlots s = int (card (serving s)) \<and> connWg s = int (card (serving s))
     \<and> int (card (serving s)) \<le> SMTPMaxConnections cfg \<and> conns s \<subseteq> serving s \<and> open_socks s \<subseteq> serving s"

lemma srv_ok_new: "NewServer a b = Inr s \<Longrightarrow> 0 \<le> SMTPMaxConnections cfg \<Longrightarrow> srv_ok cfg s"
  by (auto simp: NewServer_def srv_ok_def split: if_splits)

lemma srv_ok_accept:
  assumes "srv_ok cfg s" and "c \<notin> open_socks s" and "c \<notin> serving s"
  shows "srv_ok cfg (snd (accept_iteration cfg (Conn c) s))"
  using assms
  by (auto simp: accept_iteration_def tryAcquireConnectionSlot_def close_sock_def srv_ok_def Let_def)

lemma srv_ok_end:
  assumes "srv_ok cfg s" and "c \<in> serving s"
  shows "srv_ok cfg (conn_end c s)"
proof -
  have "0 < card (serving s)" using assms by (auto simp: srv_ok_def card_gt_0_iff)
  then have "int (card (serving s - {c})) = int (card (serving s)) - 1"
    using assms by (simp add: srv_ok_def of_nat_diff Suc_leI)
  then show ?thesis
    using assms \<open>0 < card (serving s)\<close>
    by (auto simp: conn_end_def trackConn_def close_sock_def releaseConnectionSlot_def srv_ok_def Let_def)
qed

lemma srv_ok_step:
  assumes "srv_step cfg s s'" and "srv_ok cfg s"
  shows "srv_ok cfg s'"
  using assms(1)
proof (cases rule: srv_step.cases)
  case (accept c)
  then show ?thesis using srv_ok_accept [OF assms(2)] by simp
next
  case (accept_error b)
  then show ?thesis using assms(2) by (simp add: accept_iteration_def)
next
  case (begin_conn c)
  then show ?thesis using assms(2) by (simp add: conn_start_def trackConn_def srv_ok_def)
next
  case (end_conn c)
  then show ?thesis using srv_ok_end [OF assms(2)] by simp
next
  case begin_shutdown
  then show ?thesis using assms(2) by (simp add: shutdown_begin_def srv_ok_def)
next
  case (finish_shutdown e over b)
  then show ?thesis
    using assms(2) by (auto simp: shutdown_wait_def closeActiveConnections_def srv_ok_def split: if_splits)
qed

lemma srv_ok_reach: "srv_reach cfg s s' \<Longrightarrow> srv_ok cfg s \<Longrightarrow> srv_ok cfg s'"
  by (induction rule: srv_reach.induct) (auto intro: srv_ok_step)

text \<open>The server turns a connection away only when every slot is in use.\<close>

lemma accept_refuses:
  assumes "srv_ok cfg s"
  shows "fst (accept_iteration cfg (Conn c) s) = Continue (Some (ln ''421 too many concurrent connections''))
    \<longleftrightarrow> int (card (serving s)) = SMTPMaxConnections cfg"
  using assms by (auto simp: accept_iteration_def tryAcquireConnectionSlot_def srv_ok_def Let_def)

end
