(* ===== verification/Obs.thy ===== *)
theory Obs
  imports Runner Sqlite_Store
begin

text \<open>
  internal/obs/http.go: the health, readiness, status and metrics handlers, as functions from
  the queue, the alias status and the worker's counters to the response they write. The HTTP
  library that parses requests and runs the listener is not modelled; a path outside the four
  registered ones, or a path the multiplexer redirects, gets the library's answer.
\<close>

section \<open>JSON and numbers\<close>

datatype json = JBool bool | JInt int | JStr bytes | JObj "(bytes \<times> json) list"

text \<open>\<open>json.NewEncoder\<close> on a map: the keys in byte order, without spaces.\<close>

fun json_text :: "json \<Rightarrow> bytes" where
  "json_text (JBool b) = (if b then ''true'' else ''false'')"
| "json_text (JInt n) = show_int n"
| "json_text (JStr s) = json_string s"
| "json_text (JObj []) = ''{}''"
| "json_text (JObj ((k, v) # kvs)) =
     ''{'' @ json_string k @ '':'' @ json_text v
     @ concat (map (\<lambda>(k, v). '','' @ json_string k @ '':'' @ json_text v) kvs) @ ''}''"

definition json_object :: "(bytes \<times> json) list \<Rightarrow> json" where
  "json_object kvs = JObj (sort_key fst kvs)"

text \<open>\<open>fmtFrac\<close> of package time: the last \<open>prec\<close> digits after a point, trailing zeros dropped.\<close>

definition dur_frac :: "nat \<Rightarrow> int \<Rightarrow> bytes" where
  "dur_frac prec n =
     (let ds = rev (dropWhile (\<lambda>c. c = CHR ''0'') (rev (pad prec n)))
      in if ds = [] then [] else CHR ''.'' # ds)"

text \<open>\<open>Duration.String\<close>, on a duration that is not negative; the micro sign is two bytes.\<close>

definition dur_text :: "duration \<Rightarrow> bytes" where
  "dur_text d =
     (if d = 0 then ''0s''
      else if d < 1000 then show_int d @ ''ns''
      else if d < 1000000 then
        show_int (d div 1000) @ dur_frac 3 (d mod 1000) @ [CHR 0xC2, CHR 0xB5, CHR ''s'']
      else if d < second then show_int (d div 1000000) @ dur_frac 6 (d mod 1000000) @ ''ms''
      else
        (let secs = d div second;
             tail = dur_frac 9 (d mod second) @ ''s'';
             mins = secs div 60;
             hours = mins div 60
         in if mins = 0 then show_int secs @ tail
            else if hours = 0 then show_int mins @ ''m'' @ show_int (secs mod 60) @ tail
            else show_int hours @ ''h'' @ show_int (mins mod 60) @ ''m'' @ show_int (secs mod 60) @ tail))"

text \<open>\<open>int64(d.Seconds())\<close>, exact for the durations a \<open>float64\<close> separates from the next second.\<close>

definition whole_seconds :: "duration \<Rightarrow> int" where
  "whole_seconds d = d div second"

definition unix_seconds :: "time \<Rightarrow> int" where
  "unix_seconds t = t div second - 719162 * 86400"

section \<open>The server\<close>

record obs_config =
  Addr :: bytes
  AliasMaxStaleFor :: duration

record obs_server =
  obs_cfg :: obs_config
  startedAtUTC :: time

datatype obs_error = NilObsDependency | EmptyObsAddr | BadStaleDuration

definition obs_NewServer :: "obs_config \<Rightarrow> bool \<Rightarrow> time \<Rightarrow> obs_error + obs_server" where
  "obs_NewServer cfg deps_ok now =
     (if \<not> deps_ok then Inl NilObsDependency
      else if Addr cfg = [] then Inl EmptyObsAddr
      else if AliasMaxStaleFor cfg \<le> 0 then Inl BadStaleDuration
      else Inr \<lparr>obs_cfg = cfg, startedAtUTC = now\<rparr>)"

record http_response =
  code :: int
  content_type :: bytes
  body :: bytes

definition writeJSON :: "int \<Rightarrow> (bytes \<times> json) list \<Rightarrow> http_response" where
  "writeJSON st payload =
     \<lparr>code = st, content_type = ''application/json'', body = json_text (json_object payload) @ [LF]\<rparr>"

section \<open>Handlers\<close>

text \<open>The text of a store error in an answer is a parameter; \<open>alias\<close> is what \<open>AliasStatus\<close> returned.\<close>

definition handleHealthz :: "obs_server \<Rightarrow> http_response" where
  "handleHealthz s =
     writeJSON 200
       [(''ok'', JBool True), (''service'', JStr ''gmail-smtp-relay''),
        (''started_at'', JStr (RFC3339Nano (startedAtUTC s)))]"

definition not_ready :: "bytes \<Rightarrow> http_response" where
  "not_ready msg = writeJSON 503 [(''ok'', JBool False), (''error'', JStr msg)]"

definition handleReadyz ::
  "(store_error \<Rightarrow> bytes) \<Rightarrow> 'q store_ops \<Rightarrow> obs_server \<Rightarrow> time \<Rightarrow> time \<Rightarrow> int \<times> time \<times> bytes \<Rightarrow> 'q
   \<Rightarrow> http_response \<times> 'q" where
  "handleReadyz err_text ops s now now' alias q =
     (case op_Stats ops now q of
        (Inl err, q) \<Rightarrow> (not_ready (''queue unavailable: '' @ err_text err), q)
      | (Inr queueStats, q) \<Rightarrow>
          (let (aliasCount, lastAliasRefresh, aliasErr) = alias in
           if aliasCount = 0 then (not_ready ''send-as alias cache is empty'', q)
           else if aliasErr \<noteq> [] \<and> AliasMaxStaleFor (obs_cfg s) < now' - lastAliasRefresh then
             (not_ready (''send-as alias cache stale: '' @ aliasErr), q)
           else
             (writeJSON 200
                [(''ok'', JBool True), (''queue_backlog'', JInt (StatsBacklog queueStats)),
                 (''alias_count'', JInt aliasCount),
                 (''last_alias_refresh'', JStr (RFC3339Nano lastAliasRefresh))], q)))"

text \<open>The statistics a failed \<open>Stats\<close> returns next to its error.\<close>

definition zero_stats :: queue_stats where
  "zero_stats =
     \<lparr>PendingCount = 0, ProcessingCount = 0, SentCount = 0, FailedCount = 0, StatsBacklog = 0,
      OldestPendingAge = 0, OldestPendingSince = 0\<rparr>"

definition handleStatus ::
  "'q store_ops \<Rightarrow> time \<Rightarrow> int \<times> time \<times> bytes \<Rightarrow> runner \<Rightarrow> 'q \<Rightarrow> http_response \<times> 'q" where
  "handleStatus ops now alias r q =
     (let (res, q) = op_Stats ops now q;
          queueStats = (case res of Inl err \<Rightarrow> zero_stats | Inr st \<Rightarrow> st);
          (aliasCount, lastAliasRefresh, aliasErr) = alias;
          ws = runner_Stats r
      in (writeJSON 200
            [(''ok'', JBool True),
             (''queue_backlog'', JInt (StatsBacklog queueStats)),
             (''queue_pending'', JInt (PendingCount queueStats)),
             (''queue_processing'', JInt (ProcessingCount queueStats)),
             (''queue_sent'', JInt (SentCount queueStats)),
             (''queue_failed'', JInt (FailedCount queueStats)),
             (''oldest_pending_age'', JStr (dur_text (OldestPendingAge queueStats))),
             (''alias_count'', JInt aliasCount),
             (''last_alias_refresh'', JStr (RFC3339Nano lastAliasRefresh)),
             (''alias_last_error'', JStr aliasErr),
             (''worker'', json_object
                [(''processed_count'', JInt (uint (ProcessedCount ws))),
                 (''sent_count'', JInt (uint (StatsSentCount ws))),
                 (''retried_count'', JInt (uint (RetriedCount ws))),
                 (''failed_count'', JInt (uint (StatsFailedCount ws))),
                 (''last_processed_at'', JStr (RFC3339Nano (LastProcessedAt ws)))])], q))"

definition metric :: "bytes \<Rightarrow> bytes \<Rightarrow> bytes \<Rightarrow> bytes \<Rightarrow> bytes" where
  "metric kind name v help =
     ''# HELP '' @ name @ '' '' @ help @ [LF] @ ''# TYPE '' @ name @ '' '' @ kind @ [LF]
     @ name @ '' '' @ v @ [LF]"

definition writeGauge :: "bytes \<Rightarrow> bytes \<Rightarrow> bytes \<Rightarrow> bytes" where
  "writeGauge = metric ''gauge''"

definition writeCounter :: "bytes \<Rightarrow> 64 word \<Rightarrow> bytes \<Rightarrow> bytes" where
  "writeCounter name v = metric ''counter'' name (show_int (uint v))"

definition metrics_text :: "queue_stats \<Rightarrow> int \<times> time \<times> bytes \<Rightarrow> runner_stats \<Rightarrow> bytes" where
  "metrics_text st alias ws =
     (let (aliasCount, lastAliasRefresh, aliasErr) = alias in
      writeGauge ''relay_queue_backlog'' (show_int (StatsBacklog st)) ''Current queue backlog size.''
      @ writeGauge ''relay_queue_pending'' (show_int (PendingCount st)) ''Current pending queue messages.''
      @ writeGauge ''relay_queue_processing'' (show_int (ProcessingCount st)) ''Current processing queue messages.''
      @ writeGauge ''relay_queue_sent'' (show_int (SentCount st)) ''Current sent queue messages.''
      @ writeGauge ''relay_queue_failed'' (show_int (FailedCount st)) ''Current failed queue messages.''
      @ writeGauge ''relay_queue_oldest_pending_age_seconds'' (show_int (whole_seconds (OldestPendingAge st)))
          ''Age in seconds of the oldest pending queue message.''
      @ writeCounter ''relay_worker_processed_total'' (ProcessedCount ws) ''Total worker processed attempts.''
      @ writeCounter ''relay_worker_sent_total'' (StatsSentCount ws) ''Total successfully sent messages.''
      @ writeCounter ''relay_worker_retried_total'' (RetriedCount ws) ''Total retried messages.''
      @ writeCounter ''relay_worker_failed_total'' (StatsFailedCount ws) ''Total permanently failed messages.''
      @ writeGauge ''relay_alias_count'' (show_int aliasCount) ''Number of cached allowed sender aliases.''
      @ writeGauge ''relay_alias_last_refresh_unix'' (show_int (unix_seconds lastAliasRefresh))
          ''Unix timestamp of last alias refresh.''
      @ (if aliasErr = [] then
           writeGauge ''relay_alias_error'' ''0'' ''Whether alias refresh currently has an error (1=yes, 0=no).''
         else
           writeGauge ''relay_alias_error'' ''1'' ''Whether alias refresh currently has an error (1=yes, 0=no).''))"

definition handleMetrics ::
  "'q store_ops \<Rightarrow> time \<Rightarrow> int \<times> time \<times> bytes \<Rightarrow> runner \<Rightarrow> 'q \<Rightarrow> http_response \<times> 'q" where
  "handleMetrics ops now alias r q =
     (case op_Stats ops now q of
        (Inl err, q) \<Rightarrow>
          (\<lparr>code = 503, content_type = ''text/plain; charset=utf-8'',
            body = ''queue metrics unavailable'' @ [LF]\<rparr>, q)
      | (Inr queueStats, q) \<Rightarrow>
          (\<lparr>code = 200, content_type = ''text/plain; version=0.0.4; charset=utf-8'',
            body = metrics_text queueStats alias (runner_Stats r)\<rparr>, q))"

text \<open>The answers to the registered paths.\<close>

datatype http_path = Healthz | Readyz | Status | Metrics

definition route :: "bytes \<Rightarrow> http_path option" where
  "route path =
     (if path = ''/healthz'' then Some Healthz else if path = ''/readyz'' then Some Readyz
      else if path = ''/status'' then Some Status else if path = ''/metrics'' then Some Metrics else None)"

text \<open>\<open>Run\<close>: what it returns once its context is done, or once the listener stops.\<close>

datatype listen_end = ContextDone | ListenerStopped bool

definition obs_Run :: "listen_end \<Rightarrow> bool \<Rightarrow> bool" where
  "obs_Run e shutdown_ok =
     (case e of ContextDone \<Rightarrow> shutdown_ok | ListenerStopped server_closed \<Rightarrow> server_closed)"

section \<open>Lemmas\<close>

text \<open>Ready means: the queue answers, the cache is not empty, and it is fresh or without error.\<close>

lemma readyz_code:
  "code (fst (handleReadyz et ops s now now' (n, t, e) q)) = 200 \<longleftrightarrow>
     (\<exists>st. fst (op_Stats ops now q) = Inr st) \<and> n \<noteq> 0
     \<and> (e = [] \<or> now' - t \<le> AliasMaxStaleFor (obs_cfg s))"
  by (auto simp: handleReadyz_def not_ready_def writeJSON_def split: prod.splits sum.splits)

lemma handlers_queue:
  "snd (handleReadyz et ops s now now' alias q) = snd (op_Stats ops now q)"
  "snd (handleStatus ops now alias r q) = snd (op_Stats ops now q)"
  "snd (handleMetrics ops now alias r q) = snd (op_Stats ops now q)"
  by (auto simp: handleReadyz_def handleStatus_def handleMetrics_def Let_def split: prod.splits sum.splits)

lemma Stats_rows: "Stats now d = (res, d') \<Longrightarrow> rows d' = rows d"
  by (auto simp: Stats_def Let_def split: prod.splits bool.splits option.splits if_splits)

text \<open>The backlog a probe reports is the one the SMTP server compares with its limit.\<close>

lemma Stats_backlog:
  assumes "Stats now d = (Inr st, d')"
  shows "StatsBacklog st = count_where in_backlog (rows d)"
proof -
  have c: "count_where (\<lambda>r. status r = Pending) rs + count_where (\<lambda>r. status r = Processing) rs
    = count_where in_backlog rs" for rs
    by (induction rs) (auto simp: count_where_def in_backlog_def)
  have "StatsBacklog st = StatsBacklog (row_stats (rows d))"
    using assms by (auto simp: Stats_def Let_def split: prod.splits bool.splits option.splits if_splits)
  then show ?thesis by (simp add: row_stats_def Let_def c)
qed

text \<open>On a well-formed table only a failed database call makes \<open>Stats\<close> fail.\<close>

lemma Stats_answers:
  assumes "db_ok d" and "faults d = []"
  shows "\<exists>st. Stats now d = (Inr st, d)"
proof (cases "oldest (filter (\<lambda>r. status r = Pending) (rows d))")
  case None
  then show ?thesis by (simp add: Stats_def db_call_def assms(2) Let_def)
next
  case (Some r)
  then have "r \<in> set (rows d)" using oldest_in [of "filter (\<lambda>r. status r = Pending) (rows d)" r] by simp
  then obtain t where "parse_RFC3339 (created_at r) = Some t"
    using assms(1) by (auto simp: db_ok_def row_ok_def)
  with Some show ?thesis by (simp add: Stats_def db_call_def assms(2) Let_def)
qed

end
