(* ===== verification/Relay_Main.thy ===== *)
theory Relay_Main
  imports Workers Smtp_Server Obs
begin

text \<open>
  cmd/smtp-relay/main.go: how the configuration is handed to the parts, start-up in the order
  of \<open>main\<close> with every early exit, and the exit status. The goroutines that \<open>main\<close> starts are
  the parts' own steps; the end of the process is in theory \<open>Shutdown\<close>.
\<close>

section \<open>Settings of the parts\<close>

definition worker_config :: "config \<Rightarrow> runner_config" where
  "worker_config cfg =
     \<lparr>PollInterval = dur_seconds (WorkerPollIntervalSeconds cfg),
      Concurrency = WorkerConcurrency cfg,
      MaxAttempts = WorkerMaxAttempts cfg,
      RetryBaseBackoff = dur_seconds (WorkerRetryBaseSeconds cfg),
      RetryMaxBackoff = dur_seconds (WorkerRetryMaxSeconds cfg)\<rparr>"

definition sender_config :: "config \<Rightarrow> gmail_config" where
  "sender_config cfg =
     \<lparr>ClientID = GmailClientID cfg, ClientSecret = GmailClientSecret cfg,
      RefreshToken = GmailRefreshToken cfg, Mailbox = GmailMailbox cfg\<rparr>"

definition obs_config_of :: "config \<Rightarrow> obs_config" where
  "obs_config_of cfg =
     \<lparr>Addr = ObsHTTPAddr cfg, AliasMaxStaleFor = dur_seconds (ReadinessAliasMaxStaleSeconds cfg)\<rparr>"

text \<open>The SMTP server's view of the sender: one alias check, with its clock readings and the
  answer Google would give to a refresh.\<close>

definition relay_deps ::
  "(bytes \<Rightarrow> bytes option) \<Rightarrow> time \<Rightarrow> time \<Rightarrow> go_error + bytes list \<Rightarrow> (db, api_sender) deps" where
  "relay_deps parse now t_ref resp =
     \<lparr>store = sqlite_ops,
      aliasAuth = Some (\<lambda>a from. IsAllowedSender parse now t_ref resp from a),
      parse_addr = parse\<rparr>"

section \<open>Start-up\<close>

text \<open>What start-up asks of the outside world: the results of opening the database, of the Gmail
  service and its first alias listing, of loading the key pair, and the clock.\<close>

record startup_env =
  mkdir_ok :: bool
  open_ok :: bool
  pragmas_ok :: bool
  schema_ok :: bool
  alters :: "bytes option list"
  table :: db
  t_old :: time
  t_recover :: time
  t_alias :: time
  t_obs :: time
  service_error :: "go_error option"
  first_listing :: "go_error + bytes list"
  cert_ok :: bool

datatype startup_error =
    ConfigFailed config_error | QueueFailed open_error | RecoverFailed store_error
  | SenderFailed go_error | ServerFailed server_error | WorkerFailed runner_error | ObsFailed obs_error

record relay =
  r_queue :: db
  r_sender :: api_sender
  r_server :: lifecycle
  r_worker :: runner
  r_obs :: obs_server

text \<open>\<open>main\<close> up to the goroutines; every \<open>Inl\<close> is an exit with status 1.\<close>

definition startup ::
  "(bytes \<Rightarrow> bytes option) \<Rightarrow> config_error + config \<Rightarrow> startup_env \<Rightarrow> startup_error + config \<times> relay" where
  "startup parse loaded env =
     (case loaded of
        Inl e \<Rightarrow> Inl (ConfigFailed e)
      | Inr cfg \<Rightarrow>
     (case NewSQLiteStore (mkdir_ok env) (open_ok env) (pragmas_ok env) (schema_ok env) (alters env) (table env) of
        Inl e \<Rightarrow> Inl (QueueFailed e)
      | Inr queueStore \<Rightarrow>
     (case RecoverStuckProcessing
             (t_old env + wrap64 (- ProcessingStuckTimeoutSeconds cfg * second)) (t_recover env) queueStore of
        (Inl e, _) \<Rightarrow> Inl (RecoverFailed e)
      | (Inr recovered, queueStore) \<Rightarrow>
     (case NewAPISender parse (t_alias env) (service_error env) (first_listing env) (sender_config cfg)
             (dur_seconds (SendAsRefreshSeconds cfg)) of
        Inl e \<Rightarrow> Inl (SenderFailed e)
      | Inr sender \<Rightarrow>
     (case NewServer (cert_ok env) True of
        Inl e \<Rightarrow> Inl (ServerFailed e)
      | Inr server \<Rightarrow>
     (case NewRunner (worker_config cfg) True of
        Inl e \<Rightarrow> Inl (WorkerFailed e)
      | Inr workerRunner \<Rightarrow>
     (case obs_NewServer (obs_config_of cfg) True (t_obs env) of
        Inl e \<Rightarrow> Inl (ObsFailed e)
      | Inr obsServer \<Rightarrow>
          Inr (cfg, \<lparr>r_queue = queueStore, r_sender = sender, r_server = server,
                     r_worker = workerRunner, r_obs = obsServer\<rparr>))))))))"

text \<open>The exit status: 1 when start-up fails or the SMTP server stops with an error.\<close>

definition exit_status :: "startup_error + config \<times> relay \<Rightarrow> server_error option \<Rightarrow> int" where
  "exit_status st run_error =
     (case st of Inl _ \<Rightarrow> 1 | Inr _ \<Rightarrow> (case run_error of Some _ \<Rightarrow> 1 | None \<Rightarrow> 0))"

section \<open>Lemmas\<close>

text \<open>The number of seconds that fit a \<open>time.Duration\<close>.\<close>

definition seconds_fit :: "config \<Rightarrow> bool" where
  "seconds_fit cfg \<longleftrightarrow>
     WorkerPollIntervalSeconds cfg \<le> 9223372036 \<and> WorkerRetryMaxSeconds cfg \<le> 9223372036
     \<and> SendAsRefreshSeconds cfg \<le> 9223372036 \<and> ReadinessAliasMaxStaleSeconds cfg \<le> 9223372036
     \<and> ProcessingStuckTimeoutSeconds cfg \<le> 9223372036"

lemma NewRunner_ok:
  assumes "limits_ok cfg" and "seconds_fit cfg"
  shows "\<exists>r. NewRunner (worker_config cfg) True = Inr r"
  using assms by (simp add: NewRunner_def worker_config_def limits_ok_def seconds_fit_def dur_seconds_exact)

lemma obs_NewServer_ok:
  assumes "limits_ok cfg" and "seconds_fit cfg"
  shows "\<exists>s. obs_NewServer (obs_config_of cfg) True t = Inr s"
proof -
  have "trim_space [] = []" by code_simp
  then have "ObsHTTPAddr cfg \<noteq> []" using assms(1) by (auto simp: limits_ok_def)
  then show ?thesis
    using assms by (simp add: obs_NewServer_def obs_config_of_def limits_ok_def seconds_fit_def dur_seconds_exact)
qed

text \<open>Rows as a version without the two time columns left them.\<close>

definition legacy_row :: "row \<Rightarrow> bool" where
  "legacy_row r \<longleftrightarrow>
     row_ok (r\<lparr>next_attempt_at := created_at r, updated_at := created_at r\<rparr>)
     \<and> (next_attempt_at r = [] \<or> parse_RFC3339 (next_attempt_at r) \<noteq> None)
     \<and> (updated_at r = [] \<or> parse_RFC3339 (updated_at r) \<noteq> None)"

definition legacy_ok :: "db \<Rightarrow> bool" where
  "legacy_ok d \<longleftrightarrow> distinct (map row_id (rows d)) \<and> (\<forall>r\<in>set (rows d). legacy_row r)"

lemma legacy_row_filled:
  assumes "legacy_row r"
  shows "row_ok (fill_updated (fill_next_attempt r))"
  using assms by (auto simp: legacy_row_def row_ok_def fill_next_attempt_def fill_updated_def)

lemma db_ok_legacy: "db_ok d \<Longrightarrow> legacy_ok d"
  by (auto simp: db_ok_def legacy_ok_def legacy_row_def row_ok_def)

lemma update_where_fill:
  "update_where (\<lambda>r. next_attempt_at r = []) fill_next_attempt rs = map fill_next_attempt rs"
  "update_where (\<lambda>r. updated_at r = []) fill_updated rs = map fill_updated rs"
  by (auto simp: update_where_def fill_next_attempt_def fill_updated_def)

lemma fill_row_id [simp]: "row_id (fill_updated (fill_next_attempt r)) = row_id r"
  by (simp add: fill_updated_def fill_next_attempt_def)

lemma fill_fields:
  "row_id (fill_next_attempt r) = row_id r" "row_id (fill_updated r) = row_id r"
  "entry_of (fill_next_attempt r) = entry_of r" "entry_of (fill_updated r) = entry_of r"
  by (auto simp: fill_updated_def fill_next_attempt_def entry_of_def)

lemma find_row_filled:
  "map_option entry_of (find_row k (map (\<lambda>r. fill_updated (fill_next_attempt r)) rs))
    = map_option entry_of (find_row k rs)"
  by (induction rs) (simp_all add: fill_fields)

text \<open>Opening the database brings such rows up to date.\<close>

lemma NewSQLiteStore_rows:
  assumes "NewSQLiteStore a b c s al d = Inr d'" and "faults d = []"
  shows "rows d' = map (\<lambda>r. fill_updated (fill_next_attempt r)) (rows d) \<and> faults d' = []"
  using assms
  by (auto simp: NewSQLiteStore_def exec_update_def db_call_def update_where_fill Let_def split: if_splits)

lemma NewSQLiteStore_migrates:
  assumes "NewSQLiteStore a b c s al d = Inr d'" and "faults d = []" and "legacy_ok d"
  shows "db_ok d' \<and> db_view d' = db_view d"
proof -
  have r: "rows d' = map (\<lambda>r. fill_updated (fill_next_attempt r)) (rows d)"
    using NewSQLiteStore_rows [OF assms(1,2)] by simp
  have "db_ok d'"
    using assms(3) legacy_row_filled by (auto simp: db_ok_def legacy_ok_def r comp_def)
  moreover have "db_view d' k = db_view d k" for k
    unfolding db_view_def r by (rule find_row_filled)
  ultimately show ?thesis by auto
qed

text \<open>A successful start: every part is in the state its invariant describes.\<close>

lemma startup_Inr:
  assumes "startup parse loaded env = Inr (cfg, r)"
  obtains d where "loaded = Inr cfg"
    and "NewSQLiteStore (mkdir_ok env) (open_ok env) (pragmas_ok env) (schema_ok env) (alters env) (table env) = Inr d"
    and "\<exists>n. RecoverStuckProcessing (t_old env + wrap64 (- ProcessingStuckTimeoutSeconds cfg * second))
           (t_recover env) d = (Inr n, r_queue r)"
    and "NewAPISender parse (t_alias env) (service_error env) (first_listing env) (sender_config cfg)
           (dur_seconds (SendAsRefreshSeconds cfg)) = Inr (r_sender r)"
    and "NewServer (cert_ok env) True = Inr (r_server r)"
    and "NewRunner (worker_config cfg) True = Inr (r_worker r)"
    and "obs_NewServer (obs_config_of cfg) True (t_obs env) = Inr (r_obs r)"
  using assms by (auto simp: startup_def split: sum.splits prod.splits)

lemma NewAPISender_Inr:
  assumes "NewAPISender parse now sv resp gc interval = Inr s"
  shows "alias_key parse (Mailbox gc) \<in> allowedSend s \<and> lastErr s = [] \<and> lastRefresh s = now
    \<and> refreshInterval s = interval \<and> 0 < interval"
  using assms
  by (auto simp: NewAPISender_def refreshAliases_eq split: if_splits option.splits sum.splits)

lemma NewRunner_Inr: "NewRunner cfg b = Inr r \<Longrightarrow> counters_ok r"
  by (auto simp: NewRunner_def counters_ok_def split: if_splits)

section \<open>Who is to blame when start-up fails\<close>

lemma NewSQLiteStore_Inl:
  "NewSQLiteStore a b c s al d = Inl x \<Longrightarrow> \<not> (a \<and> b \<and> c \<and> s \<and> run_alters al)"
  by (auto simp: NewSQLiteStore_def Let_def)

lemma NewServer_Inl: "NewServer b True = Inl x \<Longrightarrow> \<not> b"
  by (auto simp: NewServer_def)

lemma RecoverStuckProcessing_succeeds:
  "faults d = [] \<Longrightarrow> RecoverStuckProcessing old now d \<noteq> (Inl x, d')"
  by (simp add: RecoverStuckProcessing_def exec_update_def db_call_def)

lemma NewAPISender_Inl:
  assumes "required_ok cfg" and "limits_ok cfg" and "seconds_fit cfg"
    and "NewAPISender parse now sv resp (sender_config cfg) (dur_seconds (SendAsRefreshSeconds cfg)) = Inl x"
  shows "sv \<noteq> None \<or> (\<exists>err. resp = Inl err)"
  using assms
  by (auto simp: NewAPISender_def refreshAliases_eq sender_config_def required_ok_def required_values_def
      limits_ok_def seconds_fit_def dur_seconds_exact split: option.splits sum.splits)

lemma startup_blame:
  assumes "required_ok cfg" and "limits_ok cfg" and "seconds_fit cfg" and "faults (table env) = []"
    and "startup parse (Inr cfg) env = Inl e"
  shows "(\<exists>x. e = QueueFailed x \<and>
        \<not> (mkdir_ok env \<and> open_ok env \<and> pragmas_ok env \<and> schema_ok env \<and> run_alters (alters env)))
    \<or> (\<exists>x. e = SenderFailed x \<and> (service_error env \<noteq> None \<or> (\<exists>err. first_listing env = Inl err)))
    \<or> (\<exists>x. e = ServerFailed x \<and> \<not> cert_ok env)"
proof -
  have f: "faults d = []" if "NewSQLiteStore a b c s al (table env) = Inr d" for a b c s al d
    using NewSQLiteStore_rows [OF that assms(4)] by simp
  have w: "NewRunner (worker_config cfg) True \<noteq> Inl x" for x
    using NewRunner_ok [OF assms(2,3)] by auto
  have o: "obs_NewServer (obs_config_of cfg) True t \<noteq> Inl x" for t x
    using obs_NewServer_ok [OF assms(2,3), of t] by auto
  show ?thesis
    using assms(5)
    by (auto simp: startup_def w o RecoverStuckProcessing_succeeds split: sum.splits prod.splits
        dest: NewSQLiteStore_Inl NewServer_Inl NewAPISender_Inl [OF assms(1-3)] f)
qed

end
