(* ===== verification/Shutdown.thy ===== *)
theory Shutdown
  imports Relay_Main
begin

text \<open>
  The end of the process: \<open>Server.Run\<close> with its two accept loops and its \<open>select\<close>, the goroutine
  of \<open>main\<close> that shuts the server down after a signal, and the connections, as guarded steps that
  interleave in any order until \<open>Run\<close> has returned and \<open>main\<close> ends the process. A \<open>select\<close> with
  several ready cases may take any of them.
\<close>

section \<open>State\<close>

text \<open>An accept loop waits in \<open>Accept\<close>, has got a connection it has not looked at yet, or has
  returned.\<close>

datatype loop = Accepting | Got nat | LoopStopped

text \<open>Where \<open>Run\<close> is: in its \<open>select\<close>; in the wait of its own \<open>Shutdown\<close>, with whether closing the
  listeners gave an error; returned from there; or returned what an accept loop reported. The
  flags of the last two tell whether it returned an error.\<close>

datatype run_point = Selecting | RunDraining bool | RunDrained bool | RunLeft bool

text \<open>The shutdown goroutine of \<open>main\<close>: it waits for the signal, waits for the connections, or is
  done, with or without an error.\<close>

datatype stop_point = AwaitSignal | StopDraining bool | StopDone bool

record process =
  life :: lifecycle
  loops :: "bool \<Rightarrow> loop"
  errCh :: "server_error list"
  signalled :: bool
  run_at :: run_point
  stopper :: stop_point

definition proc_start :: "lifecycle \<Rightarrow> process" where
  "proc_start s =
     \<lparr>life = s, loops = (\<lambda>_. Accepting), errCh = [], signalled = False, run_at = Selecting,
      stopper = AwaitSignal\<rparr>"

section \<open>Operations\<close>

text \<open>The accept loop of the listener \<open>l\<close> (true for port 465): \<open>Accept\<close> returns a connection; the
  loop deals with it; \<open>Accept\<close> returns an error.\<close>

definition loop_take :: "bool \<Rightarrow> nat \<Rightarrow> process \<Rightarrow> process" where
  "loop_take l c p = p\<lparr>loops := (loops p)(l := Got c)\<rparr>"

definition loop_serve :: "config \<Rightarrow> bool \<Rightarrow> process \<Rightarrow> process" where
  "loop_serve cfg l p =
     (case loops p l of
        Got c \<Rightarrow> p\<lparr>life := snd (accept_iteration cfg (Conn c) (life p)), loops := (loops p)(l := Accepting)\<rparr>
      | _ \<Rightarrow> p)"

definition loop_error :: "config \<Rightarrow> bool \<Rightarrow> bool \<Rightarrow> process \<Rightarrow> process" where
  "loop_error cfg l temporary p =
     (case accept_iteration cfg (AcceptError temporary) (life p) of
        (Return e, s) \<Rightarrow> p\<lparr>life := s, loops := (loops p)(l := LoopStopped), errCh := errCh p @ [e]\<rparr>
      | (Continue _, s) \<Rightarrow> p\<lparr>life := s\<rparr>)"

text \<open>\<open>Run\<close>: the case of its \<open>select\<close> for the context, up to the wait of \<open>Shutdown\<close>, whose own
  context never ends; the end of that wait; the case for an accept loop.\<close>

definition run_context :: "bool \<Rightarrow> process \<Rightarrow> process" where
  "run_context close_err p =
     p\<lparr>life := shutdown_begin (life p), run_at := RunDraining (\<not> closed (life p) \<and> close_err)\<rparr>"

definition run_wait :: "process \<Rightarrow> process" where
  "run_wait p =
     (case run_at p of
        RunDraining close_err \<Rightarrow>
          (case shutdown_wait close_err False (life p) of
             None \<Rightarrow> p
           | Some (err, s) \<Rightarrow> p\<lparr>life := s, run_at := RunDrained err\<rparr>)
      | _ \<Rightarrow> p)"

definition run_report :: "process \<Rightarrow> process" where
  "run_report p =
     (case errCh p of
        [] \<Rightarrow> p
      | e # es \<Rightarrow> p\<lparr>errCh := es, run_at := RunLeft (run_result e \<noteq> None)\<rparr>)"

text \<open>The goroutine of \<open>main\<close>: \<open>Shutdown\<close> once the context is done, up to its wait; the end of the
  wait, where \<open>late\<close> tells whether the 15 seconds are over.\<close>

definition stop_begin :: "bool \<Rightarrow> process \<Rightarrow> process" where
  "stop_begin close_err p =
     p\<lparr>life := shutdown_begin (life p), stopper := StopDraining (\<not> closed (life p) \<and> close_err)\<rparr>"

definition stop_wait :: "bool \<Rightarrow> process \<Rightarrow> process" where
  "stop_wait late p =
     (case stopper p of
        StopDraining close_err \<Rightarrow>
          (case shutdown_wait close_err late (life p) of
             None \<Rightarrow> p
           | Some (err, s) \<Rightarrow> p\<lparr>life := s, stopper := StopDone err\<rparr>)
      | _ \<Rightarrow> p)"

text \<open>The end of \<open>main\<close>: its status once \<open>Run\<close> has returned.\<close>

definition main_exit :: "process \<Rightarrow> int option" where
  "main_exit p =
     (case run_at p of
        RunDrained err \<Rightarrow> Some (if err then 1 else 0)
      | RunLeft err \<Rightarrow> Some (if err then 1 else 0)
      | _ \<Rightarrow> None)"

section \<open>Steps\<close>

text \<open>A step of the process while \<open>Run\<close> has not returned. A closed listener accepts nothing, and the
  connection it gives is none of those there are.\<close>

inductive proc_act :: "config \<Rightarrow> process \<Rightarrow> process \<Rightarrow> bool" for cfg where
  signal: "proc_act cfg p (p\<lparr>signalled := True\<rparr>)"
| take: "loops p l = Accepting \<Longrightarrow> \<not> closed (life p) \<Longrightarrow> c \<notin> serving (life p) \<union> open_socks (life p) \<Longrightarrow>
    loops p (\<not> l) \<noteq> Got c \<Longrightarrow> proc_act cfg p (loop_take l c p)"
| serve: "proc_act cfg p (loop_serve cfg l p)"
| accept_error: "loops p l = Accepting \<Longrightarrow> proc_act cfg p (loop_error cfg l temporary p)"
| begin_conn: "c \<in> serving (life p) \<Longrightarrow> proc_act cfg p (p\<lparr>life := conn_start c (life p)\<rparr>)"
| end_conn: "c \<in> serving (life p) \<Longrightarrow> proc_act cfg p (p\<lparr>life := conn_end c (life p)\<rparr>)"
| run_sees_context: "run_at p = Selecting \<Longrightarrow> signalled p \<Longrightarrow> proc_act cfg p (run_context close_err p)"
| run_sees_error: "run_at p = Selecting \<Longrightarrow> proc_act cfg p (run_report p)"
| run_waits: "proc_act cfg p (run_wait p)"
| stop_sees_context: "stopper p = AwaitSignal \<Longrightarrow> signalled p \<Longrightarrow> proc_act cfg p (stop_begin close_err p)"
| stop_waits: "proc_act cfg p (stop_wait late p)"

inductive proc_reach :: "config \<Rightarrow> process \<Rightarrow> process \<Rightarrow> bool" for cfg p where
  proc_here: "proc_reach cfg p p"
| proc_next: "proc_reach cfg p q \<Longrightarrow> main_exit q = None \<Longrightarrow> proc_act cfg q q' \<Longrightarrow> proc_reach cfg p q'"

section \<open>Invariant\<close>

text \<open>What holds of \<open>Run\<close> where it is: it drains and leaves without an error only in a shutdown,
  and its own drain ends only when no connection is served.\<close>

definition run_ok :: "process \<Rightarrow> bool" where
  "run_ok p \<longleftrightarrow>
     (case run_at p of
        Selecting \<Rightarrow> True
      | RunDraining _ \<Rightarrow> closed (life p)
      | RunDrained _ \<Rightarrow> closed (life p) \<and> serving (life p) = {}
      | RunLeft err \<Rightarrow> err \<or> closed (life p))"

definition loops_ok :: "process \<Rightarrow> bool" where
  "loops_ok p \<longleftrightarrow>
     (\<forall>l c. loops p l = Got c \<longrightarrow> c \<notin> serving (life p) \<union> open_socks (life p) \<and> loops p (\<not> l) \<noteq> Got c)"

definition proc_ok :: "config \<Rightarrow> process \<Rightarrow> bool" where
  "proc_ok cfg p \<longleftrightarrow>
     srv_ok cfg (life p) \<and> loops_ok p \<and> run_ok p
     \<and> (closed (life p) \<longrightarrow> signalled p) \<and> (ServerClosed \<in> set (errCh p) \<longrightarrow> closed (life p))"

lemma proc_ok_start:
  assumes "NewServer cert st = Inr s" and "0 \<le> SMTPMaxConnections cfg"
  shows "proc_ok cfg (proc_start s)"
  using assms srv_ok_new [OF assms]
  by (auto simp: proc_ok_def loops_ok_def run_ok_def proc_start_def NewServer_def split: if_splits)

lemma run_result_None: "run_result e = None \<longleftrightarrow> e = ServerClosed"
  by (simp add: run_result_def)

lemma shutdown_begin_simps [simp]:
  "serving (shutdown_begin s) = serving s" "open_socks (shutdown_begin s) = open_socks s"
  "closed (shutdown_begin s)" "srv_ok cfg (shutdown_begin s) = srv_ok cfg s"
  by (simp_all add: shutdown_begin_def srv_ok_def)

lemma shutdown_wait_ends:
  assumes "shutdown_wait b late s = Some (err, s')" and "srv_ok cfg s"
  shows "srv_ok cfg s' \<and> serving s' = serving s \<and> open_socks s' \<subseteq> open_socks s \<and> closed s' = closed s
    \<and> (late \<or> serving s = {})"
  using assms by (auto simp: shutdown_wait_def closeActiveConnections_def srv_ok_def split: if_splits)

lemma accept_conn_keeps:
  assumes "accept_iteration cfg (Conn c) s = (r, s')"
  shows "closed s' = closed s \<and> serving s' \<subseteq> insert c (serving s) \<and> open_socks s' \<subseteq> insert c (open_socks s)"
  using assms
  by (auto simp: accept_iteration_def tryAcquireConnectionSlot_def close_sock_def Let_def split: if_splits)

lemma conn_end_keeps:
  "closed (conn_end c s) = closed s" "serving (conn_end c s) = serving s - {c}"
  "open_socks (conn_end c s) = open_socks s - {c}"
  by (simp_all add: conn_end_def trackConn_def close_sock_def releaseConnectionSlot_def Let_def)

lemmas proc_ok_defs = proc_ok_def loops_ok_def run_ok_def

lemma loops_ok_served:
  assumes "loops_ok p" and "loops p l = Got c"
    and "closed s = closed (life p) \<and> serving s \<subseteq> insert c (serving (life p))
      \<and> open_socks s \<subseteq> insert c (open_socks (life p))"
  shows "loops_ok (p\<lparr>life := s, loops := (loops p)(l := Accepting)\<rparr>)"
  unfolding loops_ok_def
proof (intro allI impI)
  fix k d
  assume "loops (p\<lparr>life := s, loops := (loops p)(l := Accepting)\<rparr>) k = Got d"
  then have k: "loops p k = Got d" "k = (\<not> l)" by (auto split: if_splits)
  then have "d \<noteq> c" "d \<notin> serving (life p) \<union> open_socks (life p)"
    using assms(1,2) by (auto simp: loops_ok_def)
  then show "d \<notin> serving (life (p\<lparr>life := s, loops := (loops p)(l := Accepting)\<rparr>))
      \<union> open_socks (life (p\<lparr>life := s, loops := (loops p)(l := Accepting)\<rparr>))
    \<and> loops (p\<lparr>life := s, loops := (loops p)(l := Accepting)\<rparr>) (\<not> k) \<noteq> Got d"
    using assms(3) k by auto
qed

lemma proc_ok_serve:
  assumes "proc_ok cfg p" and "main_exit p = None"
  shows "proc_ok cfg (loop_serve cfg l p)"
proof (cases "loops p l")
  case (Got c)
  obtain r s where a: "accept_iteration cfg (Conn c) (life p) = (r, s)" by fastforce
  have fresh: "c \<notin> serving (life p)" "c \<notin> open_socks (life p)"
    using assms(1) Got by (auto simp: proc_ok_defs)
  have "srv_ok cfg s" using srv_ok_accept [OF _ fresh(2,1), of cfg] assms(1) a by (simp add: proc_ok_def)
  moreover have "run_ok (p\<lparr>life := s, loops := (loops p)(l := Accepting)\<rparr>)"
    using assms accept_conn_keeps [OF a] by (auto simp: proc_ok_defs main_exit_def split: run_point.splits)
  moreover have "loops_ok (p\<lparr>life := s, loops := (loops p)(l := Accepting)\<rparr>)"
    by (rule loops_ok_served [OF _ Got accept_conn_keeps [OF a]]) (use assms(1) in \<open>simp add: proc_ok_def\<close>)
  ultimately show ?thesis
    using assms(1) accept_conn_keeps [OF a] by (simp add: loop_serve_def Got a proc_ok_def)
qed (use assms in \<open>simp_all add: loop_serve_def\<close>)

lemma proc_ok_error:
  assumes "proc_ok cfg p"
  shows "proc_ok cfg (loop_error cfg l temporary p)"
proof (cases "\<not> closed (life p) \<and> temporary")
  case True
  then show ?thesis using assms by (simp add: loop_error_def accept_iteration_def)
next
  case False
  let ?e = "if closed (life p) then ServerClosed else AcceptFailed"
  let ?q = "p\<lparr>loops := (loops p)(l := LoopStopped), errCh := errCh p @ [?e]\<rparr>"
  have "loop_error cfg l temporary p = ?q"
    using False by (auto simp: loop_error_def accept_iteration_def)
  moreover have "loops_ok ?q" using assms by (auto simp: proc_ok_def loops_ok_def)
  moreover have "run_ok ?q" using assms by (auto simp: proc_ok_def run_ok_def split: run_point.splits)
  ultimately show ?thesis using assms by (simp add: proc_ok_def)
qed

lemma proc_ok_run_wait:
  assumes "proc_ok cfg p"
  shows "proc_ok cfg (run_wait p)"
proof (cases "run_at p")
  case (RunDraining b)
  show ?thesis
  proof (cases "shutdown_wait b False (life p)")
    case (Some es)
    then obtain err s where w: "shutdown_wait b False (life p) = Some (err, s)" by (cases es) simp
    have "srv_ok cfg (life p)" using assms by (simp add: proc_ok_def)
    from shutdown_wait_ends [OF w this] show ?thesis
      using assms RunDraining by (auto simp: run_wait_def w proc_ok_defs)
  qed (use assms RunDraining in \<open>simp add: run_wait_def\<close>)
qed (use assms in \<open>simp_all add: run_wait_def\<close>)

lemma proc_ok_stop_wait:
  assumes "proc_ok cfg p" and "main_exit p = None"
  shows "proc_ok cfg (stop_wait late p)"
proof (cases "stopper p")
  case (StopDraining b)
  show ?thesis
  proof (cases "shutdown_wait b late (life p)")
    case (Some es)
    then obtain err s where w: "shutdown_wait b late (life p) = Some (err, s)" by (cases es) simp
    have "srv_ok cfg (life p)" using assms by (simp add: proc_ok_def)
    from shutdown_wait_ends [OF w this] show ?thesis
      using assms StopDraining
      by (auto simp: stop_wait_def w proc_ok_defs main_exit_def split: run_point.splits)
  qed (use assms StopDraining in \<open>simp add: stop_wait_def\<close>)
qed (use assms in \<open>simp_all add: stop_wait_def\<close>)

lemma proc_ok_report:
  assumes "proc_ok cfg p"
  shows "proc_ok cfg (run_report p)"
  using assms by (auto simp: run_report_def proc_ok_defs run_result_None split: list.splits)

lemma proc_ok_end_conn:
  assumes "proc_ok cfg p" and "c \<in> serving (life p)"
  shows "proc_ok cfg (p\<lparr>life := conn_end c (life p)\<rparr>)"
  using assms srv_ok_end [of cfg "life p" c]
  by (auto simp: proc_ok_defs conn_end_keeps split: run_point.splits)

lemma proc_ok_act:
  assumes "proc_act cfg p q" and "proc_ok cfg p" and "main_exit p = None"
  shows "proc_ok cfg q"
  using assms(1)
proof (cases rule: proc_act.cases)
  case signal
  then show ?thesis using assms(2) by (simp add: proc_ok_defs split: run_point.splits)
next
  case (take l c)
  then show ?thesis using assms(2) by (auto simp: proc_ok_defs loop_take_def split: run_point.splits)
next
  case (serve l)
  then show ?thesis using proc_ok_serve [OF assms(2,3)] by simp
next
  case (accept_error l temporary)
  then show ?thesis using proc_ok_error [OF assms(2)] by simp
next
  case (begin_conn c)
  then show ?thesis
    using assms(2) by (simp add: proc_ok_defs conn_start_def trackConn_def srv_ok_def split: run_point.splits)
next
  case (end_conn c)
  then show ?thesis using proc_ok_end_conn [OF assms(2)] by simp
next
  case (run_sees_context close_err)
  then show ?thesis using assms(2) by (simp add: proc_ok_defs run_context_def)
next
  case run_sees_error
  then show ?thesis using proc_ok_report [OF assms(2)] by simp
next
  case run_waits
  then show ?thesis using proc_ok_run_wait [OF assms(2)] by simp
next
  case (stop_sees_context close_err)
  then show ?thesis
    using assms(2,3) by (auto simp: proc_ok_defs stop_begin_def main_exit_def split: run_point.splits)
next
  case (stop_waits late)
  then show ?thesis using proc_ok_stop_wait [OF assms(2,3)] by simp
qed

lemma proc_ok_reach: "proc_reach cfg p q \<Longrightarrow> proc_ok cfg p \<Longrightarrow> proc_ok cfg q"
  by (induction rule: proc_reach.induct) (auto intro: proc_ok_act)

lemma proc_reach_trans: "proc_reach cfg q r \<Longrightarrow> proc_reach cfg p q \<Longrightarrow> proc_reach cfg p r"
  by (induction rule: proc_reach.induct) (auto intro: proc_next)

lemma proc_ok_served:
  assumes "proc_ok cfg p" and "run_at p = RunDrained err"
  shows "signalled p \<and> closed (life p) \<and> serving (life p) = {} \<and> open_socks (life p) = {}"
  using assms by (auto simp: proc_ok_defs srv_ok_def)

section \<open>Shutdown ends\<close>

text \<open>While \<open>Run\<close> drains, it needs nothing but the end of the connections that are served.\<close>

lemma drain:
  assumes "proc_ok cfg p" and "run_at p = RunDraining b"
  shows "\<exists>q. proc_reach cfg p q \<and> run_at q = RunDrained b"
  using assms
proof (induction "card (serving (life p))" arbitrary: p)
  case 0
  then have "connWg (life p) = 0" by (simp add: proc_ok_def srv_ok_def)
  then have w: "run_at (run_wait p) = RunDrained b"
    using 0 by (simp add: run_wait_def shutdown_wait_def)
  have "main_exit p = None" using 0 by (simp add: main_exit_def)
  then have "proc_reach cfg p (run_wait p)" by (rule proc_next [OF proc_here]) (rule run_waits)
  with w show ?case by blast
next
  case (Suc n)
  from Suc.hyps(2) obtain c where c: "c \<in> serving (life p)" by fastforce
  let ?p = "p\<lparr>life := conn_end c (life p)\<rparr>"
  have "finite (serving (life p))" using Suc.prems by (simp add: proc_ok_def srv_ok_def)
  then have "n = card (serving (life ?p))" using Suc.hyps(2) c by (simp add: conn_end_keeps)
  from Suc.hyps(1) [OF this proc_ok_end_conn [OF Suc.prems(1) c]] Suc.prems(2)
  obtain q where q: "proc_reach cfg ?p q" "run_at q = RunDrained b" by auto
  have "main_exit p = None" using Suc.prems by (simp add: main_exit_def)
  then have "proc_reach cfg p ?p" using c by (intro proc_next [OF proc_here]) (auto intro: proc_act.end_conn)
  with q show ?case by (blast intro: proc_reach_trans)
qed

lemma drain_selecting:
  assumes "proc_ok cfg p" and "run_at p = Selecting" and "signalled p"
  shows "\<exists>err q. proc_reach cfg p q \<and> run_at q = RunDrained err"
proof -
  let ?p = "run_context False p"
  have m: "main_exit p = None" using assms(2) by (simp add: main_exit_def)
  have a: "proc_act cfg p ?p" using assms(2,3) by (rule run_sees_context)
  have "run_at ?p = RunDraining False" by (simp add: run_context_def)
  then obtain q where "proc_reach cfg ?p q" "run_at q = RunDrained False"
    using drain [OF proc_ok_act [OF a assms(1) m]] by blast
  then show ?thesis using proc_reach_trans [OF _ proc_next [OF proc_here m a]] by blast
qed

end
