(* ===== verification/Intake.thy ===== *)
theory Intake
  imports Workers Data_Command
begin

text \<open>
  Several connections at once. DATA is not one transaction: the backlog is counted before the
  reply 354, and the message is enqueued when it has arrived. In between, other connections may
  be admitted on the same count. Here DATA is cut into these two parts, any number of which
  interleave with each other and with the workers.
\<close>

section \<open>DATA in two parts\<close>

text \<open>Up to the reply 354: the command ends, or the session goes on to read the message.\<close>

definition data_open ::
  "config \<Rightarrow> ('q, 'a) deps \<Rightarrow> session \<Rightarrow> ('q, 'a) server
   \<Rightarrow> (conn_error option \<times> session \<times> ('q, 'a) server) + session \<times> ('q, 'a) server" where
  "data_open cfg dps s w =
     (if mailFrom s = [] \<or> rcptTo s = [] then Inl (answer ''503 need MAIL FROM and RCPT TO first'' s w)
      else
        (case op_BacklogCount (store dps) (queue w) of
           (Inl err, q) \<Rightarrow> Inl (answer ''451 transient local error'' s (w\<lparr>queue := q\<rparr>))
         | (Inr pendingCount, q) \<Rightarrow>
             if QueueMaxBacklog cfg \<le> pendingCount then
               Inl (answer ''421 service temporarily unavailable, queue backlog limit reached'' s (w\<lparr>queue := q\<rparr>))
             else
               (case reply_error data_prompt s of
                  Some e \<Rightarrow> Inl (Some e, replied data_prompt s, w\<lparr>queue := q\<rparr>)
                | None \<Rightarrow> Inr (replied data_prompt s, w\<lparr>queue := q\<rparr>))))"

lemma cmd_data_parts:
  "cmd_data cfg dps env s w =
     (case data_open cfg dps s w of Inl res \<Rightarrow> res | Inr (s', w') \<Rightarrow> data_body cfg dps env s' w')"
  by (simp add: cmd_data_def data_open_def data_prompt_def Let_def split: prod.split sum.split option.split)

section \<open>The interleaving\<close>

text \<open>The process, and for each connection slot the session that is receiving a message, if any.\<close>

record ('q, 's) intake =
  i_sys :: "('q, 's) sys"
  receiving :: "nat \<Rightarrow> session option"

inductive intake_step ::
  "config \<Rightarrow> ('q, 'a) deps \<Rightarrow> runner_config \<Rightarrow> 's sender \<Rightarrow> ('q, 's) intake \<Rightarrow> ('q, 's) intake \<Rightarrow> bool"
  for cfg :: config and dps :: "('q, 'a) deps" and wcfg :: runner_config and send :: "'s sender" where
  workers: "worker_step wcfg (store dps) send (i_sys x) y \<Longrightarrow>
    intake_step cfg dps wcfg send x (x\<lparr>i_sys := y\<rparr>)"
| refused: "queue w = s_queue (i_sys x) \<Longrightarrow> data_open cfg dps s w = Inl (e, s', w') \<Longrightarrow>
    intake_step cfg dps wcfg send x (x\<lparr>i_sys := (i_sys x)\<lparr>s_queue := queue w'\<rparr>\<rparr>)"
| opened: "int c < SMTPMaxConnections cfg \<Longrightarrow> receiving x c = None \<Longrightarrow>
    queue w = s_queue (i_sys x) \<Longrightarrow> data_open cfg dps s w = Inr (s', w') \<Longrightarrow>
    intake_step cfg dps wcfg send x
      (x\<lparr>i_sys := (i_sys x)\<lparr>s_queue := queue w'\<rparr>, receiving := (receiving x)(c \<mapsto> s')\<rparr>)"
| received: "receiving x c = Some s \<Longrightarrow> env_ok env \<Longrightarrow> queue w = s_queue (i_sys x) \<Longrightarrow>
    data_body cfg dps env s w = (e, s', w') \<Longrightarrow>
    intake_step cfg dps wcfg send x
      (x\<lparr>i_sys := (i_sys x)\<lparr>s_queue := queue w'\<rparr>, receiving := (receiving x)(c := None)\<rparr>)"

inductive intake_reach ::
  "config \<Rightarrow> ('q, 'a) deps \<Rightarrow> runner_config \<Rightarrow> 's sender \<Rightarrow> ('q, 's) intake \<Rightarrow> ('q, 's) intake \<Rightarrow> bool"
  for cfg :: config and dps :: "('q, 'a) deps" and wcfg :: runner_config and send :: "'s sender"
    and x :: "('q, 's) intake" where
  i_start: "intake_reach cfg dps wcfg send x x"
| i_next: "intake_reach cfg dps wcfg send x y \<Longrightarrow> intake_step cfg dps wcfg send y z \<Longrightarrow>
    intake_reach cfg dps wcfg send x z"

definition intake_start :: "runner \<Rightarrow> 'q \<Rightarrow> 's \<Rightarrow> ('q, 's) intake" where
  "intake_start r q s = \<lparr>i_sys = sys_start r q s, receiving = Map.empty\<rparr>"

section \<open>What the parts do to the queue\<close>

context queue_store
begin

text \<open>The first part only counts.\<close>

lemma data_open_view:
  assumes "data_open cfg dps s w = r" and "store dps = ops" and "inv (queue w)"
  shows "case r of
      Inl (e, s', w') \<Rightarrow> inv (queue w') \<and> view (queue w') = view (queue w)
    | Inr (s', w') \<Rightarrow> inv (queue w') \<and> view (queue w') = view (queue w)
        \<and> backlog_size (view (queue w)) < QueueMaxBacklog cfg"
  using assms backlog_law [OF assms(3)]
  by (auto simp: data_open_def answer_def split: if_splits prod.splits sum.splits option.splits)

text \<open>The second part adds at most one entry.\<close>

lemma data_body_view:
  assumes "data_body cfg dps env s w = (e, s', w')" and "store dps = ops" and "inv (queue w)" and "env_ok env"
  shows "inv (queue w') \<and> (view (queue w') = view (queue w)
    \<or> (\<exists>i en. view (queue w) i = None \<and> view (queue w') = (view (queue w))(i \<mapsto> en)))"
proof (cases "queue w' = queue w")
  case True
  then show ?thesis using assms(3) by simp
next
  case False
  have t: "valid_time (t_enq env)" using assms(4) by (simp add: env_ok_def)
  obtain p s1 err where enq: "op_Enqueue ops (t_enq env) (data_message env p s1) (queue w) = (err, queue w')"
    using False assms(1,2)
    by (auto simp: data_body_def answer_quietly_def split: prod.splits option.splits if_splits)
  show ?thesis
    using enqueue_law [OF assms(3) t valid_data_message [OF assms(4)] enq] by (cases err) auto
qed

lemma backlog_add:
  assumes "inv q" and "view q i = None"
  shows "backlog_size ((view q)(i \<mapsto> en)) \<le> backlog_size (view q) + 1"
proof -
  have "waiting ((view q)(i \<mapsto> en)) \<subseteq> insert i (waiting (view q))" by (auto simp: waiting_def)
  then have "card (waiting ((view q)(i \<mapsto> en))) \<le> card (insert i (waiting (view q)))"
    by (intro card_mono) (simp_all add: finite_waiting [OF assms(1)])
  also have "\<dots> \<le> card (waiting (view q)) + 1"
    using card_insert_le_m1 finite_waiting [OF assms(1)] by (simp add: card_insert_if)
  finally show ?thesis by (simp add: backlog_size_def)
qed

text \<open>The workers never make the backlog grow: they only mark what is in processing.\<close>

lemma work_backlog:
  assumes "worker_step cfg ops send x y" and "sys_ok x" and "backoff_ok cfg"
  shows "backlog_size (view (s_queue y)) \<le> backlog_size (view (s_queue x))"
  using assms(1)
proof (cases rule: worker_step.cases)
  case (claim w now taken q)
  then show ?thesis using claim_backlog [of "s_queue x" now taken q] assms(2) by (simp add: sys_ok_def)
next
  case (record_outcome w m res env err r q)
  have i: "inv (s_queue x)" using assms(2) by (simp add: sys_ok_def)
  have "held (s_phase x w) = Some m" using record_outcome(2) by simp
  then have h: "being_processed (view (s_queue x)) (ID m)"
    using assms(2) unfolding sys_ok_def holders_ok_def by blast
  have "view q = view (s_queue x) \<or> view q = set_status (ID m) (verdict cfg (MsgAttempts m) res) (view (s_queue x))"
    using finish_law [OF record_outcome(4) i assms(3) record_outcome(3)] by simp
  then have "waiting (view q) \<subseteq> waiting (view (s_queue x))"
    using h by (auto simp: waiting_def set_status_def being_processed_def split: if_splits)
  then show ?thesis
    using record_outcome(1) card_mono [OF finite_waiting [OF i]] by (simp add: backlog_size_def)
qed simp_all

section \<open>The bound\<close>

definition intake_ok :: "config \<Rightarrow> ('q, 's) intake \<Rightarrow> bool" where
  "intake_ok cfg x \<longleftrightarrow>
     sys_ok (i_sys x) \<and> dom (receiving x) \<subseteq> {c. int c < SMTPMaxConnections cfg}
     \<and> backlog_size (view (s_queue (i_sys x))) + int (card (dom (receiving x)))
         \<le> QueueMaxBacklog cfg + SMTPMaxConnections cfg - 1"

lemma slots_finite:
  assumes "dom f \<subseteq> {c :: nat. int c < n}" and "0 \<le> n"
  shows "finite (dom f)" and "int (card (dom f)) \<le> n"
proof -
  have e: "{c. int c < n} = {..<nat n}" by auto
  show "finite (dom f)" using assms(1) unfolding e by (rule finite_subset) simp
  have "card (dom f) \<le> card {..<nat n}" using assms(1) unfolding e by (intro card_mono) simp_all
  then show "int (card (dom f)) \<le> n" using assms(2) by simp
qed

lemma intake_ok_start:
  assumes "inv q" and "0 < SMTPMaxConnections cfg" and "backlog_size (view q) \<le> QueueMaxBacklog cfg"
  shows "intake_ok cfg (intake_start r q s)"
  using assms sys_ok_start [OF assms(1)] by (simp add: intake_ok_def intake_start_def) (simp add: sys_start_def)

lemma intake_ok_step:
  assumes "intake_step cfg dps wcfg send x y" and "intake_ok cfg x" and "store dps = ops"
    and "backoff_ok wcfg" and "0 < SMTPMaxConnections cfg"
  shows "intake_ok cfg y"
proof -
  have ok: "sys_ok (i_sys x)" and slots: "dom (receiving x) \<subseteq> {c. int c < SMTPMaxConnections cfg}"
    and bound: "backlog_size (view (s_queue (i_sys x))) + int (card (dom (receiving x)))
         \<le> QueueMaxBacklog cfg + SMTPMaxConnections cfg - 1"
    using assms(2) by (simp_all add: intake_ok_def)
  have i: "inv (s_queue (i_sys x))" using ok by (simp add: sys_ok_def)
  show ?thesis
    using assms(1)
  proof (cases rule: intake_step.cases)
    case (workers z)
    then have w: "worker_step wcfg ops send (i_sys x) z" using assms(3) by simp
    show ?thesis
      using workers(1) work_backlog [OF w ok assms(4)] sys_ok_work [OF w ok assms(4)] slots bound
      by (simp add: intake_ok_def)
  next
    case (refused w s e s' w')
    then have "inv (queue w') \<and> view (queue w') = view (s_queue (i_sys x))"
      using data_open_view [OF refused(3) assms(3)] i by simp
    then show ?thesis
      using refused(1) sys_ok_same_view [OF ok] slots bound by (simp add: intake_ok_def)
  next
    case (opened c w s s' w')
    then have o: "inv (queue w')" "view (queue w') = view (s_queue (i_sys x))"
      "backlog_size (view (s_queue (i_sys x))) < QueueMaxBacklog cfg"
      using data_open_view [OF opened(5) assms(3)] i by simp_all
    have d: "dom ((receiving x)(c \<mapsto> s')) \<subseteq> {c. int c < SMTPMaxConnections cfg}"
      using slots opened(2) by auto
    show ?thesis
      unfolding intake_ok_def opened(1)
      using sys_ok_same_view [OF ok o(1,2)] d slots_finite(2) [OF d] o assms(5) by simp
  next
    case (received c s env w e s' w')
    have dw: "inv (queue w') \<and> (view (queue w') = view (s_queue (i_sys x))
        \<or> (\<exists>i en. view (s_queue (i_sys x)) i = None \<and> view (queue w') = (view (s_queue (i_sys x)))(i \<mapsto> en)))"
      using data_body_view [OF received(5) assms(3) _ received(3)] received(4) i by simp
    then have s: "sys_ok ((i_sys x)\<lparr>s_queue := queue w'\<rparr>)"
      using sys_ok_same_view [OF ok] sys_ok_enqueue [OF ok] by blast
    have b: "backlog_size (view (queue w')) \<le> backlog_size (view (s_queue (i_sys x))) + 1"
      using dw backlog_add [OF i] by auto
    have "c \<in> dom (receiving x)" using received(2) by auto
    then have "card (dom (receiving x)) = Suc (card (dom (receiving x) - {c}))"
      using slots_finite(1) [OF slots] assms(5) by (intro card.remove) simp_all
    then have c: "int (card (dom (receiving x) - {c})) = int (card (dom (receiving x))) - 1" by simp
    show ?thesis
      unfolding intake_ok_def received(1) using s b c bound slots by auto
  qed
qed

lemma intake_ok_reach:
  assumes "intake_reach cfg dps wcfg send x y" and "intake_ok cfg x" and "store dps = ops"
    and "backoff_ok wcfg" and "0 < SMTPMaxConnections cfg"
  shows "intake_ok cfg y"
  using assms by (induction rule: intake_reach.induct) (auto intro: intake_ok_step)

end

end
