(* ===== verification/Restarts.thy ===== *)
theory Restarts
  imports Workers
begin

text \<open>
  Several runs of the process on one database. A run may end at any moment, by a crash or because
  \<open>main\<close> does not wait for its workers; the next one recovers stale rows and starts with idle
  workers. What was sent in all runs is the concatenation of their logs.
\<close>

text \<open>From the state \<open>x\<close> of a run to a state after \<open>n\<close> restarts, with the log of the runs before.\<close>

inductive later ::
  "runner_config \<Rightarrow> 'q store_ops \<Rightarrow> 's sender \<Rightarrow> ('q, 's) sys
   \<Rightarrow> nat \<Rightarrow> (bytes \<times> go_error option) list \<Rightarrow> ('q, 's) sys \<Rightarrow> bool"
  for cfg :: runner_config and ops :: "'q store_ops" and send :: "'s sender" and x :: "('q, 's) sys" where
  same_run: "reach cfg ops send x y \<Longrightarrow> later cfg ops send x 0 [] y"
| restarted: "later cfg ops send x n past y \<Longrightarrow> valid_time now \<Longrightarrow>
    op_RecoverStuckProcessing ops old now (s_queue y) = (Inr k, q) \<Longrightarrow>
    reach cfg ops send (sys_start r q s) z \<Longrightarrow>
    later cfg ops send x (Suc n) (past @ s_log y) z"

lemma successes_append_logs: "successes i (xs @ ys) = successes i xs + successes i ys"
  by (simp add: successes_def)

lemma successes_Nil [simp]: "successes i [] = 0"
  by (simp add: successes_def)

text \<open>An entry that is sent or has failed for good.\<close>

definition settled :: "queue_view \<Rightarrow> bytes \<Rightarrow> entry \<Rightarrow> bool" where
  "settled v i e \<longleftrightarrow> v i = Some e \<and> (e_status e = Sent \<or> e_status e = Failed)"

lemma settled_released:
  assumes "settled v i e" and "\<forall>i\<in>S. \<exists>e. v i = Some e \<and> e_status e = Processing"
  shows "settled (release S v) i e"
  using assms by (fastforce simp: settled_def release_def)

context queue_store
begin

lemma recovered_inv:
  assumes "inv q" and "valid_time now" and "op_RecoverStuckProcessing ops old now q = (r, q')"
  shows "inv q'"
  using recover_law [OF assms] by blast

lemma recovered_settled:
  assumes "inv q" and "valid_time now" and "op_RecoverStuckProcessing ops old now q = (r, q')"
    and "settled (view q) i e"
  shows "settled (view q') i e"
  using recover_law [OF assms(1-3)] settled_released [OF assms(4)] by auto

text \<open>A settled entry is out of every worker's hands.\<close>

lemma settled_not_held:
  assumes "sys_ok x" and "settled (view (s_queue x)) i e" and "held (s_phase x w) = Some m"
  shows "ID m \<noteq> i"
proof
  assume "ID m = i"
  with assms(1,3) have "being_processed (view (s_queue x)) i"
    unfolding sys_ok_def holders_ok_def by blast
  with assms(2) show False by (auto simp: being_processed_def settled_def)
qed

lemma settled_work:
  assumes "worker_step cfg ops send x y" and "sys_ok x" and "backoff_ok cfg"
    and "settled (view (s_queue x)) i e"
  shows "settled (view (s_queue y)) i e \<and> successes i (s_log y) = successes i (s_log x)"
  using assms(1)
proof (cases rule: worker_step.cases)
  case (claim w now taken q)
  have "inv (s_queue x)" using assms(2) by (simp add: sys_ok_def)
  from claim_law [OF this claim(4,5)] show ?thesis
    using claim(1) assms(4) by (auto simp: settled_def split: sum.splits option.splits)
next
  case (transmit w m res s)
  then have "held (s_phase x w) = Some m" by simp
  then have "ID m \<noteq> i" by (rule settled_not_held [OF assms(2,4)])
  then show ?thesis using transmit(1) assms(4) by simp
next
  case (record_outcome w m res env err r q)
  have inv: "inv (s_queue x)" using assms(2) by (simp add: sys_ok_def)
  have "held (s_phase x w) = Some m" using record_outcome(2) by simp
  then have "ID m \<noteq> i" by (rule settled_not_held [OF assms(2,4)])
  then show ?thesis
    using finish_law [OF record_outcome(4) inv assms(3) record_outcome(3)] record_outcome(1) assms(4)
    by (auto simp: settled_def set_status_def)
next
  case (refresh s)
  then show ?thesis using assms(4) by simp
qed

lemma settled_step:
  assumes "sys_step cfg ops send x y" and "sys_ok x" and "backoff_ok cfg"
    and "settled (view (s_queue x)) i e"
  shows "settled (view (s_queue y)) i e \<and> successes i (s_log y) = successes i (s_log x)"
  using assms(1)
proof (cases rule: sys_step.cases)
  case work
  then show ?thesis using settled_work assms(2-4) by blast
next
  case (enqueue now m err q)
  have "inv (s_queue x)" using assms(2) by (simp add: sys_ok_def)
  from enqueue_law [OF this enqueue(2-4)] show ?thesis
    using enqueue(1) assms(4) by (auto simp: settled_def split: option.splits)
next
  case (count n q)
  have "inv (s_queue x)" using assms(2) by (simp add: sys_ok_def)
  from backlog_law [OF this count(2)] show ?thesis using count(1) assms(4) by simp
qed

lemma settled_reach:
  assumes "reach cfg ops send x y" and "sys_ok x" and "backoff_ok cfg"
    and "settled (view (s_queue x)) i e"
  shows "settled (view (s_queue y)) i e \<and> successes i (s_log y) = successes i (s_log x)"
  using assms
proof (induction rule: reach.induct)
  case (step y z)
  have "sys_ok y" by (rule sys_ok_reach [OF step.hyps(1) step.prems(1,2)])
  then show ?case using settled_step [OF step.hyps(2) _ step.prems(2)] step.IH [OF step.prems] by auto
qed simp

text \<open>Every run is well formed, whenever the one before it ended.\<close>

lemma later_ok:
  assumes "later cfg ops send x n past y" and "sys_ok x" and "backoff_ok cfg"
  shows "sys_ok y"
  using assms
proof (induction rule: later.induct)
  case (same_run y)
  then show ?case by (blast intro: sys_ok_reach)
next
  case (restarted n past y now old k q r s z)
  have "inv (s_queue y)" using restarted by (simp add: sys_ok_def)
  then have "inv q" by (rule recovered_inv [OF _ restarted.hyps(2,3)])
  then show ?case using sys_ok_reach [OF restarted.hyps(4) sys_ok_start] assms(3) by blast
qed

lemma later_settled:
  assumes "later cfg ops send x n past y" and "sys_ok x" and "backoff_ok cfg"
    and "settled (view (s_queue x)) i e"
  shows "settled (view (s_queue y)) i e \<and> successes i (past @ s_log y) = successes i (s_log x)"
  using assms
proof (induction rule: later.induct)
  case (same_run y)
  then show ?case using settled_reach by simp
next
  case (restarted n past y now old k q r s z)
  have IH: "settled (view (s_queue y)) i e" "successes i (past @ s_log y) = successes i (s_log x)"
    using restarted by blast+
  have "sys_ok y" by (rule later_ok [OF restarted.hyps(1) assms(2,3)])
  then have iy: "inv (s_queue y)" by (simp add: sys_ok_def)
  have iq: "inv q" by (rule recovered_inv [OF iy restarted.hyps(2,3)])
  have "settled (view (s_queue (sys_start r q s))) i e"
    using recovered_settled [OF iy restarted.hyps(2,3) IH(1)] by (simp add: sys_start_def)
  from settled_reach [OF restarted.hyps(4) sys_ok_start [OF iq] assms(3) this] show ?case
    using IH(2) by (simp add: successes_append_logs) (simp add: sys_start_def)
qed

text \<open>Each run adds at most one success.\<close>

lemma later_successes:
  assumes "later cfg ops send x n past y" and "sys_ok x" and "backoff_ok cfg"
  shows "successes i past \<le> n \<and> successes i (past @ s_log y) \<le> Suc n"
  using assms
proof (induction rule: later.induct)
  case (same_run y)
  have "sys_ok y" by (rule sys_ok_reach [OF same_run])
  then show ?case by (simp add: sys_ok_def sent_ok_def)
next
  case (restarted n past y now old k q r s z)
  have "later cfg ops send x (Suc n) (past @ s_log y) z"
    by (rule later.restarted [OF restarted.hyps])
  then have "sys_ok z" by (rule later_ok [OF _ assms(2,3)])
  then have "successes i (s_log z) \<le> 1" by (simp add: sys_ok_def sent_ok_def)
  then show ?case using restarted.IH [OF assms(2,3)] by (simp add: successes_append_logs)
qed

end

end
