(* ===== verification/Demo.thy ===== *)
theory Demo
  imports Authentication Relay_Main Shutdown Intake Restarts
begin

text \<open>
  Concrete inputs: a configuration, a server, a session, a queue with one row and a worker, on
  which the properties are instantiated.
\<close>

definition demo_cfg :: config where
  "demo_cfg =
     (load_fields (\<lambda>_. []))
       \<lparr>SMTPMaxMessageBytes := 1000, AllowedSenderPattern := (\<lambda>a. True),
        AuthUsers := [\<lparr>Username = ''app'', Password = ''secret''\<rparr>],
        GmailClientID := ''id'', GmailClientSecret := ''cs'', GmailRefreshToken := ''rt'',
        GmailMailbox := ''me@x.org'', TLSCertFile := ''c.pem'', TLSKeyFile := ''k.pem''\<rparr>"

text \<open>An address parser that accepts what has an at sign.\<close>

definition demo_parse :: "bytes \<Rightarrow> bytes option" where
  "demo_parse a = (if CHR ''@'' \<in> set a then Some a else None)"

definition demo_deps :: "(db, unit) deps" where
  "demo_deps = \<lparr>store = sqlite_ops, aliasAuth = None, parse_addr = demo_parse\<rparr>"

text \<open>The first second of 2025.\<close>

definition demo_time :: time where
  "demo_time = 63871286400 * second"

definition demo_env :: cmd_env where
  "demo_env =
     \<lparr>t_ip = demo_time, t_user = demo_time, t_fail = demo_time, t_id = demo_time, t_msg = demo_time,
      t_enq = demo_time, rnd = Some ''abc'', handshake_ok = True\<rparr>"

definition demo_conn :: conn_env where
  "demo_conn = \<lparr>ctx_done = (\<lambda>_. False), deadline_ok = (\<lambda>_. True), env_cmd = (\<lambda>_. demo_env)\<rparr>"

definition demo_db :: db where
  "demo_db = \<lparr>rows = [], faults = []\<rparr>"

definition demo_server :: "(db, unit) server" where
  "demo_server = \<lparr>authState = Map.empty, queue = demo_db, aliases = ()\<rparr>"

definition demo_lines :: "bytes list" where
  "demo_lines = [ln ''Subject: hi'', crlf, ln ''.hello'']"

definition demo_session :: session where
  "demo_session =
     (new_session (Some ''10.0.0.1:999'') True [] (wire demo_lines end_of_data) [])
       \<lparr>greeted := True, authed := True, mailFrom := ''a@x.org'', rcptTo := [''b@y.org'']\<rparr>"

definition demo_msg :: message where
  "demo_msg =
     \<lparr>ID = ''id1'', MailFrom = ''a@x.org'', Recipients = [''b@y.org''], Data = ''hello'',
      MsgAttempts = 0, CreatedAt = demo_time, UpdatedAt = 0\<rparr>"

definition demo_row :: row where
  "demo_row =
     \<lparr>row_id = ''id1'', mail_from = ''a@x.org'', recipients_json = json_marshal [''b@y.org''],
      rfc822 = ''hello'', status = Pending, attempts = 0, next_attempt_at = RFC3339Nano demo_time,
      last_error = [], created_at = RFC3339Nano demo_time, updated_at = RFC3339Nano demo_time\<rparr>"

definition demo_queue :: db where
  "demo_queue = \<lparr>rows = [demo_row], faults = []\<rparr>"

definition demo_worker :: runner_config where
  "demo_worker = worker_config demo_cfg"

definition demo_runner :: runner where
  "demo_runner =
     \<lparr>processedCount = 0, sentCount = 0, retriedCount = 0, failedCount = 0, lastProcessedAt = 0\<rparr>"

definition demo_work_env :: work_env where
  "demo_work_env =
     \<lparr>w_claim = demo_time, w_processed = demo_time, w_next = demo_time, w_mark = demo_time\<rparr>"

text \<open>A sender that always succeeds, and one that always meets an overloaded API.\<close>

definition demo_send :: "unit sender" where
  "demo_send mfrom rcpts payload s = (None, s)"

definition busy_send :: "unit sender" where
  "busy_send mfrom rcpts payload s = (Some (classifyGoogleErr (APIError 503 ''busy'')), s)"

section \<open>They satisfy the invariants\<close>

lemma demo_times [simp]:
  "valid_time demo_time" "env_ok demo_env" "work_ok demo_worker demo_work_env"
  by (simp_all add: valid_time_def env_ok_def demo_env_def demo_time_def work_ok_def demo_work_env_def
      demo_worker_def worker_config_def demo_cfg_def load_fields_def getIntOrDefault_def dur_seconds_def wrap64_def
      trim_space_solid)

lemma demo_backoff [simp]: "backoff_ok demo_worker"
  by (simp add: backoff_ok_def demo_worker_def worker_config_def demo_cfg_def load_fields_def
      getIntOrDefault_def dur_seconds_def wrap64_def trim_space_solid)

lemma demo_db_ok [simp]: "db_ok demo_db"
  by (simp add: db_ok_def demo_db_def)

lemma demo_row_rcpts: "json_unmarshal (recipients_json demo_row) = Some [''b@y.org'']"
  unfolding demo_row_def row.select_convs by (rule json_unmarshal_marshal)

lemma demo_row_fields [simp]:
  "row_id demo_row = ''id1''" "mail_from demo_row = ''a@x.org''" "rfc822 demo_row = ''hello''"
  "status demo_row = Pending" "attempts demo_row = 0" "next_attempt_at demo_row = RFC3339Nano demo_time"
  "created_at demo_row = RFC3339Nano demo_time" "updated_at demo_row = RFC3339Nano demo_time"
  by (simp_all add: demo_row_def)

lemma demo_row_ok: "row_ok demo_row"
  by (simp add: row_ok_def RFC3339_parses demo_row_rcpts)

lemma demo_queue_ok [simp]: "db_ok demo_queue"
  by (simp add: db_ok_def demo_queue_def demo_row_ok)

lemma demo_queue_view: "db_view demo_queue = [''id1'' \<mapsto>
    \<lparr>e_from = ''a@x.org'', e_rcpts = [''b@y.org''], e_data = ''hello'', e_status = Pending, e_attempts = 0\<rparr>]"
  by (rule ext) (auto simp: db_view_def demo_queue_def entry_of_def demo_row_rcpts)

lemma demo_limits:
  "SMTPMaxMessageBytes demo_cfg = 1000" "SMTPMaxRecipients demo_cfg = 100"
  "SMTPMaxCommandsPerSession demo_cfg = 200" "QueueMaxBacklog demo_cfg = 10000"
  "SMTPAuthRateLimitPerMin demo_cfg = 60" "SMTPAuthLockoutSeconds demo_cfg = 300"
  "SMTPMaxConnections demo_cfg = 200" "AllowedSenderPattern demo_cfg = (\<lambda>a. True)"
  "AuthUsers demo_cfg = [\<lparr>Username = ''app'', Password = ''secret''\<rparr>]"
  "SMTPRequireTLS587 demo_cfg = True" "WorkerConcurrency demo_cfg = 4" "WorkerMaxAttempts demo_cfg = 8"
  by (simp_all add: demo_cfg_def load_fields_def getIntOrDefault_def getInt64OrDefault_def
      getBoolOrDefault_def trim_space_solid)

lemma demo_fields [simp]:
  "rows demo_queue = [demo_row]" "faults demo_queue = []" "w_claim demo_work_env = demo_time"
  "MaxAttempts demo_worker = 8" "Concurrency demo_worker = 4"
  by (simp_all add: demo_queue_def demo_work_env_def demo_worker_def worker_config_def demo_limits)

lemma backlog_size_empty [simp]: "backlog_size (db_view demo_db) = 0"
  by (simp add: backlog_size_def waiting_def demo_db_def db_view_def)

end
