(* ===== verification/Smtp_Properties.thy ===== *)
theory Smtp_Properties
  imports Demo
begin

text \<open>
  The properties of the SMTP server, each with an instance on the demonstration inputs: what a
  connection may do to the queue, the fate of a message, TLS and authentication, and the
  command syntax the code accepts.
\<close>

section \<open>What a connection may do\<close>



text \<open>C3. The relay is no open relay: a connection that changes the queue has been sent the reply
  235 to an AUTH command.\<close>

theorem unauthenticated_queue_unchanged:
  assumes "store dps = sqlite_ops" and "db_ok (queue w)" and "\<forall>k. env_ok (env_cmd ce k)"
    and "0 \<le> SMTPMaxMessageBytes cfg"
    and "auth_reply \<notin> set (made (fst (snd (handleConn cfg dps ce (new_session addr implicit plain enc oks) w))))"
  shows "db_view (queue (snd (snd (handleConn cfg dps ce (new_session addr implicit plain enc oks) w))))
    = db_view (queue w)"
proof -
  obtain why s' w' where h: "handleConn cfg dps ce (new_session addr implicit plain enc oks) w = (why, s', w')"
    using prod_cases3 by blast
  have "\<not> authed (new_session addr implicit plain enc oks)" by (simp add: new_session_def)
  from sqlite.handleConn_conn_ok [OF h session_ok_new this assms(1-4)] show ?thesis
    using assms(5) by (auto simp: h sqlite.conn_ok_def)
qed

lemma silent_connection:
  "handleConn demo_cfg demo_deps demo_conn (new_session None True [] [] []) demo_server
    = (StreamEnded, replied (ln (''220 '' @ SMTPHostname demo_cfg @ '' ESMTP ready'')) (new_session None True [] [] []),
       demo_server)"
proof -
  have "read_line [] = None" by (simp add: read_line_def)
  then show ?thesis
    by (simp add: handleConn_def conn_loop.simps demo_conn_def read_string_def new_session_def
        reply_error_def flush_error_def replied_def flushed_def sess_write_def)
qed

lemma unauthenticated_queue_unchanged_witness:
  "db_view (queue (snd (snd (handleConn demo_cfg demo_deps demo_conn (new_session None True [] [] []) demo_server))))
    = db_view (queue demo_server)"
proof (rule unauthenticated_queue_unchanged)
  show "auth_reply \<notin> set (made (fst (snd (handleConn demo_cfg demo_deps demo_conn
      (new_session None True [] [] []) demo_server))))"
    by (simp add: silent_connection auth_reply_def) (simp add: made_def new_session_def)
qed (simp_all add: demo_deps_def demo_server_def demo_conn_def demo_limits)



text \<open>C5. The backlog limit with connections side by side: it can be exceeded, by every connection but
  one that was admitted on the same count, and by no more.\<close>

theorem backlog_concurrent:
  assumes "intake_reach cfg dps wcfg send (intake_start r q s) x" and "store dps = sqlite_ops" and "db_ok q"
    and "backoff_ok wcfg" and "0 < SMTPMaxConnections cfg" and "backlog_size (db_view q) \<le> QueueMaxBacklog cfg"
  shows "backlog_size (db_view (s_queue (i_sys x))) + int (card (dom (receiving x)))
    \<le> QueueMaxBacklog cfg + SMTPMaxConnections cfg - 1"
proof -
  have "sqlite.intake_ok cfg x"
    by (rule sqlite.intake_ok_reach [OF assms(1) sqlite.intake_ok_start [OF assms(3,5,6)] assms(2,4,5)])
  then show ?thesis by (simp add: sqlite.intake_ok_def)
qed

definition race_cfg :: config where
  "race_cfg = demo_cfg\<lparr>QueueMaxBacklog := 1, SMTPMaxConnections := 2\<rparr>"

definition other_env :: cmd_env where
  "other_env = demo_env\<lparr>rnd := Some ''abd''\<rparr>"

lemma race_open:
  "data_open race_cfg demo_deps demo_session demo_server = Inr (replied data_prompt demo_session, demo_server)"
proof -
  have f: "faults demo_db = []" by (simp add: demo_db_def)
  have "BacklogCount demo_db = (Inr 0, demo_db)"
    using BacklogCount_succeeds [OF f demo_db_ok] by simp
  then show ?thesis
    by (simp add: data_open_def race_cfg_def demo_session_def new_session_def demo_deps_def sqlite_ops_def
        demo_server_def reply_error_def flush_error_def sess_write_def)
qed

text \<open>A message that comes in: the last part of DATA adds it under the id of its environment.\<close>

lemma race_body:
  assumes "db_ok (queue w)" and "faults (queue w) = []" and "db_view (queue w) (newMessageID env) = None"
    and "newMessageID env \<noteq> []" and "env_ok env"
  shows "\<exists>e s' w' en. data_body race_cfg demo_deps env (replied data_prompt demo_session) w = (e, s', w')
    \<and> db_ok (queue w') \<and> faults (queue w') = [] \<and> e_status en = Pending
    \<and> db_view (queue w') = (db_view (queue w))(newMessageID env \<mapsto> en)"
proof -
  let ?t = "replied data_prompt demo_session" and ?p = "concat demo_lines"
  have l: "\<forall>l\<in>set demo_lines. is_line l" by (simp add: demo_lines_def ln_def crlf_def is_line_def)
  have sz: "int (length ?p) \<le> 1000" by (simp add: demo_lines_def ln_def crlf_def)
  have "consume_loop 1000 [] 0 (wire demo_lines end_of_data @ []) = Some ([] @ ?p, 0 + int (length ?p), [])"
    using l sz by (intro consume_loop_wire) simp_all
  moreover have "rd ?t = wire demo_lines end_of_data @ []" by (simp add: demo_session_def new_session_def)
  ultimately have c: "consumeData 1000 ?t = (Some (?p, int (length ?p)), ?t\<lparr>rd := []\<rparr>)"
    by (simp add: consumeData_def)
  let ?m = "data_message env ?p (?t\<lparr>rd := []\<rparr>)"
  have m: "complete ?m" "ID ?m = newMessageID env"
    using assms(4) by (simp_all add: complete_def data_message_def demo_session_def demo_lines_def ln_def)
  obtain q where q: "Enqueue (t_enq env) ?m (queue w) = (None, q)"
    using Enqueue_succeeds [of "queue w" ?m "t_enq env"] m assms(2,3) by auto
  have f: "faults q = []"
    using q assms(2) by (auto simp: Enqueue_def db_call_def Let_def split: if_splits)
  have t: "valid_time (t_enq env)" using assms(5) by (simp add: env_ok_def)
  note law = Enqueue_law [OF assms(1) t valid_data_message [OF assms(5)] q]
  have "data_body race_cfg demo_deps env ?t w
      = (None, resetEnvelope (replied (ln ''250 queued for delivery'') (?t\<lparr>rd := []\<rparr>)), w\<lparr>queue := q\<rparr>)"
    using q sz by (simp add: data_body_def race_cfg_def demo_limits c demo_deps_def sqlite_ops_def)
  moreover have "db_ok q \<and> db_view q = (db_view (queue w))(newMessageID env \<mapsto> new_entry ?m)"
    using law m(2) by simp
  moreover have "e_status (new_entry ?m) = Pending" by (simp add: new_entry_def)
  ultimately show ?thesis using f by (intro exI conjI) (assumption, simp_all)
qed

text \<open>Two connections, a limit of one: both are admitted on the empty queue, and both messages are
  queued.\<close>

lemma race_run:
  "\<exists>x. intake_reach race_cfg demo_deps demo_worker demo_send (intake_start demo_runner demo_db ()) x
    \<and> receiving x = Map.empty \<and> backlog_size (db_view (s_queue (i_sys x))) = 2"
proof -
  let ?R = "intake_reach race_cfg demo_deps demo_worker demo_send (intake_start demo_runner demo_db ())"
  let ?t = "replied data_prompt demo_session"
  have two: "SMTPMaxConnections race_cfg = 2" by (simp add: race_cfg_def)
  let ?a = "intake_start demo_runner demo_db () :: (db, unit) intake"
  have q0: "queue demo_server = demo_db" "s_queue (i_sys ?a) = demo_db" "receiving ?a = Map.empty"
    by (simp_all add: demo_server_def intake_start_def sys_start_def)
  let ?b = "?a\<lparr>i_sys := (i_sys ?a)\<lparr>s_queue := queue demo_server\<rparr>, receiving := (receiving ?a)(0 \<mapsto> ?t)\<rparr>"
  have b: "?R ?b"
    by (rule i_next [OF i_start], rule opened [OF _ _ _ race_open]) (simp_all add: two q0)
  let ?c = "?b\<lparr>i_sys := (i_sys ?b)\<lparr>s_queue := queue demo_server\<rparr>, receiving := (receiving ?b)(1 \<mapsto> ?t)\<rparr>"
  have c: "?R ?c"
    by (rule i_next [OF b], rule opened [OF _ _ _ race_open]) (simp_all add: two q0)
  have ids: "newMessageID demo_env \<noteq> []" "newMessageID other_env \<noteq> []"
      "newMessageID demo_env \<noteq> newMessageID other_env"
    by (simp_all add: newMessageID_def demo_env_def other_env_def hex_digit_def)
  have envs: "env_ok demo_env" "env_ok other_env"
    using demo_times(2) by (simp_all add: other_env_def env_ok_def)
  have "db_view demo_db i = None" "faults demo_db = []" for i by (simp_all add: demo_db_def db_view_def)
  from race_body [of demo_server demo_env, OF _ _ _ ids(1) envs(1)] this obtain e1 s1 w1 en1 where
    w1: "data_body race_cfg demo_deps demo_env ?t demo_server = (e1, s1, w1)"
    "db_ok (queue w1)" "faults (queue w1) = []" "e_status en1 = Pending"
    "db_view (queue w1) = (db_view demo_db)(newMessageID demo_env \<mapsto> en1)"
    by (auto simp: q0)
  let ?d = "?c\<lparr>i_sys := (i_sys ?c)\<lparr>s_queue := queue w1\<rparr>, receiving := (receiving ?c)(0 := None)\<rparr>"
  have d: "?R ?d"
    by (rule i_next [OF c], rule received [OF _ envs(1) _ w1(1)]) (simp_all add: q0)
  have "db_view (queue w1) (newMessageID other_env) = None"
    using ids(3) by (simp add: w1(5)) (simp add: demo_db_def db_view_def)
  from race_body [OF w1(2,3) this ids(2) envs(2)] obtain e2 s2 w2 en2 where
    w2: "data_body race_cfg demo_deps other_env ?t w1 = (e2, s2, w2)" "e_status en2 = Pending"
    "db_view (queue w2) = (db_view (queue w1))(newMessageID other_env \<mapsto> en2)"
    by blast
  let ?e = "?d\<lparr>i_sys := (i_sys ?d)\<lparr>s_queue := queue w2\<rparr>, receiving := (receiving ?d)(1 := None)\<rparr>"
  have e: "?R ?e"
    by (rule i_next [OF d], rule received [OF _ envs(2) _ w2(1)]) (simp_all add: q0)
  have "waiting (db_view (queue w2)) = {newMessageID demo_env, newMessageID other_env}"
    using w1(4) w2(2) ids(3) by (auto simp: waiting_def w1(5) w2(3) demo_db_def db_view_def split: if_splits)
  then have "backlog_size (db_view (s_queue (i_sys ?e))) = 2" using ids(3) by (simp add: backlog_size_def)
  moreover have "receiving ?e = Map.empty" by (rule ext) (simp add: q0)
  ultimately show ?thesis using e by blast
qed

lemma backlog_concurrent_witness:
  "\<exists>x. intake_reach race_cfg demo_deps demo_worker demo_send (intake_start demo_runner demo_db ()) x
    \<and> QueueMaxBacklog race_cfg < backlog_size (db_view (s_queue (i_sys x)))
    \<and> backlog_size (db_view (s_queue (i_sys x))) + int (card (dom (receiving x)))
      \<le> QueueMaxBacklog race_cfg + SMTPMaxConnections race_cfg - 1"
proof -
  obtain x where x: "intake_reach race_cfg demo_deps demo_worker demo_send (intake_start demo_runner demo_db ()) x"
    and two: "backlog_size (db_view (s_queue (i_sys x))) = 2" using race_run by blast
  have "backlog_size (db_view (s_queue (i_sys x))) + int (card (dom (receiving x)))
      \<le> QueueMaxBacklog race_cfg + SMTPMaxConnections race_cfg - 1"
    by (rule backlog_concurrent [OF x]) (simp_all add: demo_deps_def race_cfg_def)
  moreover have "QueueMaxBacklog race_cfg < 2" by (simp add: race_cfg_def)
  ultimately show ?thesis using x two by (intro exI [of _ x]) simp
qed

text \<open>C7. A connection is a run of the abstract protocol: every command is one of its steps, from
  the initial phase on, and so the phase it ends in satisfies the protocol's invariant (an
  envelope only after a greeting and authentication, recipients only after a sender and within
  the limit, and with \<open>SMTP_REQUIRE_TLS_587\<close> authentication only inside TLS).\<close>

theorem session_refines_protocol:
  "let s = new_session addr implicit plain enc oks;
       s' = fst (snd (handleConn cfg dps ce s w))
   in smtp_reach cfg (abs_phase s) (abs_phase s') \<and> phase_ok cfg (abs_phase s')
      \<and> smtp_step cfg (fst (splitCommand raw)) (abs_phase t) (abs_phase (fst (snd (handleCommand cfg dps env raw t v))))"
proof -
  let ?s = "new_session addr implicit plain enc oks"
  obtain why s' w' where h: "handleConn cfg dps ce ?s w = (why, s', w')" using prod_cases3 by blast
  obtain e t' v' where c: "handleCommand cfg dps env raw t v = (e, t', v')" using prod_cases3 by blast
  have "phase_ok cfg (abs_phase ?s)" by (simp add: phase_ok_def abs_phase_def new_session_def)
  then show ?thesis
    using handleConn_reach [OF h] phase_ok_reach handleCommand_step [OF c] by (simp add: h c Let_def)
qed

section \<open>Messages\<close>



lemma demo_ready:
  "ready_for demo_cfg (newMessageID demo_env) (queue demo_server)" "ready_to_send demo_session"
  "newMessageID demo_env \<noteq> []"
  by (simp_all add: ready_for_def demo_server_def demo_limits ready_to_send_def demo_session_def new_session_def
      newMessageID_def demo_env_def)
    (simp_all add: demo_db_def db_view_def)

lemma demo_wire: "well_formed demo_lines end_of_data"
proof -
  have "\<forall>l\<in>set demo_lines. is_line l" by (simp add: demo_lines_def ln_def crlf_def is_line_def)
  then show ?thesis by (simp add: well_formed_def)
qed

text \<open>C21. A message over the size limit is refused with 552 and nothing is queued; the envelope
  is reset, and the bytes after its end mark are read as the next command.\<close>

theorem oversized_message:
  assumes "store dps = sqlite_ops" and "ready_for cfg i (queue w)" and "ready_to_send s"
    and "rd s = wire ls e @ rest" and "well_formed ls e"
    and "0 \<le> SMTPMaxMessageBytes cfg" and "SMTPMaxMessageBytes cfg < int (length (concat ls))"
  shows "\<exists>s'. cmd_data cfg dps env s w = (None, s', w) \<and> rd s' = rest \<and> mailFrom s' = [] \<and> rcptTo s' = []
    \<and> out s' = out s @ wbuf s @ [data_prompt, ln ''552 message size exceeds fixed maximum message size'']"
  using assms by (rule cmd_data_oversized)

lemma oversized_message_witness:
  "\<exists>s'. cmd_data (demo_cfg\<lparr>SMTPMaxMessageBytes := 5\<rparr>) demo_deps demo_env demo_session demo_server
      = (None, s', demo_server) \<and> rd s' = [] \<and> mailFrom s' = [] \<and> rcptTo s' = []
    \<and> out s' = out demo_session @ wbuf demo_session
        @ [data_prompt, ln ''552 message size exceeds fixed maximum message size'']"
proof (rule oversized_message)
  show "ready_for (demo_cfg\<lparr>SMTPMaxMessageBytes := 5\<rparr>) [] (queue demo_server)"
    by (simp add: ready_for_def demo_server_def demo_limits) (simp add: demo_db_def db_view_def)
  show "rd demo_session = wire demo_lines end_of_data @ []"
    by (simp add: demo_session_def new_session_def)
  show "well_formed demo_lines end_of_data" by (rule demo_wire)
  show "ready_to_send demo_session" by (rule demo_ready)
  show "SMTPMaxMessageBytes (demo_cfg\<lparr>SMTPMaxMessageBytes := 5\<rparr>) < int (length (concat demo_lines))"
    by (simp add: demo_lines_def ln_def crlf_def)
qed (simp_all add: demo_deps_def)

text \<open>C22. A message without a single line is refused with a transient error, and the session
  keeps its envelope, although no retry can succeed.\<close>

theorem empty_message:
  assumes "store dps = sqlite_ops" and "ready_for cfg i (queue w)" and "ready_to_send s"
    and "rd s = e @ rest" and "is_line e" and "is_dot e" and "newMessageID env \<noteq> []" and "0 \<le> SMTPMaxMessageBytes cfg"
  shows "\<exists>s'. cmd_data cfg dps env s w = (None, s', w) \<and> rd s' = rest
    \<and> mailFrom s' = mailFrom s \<and> rcptTo s' = rcptTo s
    \<and> out s' = out s @ wbuf s @ [data_prompt, ln ''451 transient local error'']"
  using assms by (rule cmd_data_empty)

lemma empty_message_witness:
  "\<exists>s'. cmd_data demo_cfg demo_deps demo_env (demo_session\<lparr>rd := end_of_data\<rparr>) demo_server = (None, s', demo_server)
    \<and> rd s' = [] \<and> mailFrom s' = mailFrom (demo_session\<lparr>rd := end_of_data\<rparr>)
    \<and> rcptTo s' = rcptTo (demo_session\<lparr>rd := end_of_data\<rparr>)
    \<and> out s' = out (demo_session\<lparr>rd := end_of_data\<rparr>) @ wbuf (demo_session\<lparr>rd := end_of_data\<rparr>)
        @ [data_prompt, ln ''451 transient local error'']"
proof (rule empty_message)
  show "ready_for demo_cfg (newMessageID demo_env) (queue demo_server)" by (rule demo_ready)
  show "ready_to_send (demo_session\<lparr>rd := end_of_data\<rparr>)" using demo_ready(2) by (simp add: ready_to_send_def)
  show "newMessageID demo_env \<noteq> []" by (rule demo_ready)
  show "rd (demo_session\<lparr>rd := end_of_data\<rparr>) = end_of_data @ []" by simp
qed (simp_all add: demo_deps_def demo_limits)

text \<open>C2. A client that greets, authenticates with valid credentials, names an admitted sender and
  valid recipients and sends a dot-stuffed message within the limit gets it queued: the queue
  has exactly that message, with its exact bytes, and the last replies are 354, 250 and 221.\<close>

theorem conversation_delivers:
  assumes "server_ready cfg dps ce user pass from (length rcpts)
      (new_session addr True plain (conversation host user pass from rcpts ls e) []) w"
    and "message_fits cfg dps host user pass from rcpts ls e"
  shows "\<exists>s' w'. handleConn cfg dps ce (new_session addr True plain (conversation host user pass from rcpts ls e) []) w
      = (CommandFailed QuitEOF, s', w')
    \<and> suffix [data_prompt, queued_reply, ln ''221 bye''] (out s')
    \<and> db_view (queue w') = (db_view (queue w))(newMessageID (env_cmd ce (4 + int (length rcpts)))
        \<mapsto> \<lparr>e_from = from, e_rcpts = rcpts, e_data = concat ls, e_status = Pending, e_attempts = 0\<rparr>)"
  by (rule conversation_queues [OF assms refl])

lemma conversation_delivers_witness:
  "\<exists>s' w'. handleConn demo_cfg demo_deps demo_conn (new_session (Some ''10.0.0.1:999'') True []
        (conversation ''client'' ''app'' ''secret'' ''a@x.org'' [''b@y.org'', ''c@y.org''] demo_lines end_of_data) [])
      demo_server = (CommandFailed QuitEOF, s', w')
    \<and> suffix [data_prompt, queued_reply, ln ''221 bye''] (out s')
    \<and> db_view (queue w') = (db_view (queue demo_server))
        (newMessageID (env_cmd demo_conn (4 + int (length [''b@y.org'', ''c@y.org''])))
          \<mapsto> \<lparr>e_from = ''a@x.org'', e_rcpts = [''b@y.org'', ''c@y.org''], e_data = concat demo_lines,
              e_status = Pending, e_attempts = 0\<rparr>)"
proof (rule conversation_delivers)
  show "message_fits demo_cfg demo_deps ''client'' ''app'' ''secret'' ''a@x.org'' [''b@y.org'', ''c@y.org'']
      demo_lines end_of_data"
    using demo_wire
    by (simp add: message_fits_def printable_solid plain_addr_def good_rcpt_def demo_limits isValidAddress_def
        demo_deps_def demo_parse_def demo_lines_def ln_def crlf_def)
  show "server_ready demo_cfg demo_deps demo_conn ''app'' ''secret'' ''a@x.org'' (length [''b@y.org'', ''c@y.org''])
      (new_session (Some ''10.0.0.1:999'') True []
        (conversation ''client'' ''app'' ''secret'' ''a@x.org'' [''b@y.org'', ''c@y.org''] demo_lines end_of_data) [])
      demo_server"
    using demo_ready
    by (simp add: server_ready_def undisturbed_def demo_conn_def demo_limits ValidateCredentials_def
        authBlocked_def may_send_def isValidAddress_def)
      (simp add: demo_deps_def demo_server_def demo_parse_def)
qed

section \<open>TLS and authentication\<close>




text \<open>C16. AUTH PLAIN with an initial response decodes it to the user and the password the client
  meant, and then: 454 if the user is locked out, 235 and an authenticated session with the
  user's failures forgotten if the credentials are in the list, and otherwise 535 with one more
  failure for the session, the user and the address.\<close>

theorem auth_plain_verdict:
  assumes "NUL \<notin> set u" and "NUL \<notin> set p"
  shows "handleAuth cfg env (''PLAIN '' @ plain_response u p) s w =
    (case authBlocked (authState w) (user_key u) (t_user env) of
       (True, wait) \<Rightarrow> answer (blocked_text wait) s w
     | (False, _) \<Rightarrow>
         if \<exists>x\<in>set (AuthUsers cfg). Username x = u \<and> Password x = p then
           answer ''235 authentication successful'' (s\<lparr>authFailures := 0, authed := True\<rparr>)
             (w\<lparr>authState := (authState w)(user_key u := None)\<rparr>)
         else
           answer ''535 authentication failed'' (s\<lparr>authFailures := authFailures s + 1\<rparr>)
             (w\<lparr>authState := recordAuthFailure cfg (authState w) u (remoteIP s) (t_fail env)\<rparr>))"
  unfolding handleAuth_plain [OF assms] auth_check_def
  by (auto simp: ValidateCredentials_iff clearAuthState_def split: prod.splits bool.splits)

lemma auth_plain_verdict_witness:
  "handleAuth demo_cfg demo_env (''PLAIN '' @ plain_response ''app'' ''wrong'') demo_session demo_server =
    (case authBlocked (authState demo_server) (user_key ''app'') (t_user demo_env) of
       (True, wait) \<Rightarrow> answer (blocked_text wait) demo_session demo_server
     | (False, _) \<Rightarrow>
         if \<exists>x\<in>set (AuthUsers demo_cfg). Username x = ''app'' \<and> Password x = ''wrong'' then
           answer ''235 authentication successful'' (demo_session\<lparr>authFailures := 0, authed := True\<rparr>)
             (demo_server\<lparr>authState := (authState demo_server)(user_key ''app'' := None)\<rparr>)
         else
           answer ''535 authentication failed'' (demo_session\<lparr>authFailures := authFailures demo_session + 1\<rparr>)
             (demo_server\<lparr>authState := recordAuthFailure demo_cfg (authState demo_server) ''app''
                (remoteIP demo_session) (t_fail demo_env)\<rparr>))"
  by (rule auth_plain_verdict) simp_all

text \<open>C17. AUTH LOGIN asks for the two lines with the prompts clients expect and reaches the same
  verdict as AUTH PLAIN with the same credentials.\<close>

theorem auth_login_same_verdict:
  assumes "clean s" and "rd s = ln (std_encode u) @ ln (std_encode p) @ rest"
    and "NUL \<notin> set u" and "NUL \<notin> set p"
  shows "handleAuth cfg env ''LOGIN'' s w
    = handleAuth cfg env (''PLAIN '' @ plain_response u p)
        (s\<lparr>rd := rest, out := out s @ [ln ''334 VXNlcm5hbWU6'', ln ''334 UGFzc3dvcmQ6'']\<rparr>) w"
proof -
  have "str_fields ''LOGIN'' = [''LOGIN'']"
    by (rule fields_solid) (simp_all add: printable_solid)
  then have "handleAuth cfg env ''LOGIN'' s w = auth_login cfg env s w"
    by (simp add: handleAuth_def to_upper_ascii up_char_def)
  then show ?thesis
    unfolding handleAuth_plain [OF assms(3,4)] using auth_login_dialogue [OF assms(1,2)] by simp
qed

lemma auth_login_same_verdict_witness:
  "handleAuth demo_cfg demo_env ''LOGIN''
      (demo_session\<lparr>rd := ln (std_encode ''app'') @ ln (std_encode ''secret'') @ ln ''NOOP''\<rparr>) demo_server
    = handleAuth demo_cfg demo_env (''PLAIN '' @ plain_response ''app'' ''secret'')
        (demo_session\<lparr>rd := ln (std_encode ''app'') @ ln (std_encode ''secret'') @ ln ''NOOP'',
           rd := ln ''NOOP'',
           out := out (demo_session\<lparr>rd := ln (std_encode ''app'') @ ln (std_encode ''secret'') @ ln ''NOOP''\<rparr>)
             @ [ln ''334 VXNlcm5hbWU6'', ln ''334 UGFzc3dvcmQ6'']\<rparr>) demo_server"
  by (rule auth_login_same_verdict) (simp_all add: clean_def demo_session_def new_session_def)



text \<open>C19. A user name or an address is locked out by the failure that brings its count within a
  minute to the configured limit, for the configured time from that failure, and not by fewer
  failures.\<close>

theorem lockout_after_limit:
  assumes "m k = None" and "in_window t0 (t0 # ts @ [t])"
    and "int (length (t0 # ts @ [t])) = SMTPAuthRateLimitPerMin cfg"
  shows "(\<forall>now. fst (authBlocked (failing (recordAuthFailureKey cfg) m (map (Pair k) (t0 # ts @ [t]))) k now)
            \<longleftrightarrow> now < t + dur_seconds (SMTPAuthLockoutSeconds cfg))
    \<and> (\<forall>now. 0 \<le> now \<longrightarrow> \<not> fst (authBlocked (failing (recordAuthFailureKey cfg) m (map (Pair k) (t0 # ts))) k now))"
proof -
  have "in_window t0 (t0 # ts)" "int (length (t0 # ts)) < SMTPAuthRateLimitPerMin cfg"
    using assms(2,3) by (simp_all add: in_window_def)
  from fails_counting [of m k t0 ts cfg, OF assms(1) this] obtain st where
    "failing (recordAuthFailureKey cfg) m (map (Pair k) (t0 # ts)) k = Some st" "LockedUntil st = 0"
    by (auto simp: counting_def)
  then have "\<forall>now. 0 \<le> now \<longrightarrow> \<not> fst (authBlocked (failing (recordAuthFailureKey cfg) m (map (Pair k) (t0 # ts))) k now)"
    unfolding fst_authBlocked by simp
  then show ?thesis
    using fails_lock [of m k t0 ts t cfg, OF assms] unfolding fst_authBlocked by force
qed

text \<open>With a limit of three, the failures at 10, 20 and 30 lock the name at 31, the first two do not.\<close>

lemma lockout_after_limit_witness:
  "fst (authBlocked (failing (recordAuthFailureKey (demo_cfg\<lparr>SMTPAuthRateLimitPerMin := 3\<rparr>)) Map.empty
        (map (Pair (user_key ''app'')) (10 # [20] @ [30]))) (user_key ''app'') 31)
    \<and> \<not> fst (authBlocked (failing (recordAuthFailureKey (demo_cfg\<lparr>SMTPAuthRateLimitPerMin := 3\<rparr>)) Map.empty
        (map (Pair (user_key ''app'')) (10 # [20]))) (user_key ''app'') 31)"
proof -
  let ?cfg = "demo_cfg\<lparr>SMTPAuthRateLimitPerMin := 3\<rparr>"
  have "in_window 10 (10 # [20] @ [30])" "int (length (10 # [20] @ [30 :: time])) = SMTPAuthRateLimitPerMin ?cfg"
    by (simp_all add: in_window_def)
  note l = lockout_after_limit [of Map.empty "user_key ''app''", OF refl this]
  have "31 < 30 + dur_seconds (SMTPAuthLockoutSeconds ?cfg)" by (simp add: demo_limits dur_seconds_exact)
  then show ?thesis using l by auto
qed

text \<open>C20. A lockout is kept: whatever failures are recorded before a time at which a key is locked,
  for that key or for others, it is still locked at that time, and an unlocked key is not
  affected by the failures of others.\<close>

theorem lockout_is_kept:
  "(fst (authBlocked m k t) \<longrightarrow> (\<forall>e\<in>set es. snd e \<le> t) \<longrightarrow> fst (authBlocked (failing (recordAuthFailureKey cfg) m es) k t))
    \<and> ((\<forall>e\<in>set es. fst e \<noteq> k) \<longrightarrow> fst (authBlocked (failing (recordAuthFailureKey cfg) m es) k t) = fst (authBlocked m k t))"
  using limiter.lock_holds limiter.fails_other by blast

definition locked_state :: auth_state where
  "locked_state = [user_key ''app'' \<mapsto> \<lparr>WindowStart = 1, Attempts = 0, LockedUntil = 100\<rparr>]"

lemma lockout_is_kept_witness:
  "fst (authBlocked (failing (recordAuthFailureKey demo_cfg) locked_state [(user_key ''app'', 60), (ip_key ''h'', 70)])
    (user_key ''app'') 99)"
  by (rule lockout_is_kept [THEN conjunct1, rule_format])
    (auto simp: authBlocked_def locked_state_def Let_def)

section \<open>Commands\<close>







text \<open>What follows the closing bracket of an address is ignored: MAIL and RCPT with any
  parameters (SIZE, BODY, SMTPUTF8, or unknown ones) do what they do without them.\<close>

lemma address_parameters_ignored:
  assumes "CHR ''>'' \<notin> set a" and "params = [] \<or> solid (last params)"
  shows "cmd_mail cfg dps (''FROM:<'' @ a @ ''>'' @ params) s w = cmd_mail cfg dps (''FROM:<'' @ a @ ''>'') s w
    \<and> cmd_rcpt cfg dps (''TO:<'' @ a @ ''>'' @ params) s w = cmd_rcpt cfg dps (''TO:<'' @ a @ ''>'') s w"
  using upper_from [of "CHR ''<'' # a @ ''>'' @ params"] upper_from [of "CHR ''<'' # a @ ''>''"]
    upper_to [of "CHR ''<'' # a @ ''>'' @ params"] upper_to [of "CHR ''<'' # a @ ''>''"]
    extractAddress_bracket [of "''FROM:''" 5 a params] extractAddress_bracket [of "''FROM:''" 5 a "[]"]
    extractAddress_bracket [of "''TO:''" 3 a params] extractAddress_bracket [of "''TO:''" 3 a "[]"] assms
  by (simp add: cmd_mail_def cmd_rcpt_def)

text \<open>A message also ends at a dot that is followed by a bare line feed, or by any carriage returns
  and a line feed, and not only at the sequence the reply 354 names.\<close>

lemma lenient_end_of_data:
  assumes "\<forall>l\<in>set ls. is_line l" and "set w \<subseteq> {CR}" and "int (length (concat ls)) \<le> n"
  shows "consume_loop n [] 0 (concat (map stuff ls) @ CHR ''.'' # w @ LF # rest)
    = Some (concat ls, int (length (concat ls)), rest)"
proof -
  let ?e = "CHR ''.'' # w @ [LF]"
  have "LF \<notin> set w" using assms(2) by auto
  then have "is_line ?e" by (auto simp: is_line_def)
  moreover have "is_dot ?e" unfolding is_dot_iff using assms(2) by (intro exI [of _ "w @ [LF]"]) auto
  ultimately show ?thesis
    using consume_loop_wire [of ls ?e 0 n "[]" rest] assms(1,3) by (simp add: wire_def)
qed

section \<open>The length of a session\<close>



end
