(* ===== verification/Delivery_Properties.thy ===== *)
theory Delivery_Properties
  imports Demo
begin

text \<open>
  The properties of the delivery worker and of several workers on one queue, each with an
  instance on the demonstration inputs.
\<close>

section \<open>Delivery\<close>

text \<open>C8. However many workers run, however their claims, sends and store calls interleave with each
  other and with incoming mail, and whichever store calls fail: in one run of the process every
  queued message is accepted by the mail service at most once, and never offered to it again
  after that.\<close>

theorem at_most_one_success:
  assumes "reach cfg sqlite_ops send (sys_start r q s) x" and "db_ok q" and "backoff_ok cfg"
  shows "successes i (s_log x) \<le> 1
    \<and> (successes i (s_log x) = 1 \<longrightarrow> (\<forall>w m. s_phase x w = Holding m \<longrightarrow> ID m \<noteq> i))"
proof -
  have "sqlite.sys_ok x" by (rule sqlite.sys_ok_reach [OF assms(1) sqlite.sys_ok_start [OF assms(2)] assms(3)])
  then have st: "sent_ok (db_view (s_queue x)) (s_phase x) (s_log x)" by (simp add: sqlite.sys_ok_def)
  have "ID m \<noteq> i" if "successes i (s_log x) = 1" "s_phase x w = Holding m" for w m
  proof
    assume "ID m = i"
    moreover have "held (s_phase x w) = Some m" using that(2) by simp
    ultimately have "s_phase x w = Delivered m None" using st that(1) unfolding sent_ok_def by blast
    with that(2) show False by simp
  qed
  moreover have "successes i (s_log x) \<le> 1" using st by (simp add: sent_ok_def)
  ultimately show ?thesis by blast
qed

text \<open>C9. Two workers never have the same message, and a message a worker has is in processing.\<close>

theorem exclusive_claims:
  assumes "reach cfg sqlite_ops send (sys_start r q s) x" and "db_ok q" and "backoff_ok cfg"
    and "held (s_phase x w) = Some m"
  shows "(\<exists>e. db_view (s_queue x) (ID m) = Some e \<and> e_status e = Processing)
    \<and> (\<forall>w' m'. held (s_phase x w') = Some m' \<longrightarrow> ID m' = ID m \<longrightarrow> w' = w)"
proof -
  have "sqlite.sys_ok x" by (rule sqlite.sys_ok_reach [OF assms(1) sqlite.sys_ok_start [OF assms(2)] assms(3)])
  then have h: "holders_ok (db_view (s_queue x)) (s_phase x)" by (simp add: sqlite.sys_ok_def)
  then have "being_processed (db_view (s_queue x)) (ID m)" using assms(4) unfolding holders_ok_def by blast
  moreover have "w' = w" if "held (s_phase x w') = Some m'" "ID m' = ID m" for w' m'
    using h that assms(4) unfolding holders_ok_def by metis
  ultimately show ?thesis unfolding being_processed_def by blast
qed

text \<open>A run of the demonstration process on a table with one due row: claim and send.\<close>

lemma demo_delivery:
  assumes "db_ok q" and "faults q = []" and "rows q = [r0]" and "row_id r0 = ''id1''" and "due now r0" and "valid_time now"
  shows "\<exists>x. reach demo_worker sqlite_ops demo_send (sys_start demo_runner q ()) x
    \<and> faults (s_queue x) = [] \<and> rows (s_queue x) = claim_row now ''id1'' [r0]
    \<and> s_log x = [(''id1'', None)] \<and> (\<exists>m. s_phase x 0 = Delivered m None \<and> ID m = ''id1'')"
proof -
  obtain m d where c: "ClaimNextPending now q = (Inr (Some m), d)" and f: "faults d = []"
    using claim_progress [OF assms(1,2) _ assms(5)] assms(3) by auto
  obtain p m0 where p: "next_due now (rows q) = Some p" and sc: "scan_row p = Inr m0"
    and m: "m = m0\<lparr>MsgAttempts := MsgAttempts m0 + 1, UpdatedAt := now\<rparr>" and r: "rows d = claim_row now (row_id p) (rows q)"
    using ClaimNextPending_rows [OF c] by auto
  have p0: "p = r0" using next_due_Some [OF p] assms(3) by simp
  have i: "ID m = ''id1''" using scan_row_Inr [OF sc] p0 assms(4) by (simp add: m)
  let ?a = "sys_start demo_runner q () :: (db, unit) sys"
  let ?b = "?a\<lparr>s_queue := d, s_phase := (case (Inr (Some m) :: store_error + message option) of Inr (Some m) \<Rightarrow> (s_phase ?a)(0 := Holding m) | _ \<Rightarrow> s_phase ?a)\<rparr>"
  have "sys_step demo_worker sqlite_ops demo_send ?a ?b"
    by (rule sys_step.work [OF worker_step.claim [where now = now]]) (simp_all add: sys_start_def sqlite_ops_def c assms(6))
  then have b: "reach demo_worker sqlite_ops demo_send ?a ?b" by (rule reach.step [OF reach.start])
  let ?c = "?b\<lparr>s_sender := (), s_phase := (s_phase ?b)(0 := Delivered m None), s_log := s_log ?b @ [(ID m, None)]\<rparr>"
  have "sys_step demo_worker sqlite_ops demo_send ?b ?c"
    by (rule sys_step.work [OF worker_step.transmit]) (simp_all add: demo_send_def)
  then have "reach demo_worker sqlite_ops demo_send ?a ?c" by (rule reach.step [OF b])
  moreover have "faults (s_queue ?c) = [] \<and> rows (s_queue ?c) = claim_row now ''id1'' [r0]"
    using f r by (simp add: p0 assms(3,4))
  moreover have "s_log ?c = [(''id1'', None)]" by (simp add: i) (simp add: sys_start_def)
  moreover have "s_phase ?c 0 = Delivered m None" by simp
  ultimately show ?thesis using i by blast
qed

lemma demo_run:
  "\<exists>x m. reach demo_worker sqlite_ops demo_send (sys_start demo_runner demo_queue ()) x
    \<and> s_phase x 0 = Delivered m None \<and> ID m = ''id1'' \<and> successes ''id1'' (s_log x) = 1"
  using demo_delivery [of demo_queue demo_row demo_time] by (fastforce simp: due_def successes_def)

lemma at_most_one_success_witness:
  "\<exists>x. successes ''id1'' (s_log (x :: (db, unit) sys)) \<le> 1
    \<and> (successes ''id1'' (s_log x) = 1 \<longrightarrow> (\<forall>w m. s_phase x w = Holding m \<longrightarrow> ID m \<noteq> ''id1''))
    \<and> successes ''id1'' (s_log x) = 1"
proof -
  obtain x where x: "reach demo_worker sqlite_ops demo_send (sys_start demo_runner demo_queue ()) x"
    and s: "successes ''id1'' (s_log x) = 1" using demo_run by blast
  show ?thesis
    by (rule exI [of _ x]) (use at_most_one_success [OF x demo_queue_ok demo_backoff, of "''id1''"] s in simp)
qed

lemma exclusive_claims_witness:
  "\<exists>x m. held (s_phase (x :: (db, unit) sys) 0) = Some m
    \<and> (\<exists>e. db_view (s_queue x) (ID m) = Some e \<and> e_status e = Processing)
    \<and> (\<forall>w' m'. held (s_phase x w') = Some m' \<longrightarrow> ID m' = ID m \<longrightarrow> w' = 0)"
proof -
  obtain x m where x: "reach demo_worker sqlite_ops demo_send (sys_start demo_runner demo_queue ()) x"
    and "s_phase x 0 = Delivered m None" using demo_run by blast
  then have h: "held (s_phase x 0) = Some m" by simp
  show ?thesis using h exclusive_claims [OF x demo_queue_ok demo_backoff h] by blast
qed

text \<open>C10. A message marked as sent or failed is settled: in no later state of this run or of any run
  after it is its entry changed or is it sent again.\<close>

theorem settled_is_final:
  assumes "reach cfg sqlite_ops send (sys_start r q s) x" and "db_ok q" and "backoff_ok cfg"
    and "later cfg sqlite_ops send x n past y"
    and "db_view (s_queue x) i = Some e" and "e_status e \<in> {Sent, Failed}"
  shows "db_view (s_queue y) i = Some e \<and> successes i (past @ s_log y) = successes i (s_log x)"
proof -
  have "sqlite.sys_ok x" by (rule sqlite.sys_ok_reach [OF assms(1) sqlite.sys_ok_start [OF assms(2)] assms(3)])
  moreover have "settled (db_view (s_queue x)) i e" using assms(5,6) by (auto simp: settled_def)
  ultimately have "settled (db_view (s_queue y)) i e \<and> successes i (past @ s_log y) = successes i (s_log x)"
    by (rule sqlite.later_settled [OF assms(4) _ assms(3)])
  then show ?thesis by (simp add: settled_def)
qed

text \<open>C11. At most one success per run: with \<open>n\<close> restarts a message is sent at most \<open>n + 1\<close> times.\<close>

theorem resends_bounded:
  assumes "later cfg sqlite_ops send (sys_start r q s) n past y" and "db_ok q" and "backoff_ok cfg"
  shows "successes i (past @ s_log y) \<le> n + 1"
  using sqlite.later_successes [OF assms(1) sqlite.sys_ok_start [OF assms(2)] assms(3)] by simp

text \<open>The process ends after the message was sent and before it is marked; the next one releases the
  row and sends the message again.\<close>

lemma resends_bounded_witness:
  "\<exists>past y. later demo_worker sqlite_ops demo_send (sys_start demo_runner demo_queue ()) 1 past y
    \<and> successes ''id1'' (past @ s_log y) \<le> 1 + 1 \<and> successes ''id1'' (past @ s_log y) = 2"
proof -
  let ?t = "demo_time + second"
  have v: "valid_time ?t" by (simp add: valid_time_def demo_time_def)
  have lt: "RFC3339Nano demo_time < RFC3339Nano ?t"
    by (rule RFC3339Nano_mono_seconds) (simp_all add: v)
  obtain x where x: "reach demo_worker sqlite_ops demo_send (sys_start demo_runner demo_queue ()) x"
    and fx: "faults (s_queue x) = []" and rx: "rows (s_queue x) = claim_row demo_time ''id1'' [demo_row]"
    and lx: "s_log x = [(''id1'', None)]"
    using demo_delivery [of demo_queue demo_row demo_time] by (auto simp: due_def)
  have okx: "db_ok (s_queue x)"
    using sqlite.sys_ok_reach [OF x sqlite.sys_ok_start [OF demo_queue_ok] demo_backoff] by (simp add: sqlite.sys_ok_def)
  obtain k q where rec: "RecoverStuckProcessing ?t ?t (s_queue x) = (Inr k, q)" and fq: "faults q = []"
    using fx by (simp add: RecoverStuckProcessing_def exec_update_def db_call_def)
  define r1 where "r1 = demo_row\<lparr>attempts := 1, next_attempt_at := RFC3339Nano ?t, updated_at := RFC3339Nano ?t,
    last_error := stale_error\<rparr>"
  have rq: "rows q = [r1]"
    using rec fx rx lt
    by (auto simp: RecoverStuckProcessing_def exec_update_def db_call_def claim_row_def update_where_def r1_def demo_row_def)
  have rec': "op_RecoverStuckProcessing sqlite_ops ?t ?t (s_queue x) = (Inr k, q)" by (simp add: sqlite_ops_def rec)
  have okq: "db_ok q" by (rule sqlite.recovered_inv [OF okx v rec'])
  obtain y where y: "reach demo_worker sqlite_ops demo_send (sys_start demo_runner q ()) y"
    and ly: "s_log y = [(''id1'', None)]"
    using demo_delivery [OF okq fq rq _ _ v] by (auto simp: r1_def due_def)
  have "later demo_worker sqlite_ops demo_send (sys_start demo_runner demo_queue ()) (Suc 0) ([] @ s_log x) y"
    by (rule later.restarted [OF later.same_run [OF x] v rec' y])
  then have l: "later demo_worker sqlite_ops demo_send (sys_start demo_runner demo_queue ()) 1 (s_log x) y" by simp
  have "successes ''id1'' (s_log x @ s_log y) = 2" by (simp add: lx ly successes_def)
  then show ?thesis using l resends_bounded [OF l demo_queue_ok demo_backoff, of "''id1''"] by blast
qed

definition sent_queue :: db where
  "sent_queue = \<lparr>rows = [demo_row\<lparr>status := Sent\<rparr>], faults = []\<rparr>"

lemma settled_is_final_witness:
  "\<exists>y e. later demo_worker sqlite_ops demo_send (sys_start demo_runner sent_queue ()) 1 [] y
    \<and> e_status e = Sent \<and> db_view (s_queue y) ''id1'' = Some e \<and> successes ''id1'' ([] @ s_log y) = 0"
proof -
  let ?x = "sys_start demo_runner sent_queue () :: (db, unit) sys" and ?e = "entry_of (demo_row\<lparr>status := Sent\<rparr>)"
  have ok: "db_ok sent_queue" using demo_row_ok by (simp add: db_ok_def sent_queue_def row_ok_def)
  have x: "reach demo_worker sqlite_ops demo_send ?x ?x" by (rule reach.start)
  have "op_RecoverStuckProcessing sqlite_ops demo_time demo_time (s_queue ?x) = (Inr 0, sent_queue)"
    by (simp add: sys_start_def sqlite_ops_def RecoverStuckProcessing_def exec_update_def db_call_def sent_queue_def
        update_where_def count_where_def)
  from later.restarted [OF later.same_run [OF x] demo_times(1) this x]
  have l: "later demo_worker sqlite_ops demo_send ?x 1 [] ?x" by (simp add: sys_start_def)
  have v: "db_view (s_queue ?x) ''id1'' = Some ?e" and e: "e_status ?e = Sent"
    by (simp_all add: sys_start_def db_view_def sent_queue_def entry_of_def)
  have "db_view (s_queue ?x) ''id1'' = Some ?e \<and> successes ''id1'' ([] @ s_log ?x) = successes ''id1'' (s_log ?x)"
    by (rule settled_is_final [OF x ok demo_backoff l v]) (simp add: e)
  then show ?thesis using l e by (intro exI [of _ ?x] exI [of _ ?e]) (simp add: sys_start_def)
qed

text \<open>A row an earlier process left in processing and start-up did not recover stays there:
  nothing the process does, for as long as it runs, sends it, retries it or fails it.\<close>

theorem stuck_rows_stay:
  assumes "reach cfg sqlite_ops send (sys_start r q s) x" and "db_ok q" and "backoff_ok cfg"
    and "db_view q i = Some e" and "e_status e = Processing"
  shows "db_view (s_queue x) i = Some e"
proof -
  have "sqlite.orphan (sys_start r q s) i e"
    using assms(4,5) by (simp add: sqlite.orphan_def sys_start_def)
  from sqlite.orphan_reach [OF assms(1) sqlite.sys_ok_start [OF assms(2)] assms(3) this]
  show ?thesis by (simp add: sqlite.orphan_def)
qed

definition stuck_queue :: db where
  "stuck_queue = \<lparr>rows = [demo_row\<lparr>status := Processing\<rparr>], faults = []\<rparr>"

lemma stuck_rows_stay_witness:
  "\<exists>e. e_status e = Processing \<and> db_view (s_queue (sys_start demo_runner stuck_queue ())) ''id1'' = Some e"
proof -
  let ?e = "entry_of (demo_row\<lparr>status := Processing\<rparr>)"
  have ok: "db_ok stuck_queue" using demo_row_ok by (simp add: db_ok_def stuck_queue_def row_ok_def)
  have v: "db_view stuck_queue ''id1'' = Some ?e" by (simp add: db_view_def stuck_queue_def)
  have p: "e_status ?e = Processing" by (simp add: entry_of_def)
  have "db_view (s_queue (sys_start demo_runner stuck_queue ())) ''id1'' = Some ?e"
    by (rule stuck_rows_stay [where send = demo_send, OF reach.start ok demo_backoff v p])
  with p show ?thesis by blast
qed

text \<open>C12. One call of \<open>processOne\<close> on the table is the abstract delivery step: nothing, or one waiting
  message is claimed, exactly its envelope and body are handed to the sender, and it becomes
  sent, failed (attempts used up, or a permanent error) or waiting again. If the final store
  call fails it stays in processing. The counters keep adding up: processed messages are those
  sent, retried and failed.\<close>

theorem delivery_refines:
  assumes "db_ok q" and "backoff_ok cfg" and "work_ok cfg env" and "counters_ok r"
  shows "let (err, r', q', s') = processOne cfg sqlite_ops send env (r, q, s)
    in db_ok q' \<and> delivery_step cfg send err (db_view q) s (db_view q') s' \<and> counters_ok r'"
proof -
  obtain err r' q' s' where p: "processOne cfg sqlite_ops send env (r, q, s) = (err, r', q', s')"
    by (metis prod_cases4)
  show ?thesis using sqlite.processOne_law [OF p assms(1-3)] processOne_counters [OF p assms(4)] by (simp add: p)
qed

lemma delivery_refines_witness:
  "let (err, r', q', s') = processOne demo_worker sqlite_ops busy_send demo_work_env (demo_runner, demo_queue, ())
    in db_ok q' \<and> delivery_step demo_worker busy_send err (db_view demo_queue) () (db_view q') s' \<and> counters_ok r'"
  by (rule delivery_refines) (simp_all add: counters_ok_def demo_runner_def)



text \<open>C14. With a working store and a sender that succeeds, a worker that gets as many ticks as
  messages wait delivers every one of them, each once.\<close>

theorem queue_drains:
  assumes "db_ok q" and "faults q = []" and "backoff_ok cfg"
    and "\<forall>env\<in>set envs. work_ok cfg env \<and> all_due (w_claim env) q"
    and "\<forall>f rs d s. fst (send f rs d s) = None"
    and "card (pending_ids (db_view q)) \<le> length envs"
  shows "db_view (fst (snd (run_ticks cfg sqlite_ops send envs (r, q, s)))) = sent_all (db_view q)
    \<and> pending_ids (db_view (fst (snd (run_ticks cfg sqlite_ops send envs (r, q, s))))) = {}"
proof -
  have "db_view (fst (snd (run_ticks cfg sqlite_ops send envs (r, q, s)))) = sent_all (db_view q)"
    using assms by (intro run_ticks_drain) simp_all
  moreover have "pending_ids (sent_all v) = {}" for v
    by (auto simp: pending_ids_def sent_all_def split: if_splits)
  ultimately show ?thesis by simp
qed

lemma queue_drains_witness:
  "db_view (fst (snd (run_ticks demo_worker sqlite_ops demo_send [demo_work_env] (demo_runner, demo_queue, ()))))
      = sent_all (db_view demo_queue)
    \<and> pending_ids (db_view (fst (snd (run_ticks demo_worker sqlite_ops demo_send [demo_work_env]
        (demo_runner, demo_queue, ()))))) = {}"
proof (rule queue_drains)
  have "pending_ids (db_view demo_queue) \<subseteq> {''id1''}"
    by (auto simp: pending_ids_def demo_queue_view split: if_splits)
  then have "card (pending_ids (db_view demo_queue)) \<le> card {''id1''}" by (rule card_mono [rotated]) simp
  then show "card (pending_ids (db_view demo_queue)) \<le> length [demo_work_env]" by simp
qed (simp_all add: demo_send_def all_due_def)

section \<open>Delays and counters\<close>

text \<open>C32. The delay before retry number \<open>a\<close> is the base doubled \<open>a - 1\<close> times, capped at the maximum,
  as long as both are below half of the \<open>int64\<close> range.\<close>

theorem backoff_delay:
  assumes "0 < base" and "base < 2 ^ 62" and "0 < mx" and "mx \<le> 2 ^ 62" and "1 \<le> a"
  shows "backoffDuration a base mx = min mx (base * 2 ^ nat (a - 1))"
  using assms(1-4) by (rule backoff_exact)

lemma backoff_delay_witness:
  "backoffDuration 4 (5 * second) (300 * second) = min (300 * second) (5 * second * 2 ^ nat (4 - 1))"
  by (rule backoff_delay) simp_all

end
