(* ===== verification/Store_Properties.thy ===== *)
theory Store_Properties
  imports Demo
begin

text \<open>
  The properties of the SQLite store: each operation against the abstract queue, what goes in
  comes out, the times in the table, and the migration of an older table.
\<close>

section \<open>The queue\<close>

text \<open>C25. \<open>Enqueue\<close> on the table is the abstract operation: it either adds one waiting entry with the
  message's envelope and bytes under a new id, or reports an error and changes nothing; the
  table stays well formed, so that a claim can always decode its rows.\<close>

theorem enqueue_refines:
  assumes "db_ok d" and "valid_time now" and "valid_msg m"
  shows "let (err, d') = Enqueue now m d in db_ok d'
    \<and> (if err = None
       then db_view d (ID m) = None \<and> complete m \<and> db_view d' = (db_view d)(ID m \<mapsto> new_entry m)
       else db_view d' = db_view d)"
proof -
  obtain err d' where e: "Enqueue now m d = (err, d')" by fastforce
  show ?thesis using Enqueue_law [OF assms e] by (cases err) (simp_all add: e)
qed

lemma demo_msg_valid: "valid_msg demo_msg"
  by (simp add: valid_msg_def demo_msg_def valid_time_def demo_time_def)

lemma enqueue_refines_witness:
  "let (err, d') = Enqueue demo_time demo_msg demo_db in db_ok d'
    \<and> (if err = None
       then db_view demo_db (ID demo_msg) = None \<and> complete demo_msg
         \<and> db_view d' = (db_view demo_db)(ID demo_msg \<mapsto> new_entry demo_msg)
       else db_view d' = db_view demo_db)"
  by (rule enqueue_refines) (simp_all add: demo_msg_valid)



text \<open>C27. What goes into an empty queue comes out: the message enqueued is the one the next claim
  returns, with the same id, sender, recipients, bytes and creation time, and one attempt.\<close>

theorem enqueue_claim_roundtrip:
  assumes "complete m" and "valid_time (CreatedAt m)" and "0 < CreatedAt m" and "valid_time (UpdatedAt m)"
    and "RFC3339Nano (CreatedAt m) \<le> RFC3339Nano now"
  shows "\<exists>d d' m'. Enqueue t m \<lparr>rows = [], faults = []\<rparr> = (None, d)
    \<and> ClaimNextPending now d = (Inr (Some m'), d')
    \<and> ID m' = ID m \<and> MailFrom m' = MailFrom m \<and> Recipients m' = Recipients m \<and> Data m' = Data m
    \<and> CreatedAt m' = CreatedAt m \<and> MsgAttempts m' = 1"
proof -
  define u where "u = (if UpdatedAt m = 0 then CreatedAt m else UpdatedAt m)"
  define r where "r = \<lparr>row_id = ID m, mail_from = MailFrom m, recipients_json = json_marshal (Recipients m),
    rfc822 = Data m, status = Pending, attempts = 0, next_attempt_at = RFC3339Nano (CreatedAt m),
    last_error = [], created_at = RFC3339Nano (CreatedAt m), updated_at = RFC3339Nano u\<rparr>"
  let ?d = "\<lparr>rows = [r], faults = []\<rparr>"
  have u: "valid_time u" using assms(2,4) by (simp add: u_def)
  have enq: "Enqueue t m \<lparr>rows = [], faults = []\<rparr> = (None, ?d)"
    using assms(1,3) by (simp add: Enqueue_def complete_def db_call_def Let_def r_def u_def)
  have due: "due now r" using assms(5) by (simp add: due_def r_def)
  have sc: "scan_row r = Inr \<lparr>ID = ID m, MailFrom = MailFrom m, Recipients = Recipients m, Data = Data m,
      MsgAttempts = 0, CreatedAt = CreatedAt m, UpdatedAt = u\<rparr>"
    using assms(2) u by (simp add: scan_row_def r_def json_unmarshal_marshal parse_RFC3339_format)
  have "status r = Pending" "row_id r = ID m" by (simp_all add: r_def)
  then have "\<exists>m' d'. ClaimNextPending now ?d = (Inr (Some m'), d') \<and> ID m' = ID m \<and> MailFrom m' = MailFrom m
      \<and> Recipients m' = Recipients m \<and> Data m' = Data m \<and> CreatedAt m' = CreatedAt m \<and> MsgAttempts m' = 1"
    using due by (simp add: ClaimNextPending_def db_call_def next_due_def sc exec_update_def count_where_def)
  with enq show ?thesis by blast
qed

lemma enqueue_claim_roundtrip_witness:
  "\<exists>d d' m'. Enqueue demo_time demo_msg \<lparr>rows = [], faults = []\<rparr> = (None, d)
    \<and> ClaimNextPending demo_time d = (Inr (Some m'), d')
    \<and> ID m' = ID demo_msg \<and> MailFrom m' = MailFrom demo_msg \<and> Recipients m' = Recipients demo_msg
    \<and> Data m' = Data demo_msg \<and> CreatedAt m' = CreatedAt demo_msg \<and> MsgAttempts m' = 1"
proof (rule enqueue_claim_roundtrip)
  show "RFC3339Nano (CreatedAt demo_msg) \<le> RFC3339Nano demo_time" by (simp add: demo_msg_def)
qed (simp_all add: demo_msg_def complete_def valid_time_def demo_time_def)




section \<open>Times in the table\<close>

text \<open>The text comparison of a claim is right up to one second: a waiting row is due in every
  later second than that of its time, and never before that second.\<close>

lemma due_by_whole_seconds:
  assumes "valid_time t" and "valid_time now" and "status r = Pending" and "next_attempt_at r = RFC3339Nano t"
  shows "(t div second < now div second \<longrightarrow> due now r) \<and> (due now r \<longrightarrow> t div second \<le> now div second)"
proof -
  have "RFC3339Nano t \<le> RFC3339Nano now" if "t div second < now div second"
    using RFC3339Nano_mono_seconds [OF assms(1,2) that] by simp
  then show ?thesis
    using RFC3339Nano_le_seconds [OF assms(1,2)] assms(3,4) by (simp add: due_def)
qed

text \<open>C29. Inside one second it is wrong: a row that became due at a whole second is not claimed at
  any later instant of that second, because the text of the whole second has no fraction and
  \<open>Z\<close> is greater than \<open>.\<close>.\<close>

theorem due_row_skipped:
  assumes "0 < f" and "f < second" and "\<forall>r\<in>set (rows d). next_attempt_at r = RFC3339Nano (s * second)"
  shows "fst (ClaimNextPending (s * second + f) d) \<in> {Inr None, Inl DBError}"
proof -
  have "\<not> RFC3339Nano (s * second) \<le> RFC3339Nano (s * second + f)"
    using RFC3339Nano_whole_second_greatest [OF assms(1,2), of s] by simp
  then have "filter (due (s * second + f)) (rows d) = []"
    using assms(3) by (auto simp: filter_empty_conv due_def)
  then have "next_due (s * second + f) (rows d) = None" by (simp add: next_due_def)
  then show ?thesis
    by (auto simp: ClaimNextPending_def split: prod.split bool.split dest: db_call_rows)
qed

lemma due_row_skipped_witness:
  "fst (ClaimNextPending (63871286400 * second + 500000000) demo_queue) \<in> {Inr None, Inl DBError}"
  by (rule due_row_skipped) (simp_all add: demo_queue_def demo_time_def)






end
