(* ===== verification/Relay_Properties.thy ===== *)
theory Relay_Properties
  imports Demo
begin

text \<open>
  What holds of the configuration, of the Gmail sender, of the SMTP server's connections, of the
  probes and of start-up, each with a concrete instance.
\<close>

section \<open>Configuration\<close>

text \<open>C36. \<open>Load\<close> succeeds exactly when the users parse and are distinct with non-blank names and
  passwords, the sender expression is given and compiles, every required variable is set, and
  every limit is positive (with the retry base below the maximum); whatever order Go visits the
  map of required variables in, the result is that configuration.\<close>

theorem load_succeeds_iff:
  assumes "\<And>ps. set (map_order ps) = set ps"
  shows "Load unmarshal compile map_order getenv = Inr cfg \<longleftrightarrow>
    (\<exists>users re. parseAuthUsersJSON unmarshal (getenv ''SMTP_AUTH_USERS_JSON'') = Inr users \<and> users_ok users
       \<and> getenv ''ALLOWED_SENDER_REGEX'' \<noteq> [] \<and> compile (getenv ''ALLOWED_SENDER_REGEX'') = Some re
       \<and> cfg = (load_fields getenv)\<lparr>AuthUsers := users, AllowedSenderPattern := re\<rparr>
       \<and> required_ok cfg \<and> limits_ok cfg)"
proof -
  have m: "first_missing (map_order (required_values c)) = None \<longleftrightarrow> required_ok c" for c
    using assms by (simp add: first_missing_None required_ok_def)
  have r: "AllowedSenderRegex (load_fields getenv) = getenv ''ALLOWED_SENDER_REGEX''"
    by (simp add: load_fields_def)
  show ?thesis
  proof (cases "parseAuthUsersJSON unmarshal (getenv ''SMTP_AUTH_USERS_JSON'')")
    case (Inl e)
    then show ?thesis by (simp add: Load_def)
  next
    case (Inr users)
    then have u: "users_ok users" by (simp add: parseAuthUsersJSON_Inr)
    show ?thesis
      unfolding Load_def Let_def Inr
      by (auto simp: m [symmetric] validate_config_None [symmetric] r u split: option.splits)
  qed
qed

definition demo_getenv :: env where
  "demo_getenv name =
     (if name = ''SMTP_AUTH_USERS_JSON'' then ''users'' else if name = ''ALLOWED_SENDER_REGEX'' then ''.*''
      else if name \<in> {''GMAIL_CLIENT_ID'', ''GMAIL_CLIENT_SECRET'', ''GMAIL_REFRESH_TOKEN'', ''GMAIL_MAILBOX'',
        ''TLS_CERT_FILE'', ''TLS_KEY_FILE''} then ''x'' else [])"

lemma load_succeeds_iff_witness:
  "\<exists>cfg. Load (\<lambda>_. Some [\<lparr>Username = ''app'', Password = ''secret''\<rparr>]) (\<lambda>_. Some (\<lambda>_. True)) rev demo_getenv = Inr cfg
    \<and> limits_ok cfg"
proof -
  let ?us = "[\<lparr>Username = ''app'', Password = ''secret''\<rparr>]"
  let ?cfg = "(load_fields demo_getenv)\<lparr>AuthUsers := ?us, AllowedSenderPattern := (\<lambda>_. True)\<rparr>"
  have s: "trim_space ''users'' = ''users''" "trim_space ''app'' = ''app''" "trim_space ''secret'' = ''secret''"
    "trim_space ''x'' = ''x''" "trim_space [] = []" "trim_space ''./data/queue.db'' = ''./data/queue.db''"
    "trim_space ''127.0.0.1:8080'' = ''127.0.0.1:8080''"
    by (simp_all add: trim_space_solid printable_solid)
  have "users_ok ?us" by (simp add: users_ok_def s)
  moreover have "required_ok ?cfg"
    by (simp add: required_ok_def required_values_def load_fields_def demo_getenv_def s)
  moreover have "limits_ok ?cfg"
    by (simp add: limits_ok_def load_fields_def demo_getenv_def getIntOrDefault_def getInt64OrDefault_def
        getOrDefault_def s)
  moreover have "parseAuthUsersJSON (\<lambda>_. Some ?us) (demo_getenv ''SMTP_AUTH_USERS_JSON'') = Inr ?us"
    using \<open>users_ok ?us\<close> by (simp add: parseAuthUsersJSON_Inr demo_getenv_def s)
  ultimately have "Load (\<lambda>_. Some ?us) (\<lambda>_. Some (\<lambda>_. True)) rev demo_getenv = Inr ?cfg"
    by (subst load_succeeds_iff) (simp_all add: demo_getenv_def)
  with \<open>limits_ok ?cfg\<close> show ?thesis by blast
qed

section \<open>The Gmail sender\<close>

text \<open>C33. However the alias cache is refreshed and asked after its creation, nothing is handed to the
  Gmail API but the unchanged bytes of a message with recipients, from the mailbox or an address
  in a listing Google gave since start-up; \<open>Send\<close> reports success only if the API took it.\<close>

theorem send_authorised:
  assumes "NewAPISender parse t0 sv first gc interval = Inr s0"
  shows "case Send parse now t_ref resp outcome mfrom rcpts content (run_alias parse evs s0) of
     (err, handed, s') \<Rightarrow>
       (case handed of
          None \<Rightarrow> err \<noteq> None
        | Some raw \<Rightarrow> raw_url_decode raw = Some content \<and> rcpts \<noteq> [] \<and> (err = None \<longleftrightarrow> outcome = None)
            \<and> (\<exists>es. Inr es \<in> {first, resp} \<union> alias_answer ` set evs
                 \<and> alias_key parse mfrom \<in> listed parse (Mailbox gc) es))"
proof -
  let ?s = "run_alias parse evs s0"
  obtain b s' where c: "IsAllowedSender parse now t_ref resp mfrom ?s = (b, s')" by fastforce
  have "cache_from parse (Mailbox gc) ({first, resp} \<union> alias_answer ` set evs) s'"
    using cache_from_check [OF cache_from_run [OF cache_from_new [OF assms]] c]
    by (rule cache_from_mono) auto
  then show ?thesis
    using IsAllowedSender_answer [of parse now t_ref resp mfrom ?s True s'] c
    by (cases b) (auto simp: Send_def Let_def raw_url_decode_encode cache_from_def split: option.splits)
qed

lemma send_authorised_witness:
  "\<exists>s0. NewAPISender demo_parse demo_time None (Inr [''A@x.org'']) (sender_config demo_cfg) (300 * second) = Inr s0
    \<and> (case Send demo_parse demo_time demo_time (Inl (PlainError ''down'')) None ''a@x.org'' [''b@y.org''] ''hello''
             (run_alias demo_parse [AliasTick demo_time (Inl (PlainError ''down''))] s0) of
         (err, handed, s') \<Rightarrow>
           (case handed of
              None \<Rightarrow> err \<noteq> None
            | Some raw \<Rightarrow> raw_url_decode raw = Some ''hello'' \<and> [''b@y.org''] \<noteq> [] \<and> (err = None \<longleftrightarrow> None = (None :: go_error option))
                \<and> (\<exists>es. Inr es \<in> {Inr [''A@x.org''], Inl (PlainError ''down'')}
                          \<union> alias_answer ` set [AliasTick demo_time (Inl (PlainError ''down''))]
                     \<and> alias_key demo_parse ''a@x.org'' \<in> listed demo_parse (Mailbox (sender_config demo_cfg)) es)))"
proof -
  obtain s0 where
    s0: "NewAPISender demo_parse demo_time None (Inr [''A@x.org'']) (sender_config demo_cfg) (300 * second) = Inr s0"
    by (simp add: NewAPISender_def sender_config_def demo_cfg_def trim_space_solid printable_solid refreshAliases_eq)
  show ?thesis by (rule exI [of _ s0], rule conjI [OF s0], rule send_authorised [OF s0])
qed

text \<open>C34. The worker may retry a failed send exactly when the alias listing was needed and failed, or
  the API was reached and failed with 429, 500, 502, 503, 504 or without an HTTP status; a
  missing recipient, a sender outside the aliases and every other status are permanent.\<close>

theorem send_error_kind:
  assumes "Send parse now t_ref resp outcome mfrom rcpts content s = (Some err, handed, s')"
  shows "IsTransient err \<longleftrightarrow>
    (handed = None \<and> rcpts \<noteq> [] \<and> (\<exists>e. fst (IsAllowedSender parse now t_ref resp mfrom s) = Inl e))
    \<or> (\<exists>e. handed \<noteq> None \<and> outcome = Some e
         \<and> (as_api_error e = None \<or> as_api_error e \<in> Some ` {429, 500, 502, 503, 504}))"
proof -
  obtain b t where c: "IsAllowedSender parse now t_ref resp mfrom s = (b, t)" by fastforce
  show ?thesis
  proof (cases outcome)
    case None
    then show ?thesis
      using assms c by (cases b) (auto simp: Send_def Let_def IsTransient_def split: if_splits)
  next
    case (Some e)
    then show ?thesis
      using assms c IsTransient_classify [of e]
      by (cases b) (auto simp: Send_def Let_def IsTransient_def split: if_splits)
  qed
qed

definition demo_sender :: api_sender where
  "demo_sender = \<lparr>mailbox = ''me@x.org'', refreshInterval = 300 * second, allowedSend = {''me@x.org''},
     lastRefresh = demo_time, lastErr = []\<rparr>"

lemma demo_canonical: "canonicalAddr demo_parse ''me@x.org'' = ''me@x.org''"
  by (simp add: canonicalAddr_def demo_parse_def trim_space_solid printable_solid)

lemma send_error_kind_witness:
  "\<exists>err handed s'. Send demo_parse demo_time demo_time (Inr []) (Some (APIError 503 ''busy''))
      ''me@x.org'' [''b@y.org''] ''hello'' demo_sender = (Some err, handed, s')
    \<and> (IsTransient err \<longleftrightarrow>
        (handed = None \<and> [''b@y.org''] \<noteq> []
           \<and> (\<exists>e. fst (IsAllowedSender demo_parse demo_time demo_time (Inr []) ''me@x.org'' demo_sender) = Inl e))
        \<or> (\<exists>e. handed \<noteq> None \<and> Some (APIError 503 ''busy'') = Some e
             \<and> (as_api_error e = None \<or> as_api_error e \<in> Some ` {429, 500, 502, 503, 504})))"
proof -
  have "fst (Send demo_parse demo_time demo_time (Inr []) (Some (APIError 503 ''busy''))
      ''me@x.org'' [''b@y.org''] ''hello'' demo_sender) \<noteq> None"
    by (simp add: Send_def IsAllowedSender_def demo_canonical Let_def demo_sender_def to_lower_def low_char_def
        classifyGoogleErr_def)
  then obtain err handed s' where s: "Send demo_parse demo_time demo_time (Inr []) (Some (APIError 503 ''busy''))
      ''me@x.org'' [''b@y.org''] ''hello'' demo_sender = (Some err, handed, s')"
    by (metis option.exhaust prod.collapse)
  show ?thesis using s send_error_kind [OF s] by blast
qed



section \<open>The server and its surroundings\<close>

text \<open>C37. However connections arrive, end and are shut down, never more than the configured number is
  served at a time; the slots in use and the wait group count exactly those, and only they are
  tracked or have open sockets, so that a forced shutdown closes every tracked one.\<close>

theorem connection_slots:
  assumes "NewServer cert st = Inr s0" and "srv_reach cfg s0 s" and "0 \<le> SMTPMaxConnections cfg"
  shows "int (card (serving s)) \<le> SMTPMaxConnections cfg \<and> connSlots s = int (card (serving s))
    \<and> connWg s = int (card (serving s)) \<and> conns s \<subseteq> serving s \<and> open_socks s \<subseteq> serving s
    \<and> open_socks (closeActiveConnections s) \<inter> conns s = {}"
proof -
  have "srv_ok cfg s" by (rule srv_ok_reach [OF assms(2) srv_ok_new [OF assms(1,3)]])
  then show ?thesis by (auto simp: srv_ok_def closeActiveConnections_def)
qed

lemma connection_slots_witness:
  "\<exists>s. serving s = {7} \<and> int (card (serving s)) \<le> SMTPMaxConnections demo_cfg \<and> connSlots s = int (card (serving s))
    \<and> connWg s = int (card (serving s)) \<and> conns s \<subseteq> serving s \<and> open_socks s \<subseteq> serving s
    \<and> open_socks (closeActiveConnections s) \<inter> conns s = {}"
proof -
  let ?init = "\<lparr>connSlots = 0, connWg = 0, conns = {}, serving = {}, open_socks = {}, closed = False\<rparr>"
  let ?s = "snd (accept_iteration demo_cfg (Conn 7) ?init)"
  have n: "NewServer True True = Inr ?init" by (simp add: NewServer_def)
  have "srv_step demo_cfg ?init ?s" by (rule srv_step.accept ) simp_all
  then have r: "srv_reach demo_cfg ?init ?s" by (rule srv_reach.srv_next [OF srv_reach.srv_start])
  have "serving ?s = {7}"
    by (simp add: accept_iteration_def tryAcquireConnectionSlot_def demo_limits)
  then show ?thesis using connection_slots [OF n r] by (intro exI [of _ ?s]) (simp add: demo_limits)
qed









end
