(* ===== verification/Spec2Isabelle.thy ===== *)
theory Spec2Isabelle
  imports Smtp_Properties Delivery_Properties Store_Properties Relay_Properties
begin

text \<open>
  Verification of the Gmail SMTP relay: a Go program that accepts mail by SMTP (implicit TLS on
  port 465, STARTTLS on port 587), keeps it in an SQLite table and delivers it through the Gmail
  API.

  \<^bold>\<open>The program and its parts.\<close> \<open>cmd/smtp-relay/main.go\<close> loads the configuration
  (\<open>internal/config\<close>), opens the queue (\<open>internal/queue\<close>), releases rows an earlier process left
  behind, creates the Gmail sender with its alias cache (\<open>internal/gmail\<close>), the SMTP server
  (\<open>internal/smtp\<close>), the delivery worker (\<open>internal/worker\<close>) and the HTTP endpoints
  (\<open>internal/obs\<close>), and runs them side by side. The SMTP server asks the alias cache whether a
  sender is allowed, and the queue for its backlog, before it enqueues; the worker claims from the
  queue, sends, and marks the outcome; the endpoints read the queue's statistics, the alias status
  and the worker's counters.

  \<^bold>\<open>Theories.\<close>
  \<^item> \<open>Prelude\<close>: the types of bytes, times and durations, \<open>int64\<close> wrap-around, fact collections.
  \<^item> \<open>Go_Strings\<close>, \<open>Base64\<close>, \<open>Timestamps\<close>, \<open>Json_Strings\<close>: the functions of Go's standard library
    the relay calls (\<open>strings\<close>, \<open>bufio\<close>, \<open>net.SplitHostPort\<close>, \<open>strconv\<close>, \<open>encoding/base64\<close>,
    \<open>encoding/hex\<close>, \<open>RFC3339Nano\<close>, \<open>encoding/json\<close> on lists of strings), with their round trips.
  \<^item> \<open>Config\<close>: config.go. \<open>Load\<close> is the whole function over an environment; the \<open>.env\<close> reader's
    effect is that environment, and the JSON decoder for users, the expression compiler and the
    order in which Go visits a map are parameters.
  \<^item> \<open>Auth_Limit\<close>: the throttle of server.go (\<open>authBlocked\<close>, \<open>recordAuthFailure\<close>,
    \<open>recordAuthFailureKey\<close>, \<open>clearAuthState\<close>), with the contract \<open>throttle\<close>.
  \<^item> \<open>Store\<close>: store.go and sqlite.go, one definition per method. The table is the list of its rows;
    \<open>faults\<close> decides which database calls fail. \<open>Queue_Spec\<close> is the abstract queue, a map from
    identifiers to entries, and the contract \<open>queue_store\<close> of a store; \<open>Sqlite_Store\<close> shows that
    the table satisfies it.
  \<^item> \<open>Gmail_Sender\<close>: sender.go. The answers of the two API calls are parameters.
  \<^item> \<open>Smtp_Session\<close>, \<open>Smtp_Commands\<close>: the session, the parsers, one definition per branch of
    \<open>handleCommand\<close> and \<open>handleAuth\<close>, \<open>consumeData\<close>, and the loop of \<open>handleConn\<close>. A connection is
    the bytes the peer sends in the clear, the bytes it sends inside TLS, and the outcomes of the
    flushes; a \<open>cmd_env\<close> is what a command reads from the clock, the random source and the TLS
    handshake.
  \<^item> \<open>Smtp_Server\<close>: \<open>NewServer\<close>, \<open>Run\<close>, \<open>acceptLoop\<close>, \<open>Shutdown\<close> and the bookkeeping of connections,
    as operations and as the step relation \<open>srv_step\<close>.
  \<^item> \<open>Runner\<close>: runner.go. \<open>Workers\<close> is its \<open>Run\<close> with several workers, as the step relation
    \<open>sys_step\<close> in which claims, sends, store calls and enqueues of other parts interleave. \<open>Intake\<close>
    cuts DATA at the reply 354 into two parts and interleaves those of several connections with the
    workers; \<open>Restarts\<close> strings runs of the process together through \<open>RecoverStuckProcessing\<close>.
  \<^item> \<open>Obs\<close>: obs/http.go, down to the bytes of the answers. \<open>Relay_Main\<close>: main.go up to the start of
    the goroutines, with every early exit. \<open>Shutdown\<close>: the signal, the accept loops, \<open>Server.Run\<close>, the
    shutdown goroutine and the connections interleaved, up to the exit status.

  \<^bold>\<open>What the lemmas show.\<close>
  \<^item> \<open>Session_Invariant\<close>: \<open>session_ok\<close> (a sender is authorised and authenticated, recipients are
    valid and within the limit, no authentication without TLS where it is required), kept by every
    command, and the induction principle of the connection loop.
  \<^item> \<open>Admission\<close>: what a connection can do to a queue, proved from the contract \<open>queue_store\<close> alone.
  \<^item> \<open>Protocol\<close>: an abstract protocol over what a client can observe, and that the handlers refine it.
  \<^item> \<open>Data_Command\<close>, \<open>Dialogue\<close>, \<open>Authentication\<close>: the outcome of DATA on every branch, whole
    conversations, and the lockout after failed attempts.
  \<^item> \<open>Delivery\<close>, \<open>Workers\<close>: the abstract delivery step, the retry delay, bounds on attempts, draining
    of the queue, and the invariant of interleaved workers. \<open>Intake\<close>: how far the backlog can exceed
    its limit. \<open>Restarts\<close>: what is settled stays settled, and how often a message can be sent.
  \<^item> \<open>Smtp_Server\<close>, \<open>Shutdown\<close>: the invariants of the connection slots and of the whole process, and
    that a shutdown can always drain.
  \<^item> \<open>Smtp_Properties\<close>, \<open>Delivery_Properties\<close>, \<open>Store_Properties\<close>, \<open>Relay_Properties\<close>: the
    properties, each with an instance on the concrete inputs of \<open>Demo\<close>.

  \<^bold>\<open>Bounds and termination.\<close> Every definition is total; there is no fuel. The connection loop
  decreases the number of commands left, the loops over message data and over fields decrease the
  bytes left to read, a run of the worker is over a list of ticks. Integers are Go's \<open>int\<close> and
  \<open>int64\<close>; where a product can leave that range (durations in seconds, the retry delay) the
  wrap-around is written out by \<open>wrap64\<close>, and the worker's counters are 64-bit words. Sums that
  count bytes read, rows or commands cannot reach \<open>2^63\<close> and are left unbounded. Times are
  nanoseconds since the year 1; properties that need their text assume \<open>valid_time\<close>, the years 1
  to 9999.

  \<^bold>\<open>Not modelled.\<close>
  \<^item> The libraries behind the parameters: TLS, sockets and deadlines (a read fails, a flush fails,
    a deadline cannot be set), SQLite itself (a statement fails or does what its text says, a
    transaction is atomic), OAuth and the Gmail API, the address parser, the regular expressions,
    the HTTP server.
  \<^item> Log lines, and what the goroutines still do between the return of \<open>Server.Run\<close> and the end of
    the process; \<open>SQLiteStore.Close\<close> and \<open>obs.Server.Shutdown\<close>, which only call a library; the reconnecting of \<open>database/sql\<close>.
  \<^item> A reply of one command is assumed to fit the buffer of \<open>bufio.Writer\<close>, so nothing is sent
    before its flush; a hostname of some kilobytes would break that.
  \<^item> \<open>strings.ToLower\<close> is exact on ASCII only, so two addresses that differ in the case of a letter
    outside ASCII are different here. The JSON escapes for U+2028 and U+2029 and the replacement of
    invalid UTF-8 are not modelled; addresses are stored as their bytes.
  \<^item> \<open>time.Since\<close> and \<open>Sub\<close> saturate at 292 years and the gauges convert seconds through \<open>float64\<close>;
    here the differences are exact.
  \<^item> The scripts, the container files and the documentation.
\<close>

end
